(* ===== verification/Prelude.thy ===== *)
theory Prelude
  imports Main "HOL-Library.Word" "HOL-Library.Monad_Syntax"
begin

text \<open>
  Shared vocabulary of the development.
  \<^item> C integers: a C \<open>int\<close> is a HOL \<open>int\<close>; the two's complement wrap-around of 32-bit
    arithmetic (the agent is built without optimisation flags) is written out with
    \<open>s32\<close> wherever the code adds or subtracts.
  \<^item> C strings: the characters before the terminating NUL; \<open>strncpy_field n\<close> is the idiom
    \<^verbatim>\<open>strncpy(dst, src, n - 1); dst[n - 1] = 0\<close> of the source.
  \<^item> Undefined memory accesses: an operation that can read or write outside an object, or
    through a pointer to a freed object, returns an \<open>option\<close>, and \<open>None\<close> is that fault.
  The rest are the list and option lemmas the components share.
\<close>

named_theorems frame_simps \<open>which parts of a state an operation leaves alone\<close>
named_theorems conn_live \<open>operations keep allocated connections allocated\<close>
named_theorems fmt_defs \<open>definitions of the messages the agent writes\<close>

text \<open>A \<open>connection_t *\<close> that is not NULL is its address.\<close>

type_synonym conn_ptr = nat

section \<open>C integers\<close>

definition s32 :: "int \<Rightarrow> int" where
  "s32 x = (x + 2147483648) mod 4294967296 - 2147483648"

definition in_s32 :: "int \<Rightarrow> bool" where
  "in_s32 x \<longleftrightarrow> -2147483648 \<le> x \<and> x < 2147483648"

lemma in_s32_s32 [simp]: "in_s32 (s32 x)"
proof -
  have "0 \<le> (x + 2147483648) mod 4294967296" "(x + 2147483648) mod 4294967296 < 4294967296"
    by simp_all
  then show ?thesis unfolding in_s32_def s32_def by linarith
qed

lemma s32_id: "in_s32 x \<Longrightarrow> s32 x = x"
  by (simp add: in_s32_def s32_def)

lemma s32_idem [simp]: "s32 (s32 x) = s32 x"
  by (simp add: s32_id)

lemma s32_add_left: "s32 (s32 x + y) = s32 (x + y)"
proof -
  have "s32 x + y + 2147483648 = (x + 2147483648) mod 4294967296 + y"
    by (simp add: s32_def)
  also have "\<dots> mod 4294967296 = (x + 2147483648 + y) mod 4294967296"
    by (rule mod_add_left_eq)
  finally show ?thesis by (simp add: s32_def algebra_simps)
qed

lemma s32_diff_left: "s32 (s32 x - y) = s32 (x - y)"
  using s32_add_left [of x "- y"] by simp

lemma s32_0 [simp]: "s32 0 = 0"
  by (simp add: s32_def)

text \<open>The remainder of C truncates towards zero: its sign is the dividend's.\<close>

definition c_rem :: "int \<Rightarrow> int \<Rightarrow> int" where
  "c_rem a b = sgn a * (\<bar>a\<bar> mod \<bar>b\<bar>)"

lemma c_rem_nonneg: "0 \<le> a \<Longrightarrow> 0 < b \<Longrightarrow> c_rem a b = a mod b"
  by (cases "a = 0") (auto simp: c_rem_def)

section \<open>C strings and fixed-size character fields\<close>

abbreviation NL :: char where "NL \<equiv> CHR 0x0A"
abbreviation NUL :: char where "NUL \<equiv> CHR 0x00"

definition cstr :: "char list \<Rightarrow> string" where
  "cstr bs = takeWhile (\<lambda>c. c \<noteq> NUL) bs"

definition strncpy_field :: "nat \<Rightarrow> string \<Rightarrow> string" where
  "strncpy_field n s = take (n - 1) s"

lemma strncpy_field_id: "length s < n \<Longrightarrow> strncpy_field n s = s"
  by (simp add: strncpy_field_def)

lemma length_strncpy_field: "0 < n \<Longrightarrow> length (strncpy_field n s) < n"
  by (auto simp: strncpy_field_def)

section \<open>Lists\<close>

text \<open>
  Unlinking the first node of a singly linked list that satisfies \<open>P\<close>: what the loops
  with a \<open>prev\<close> pointer and a \<open>break\<close> do.
\<close>

fun remove_first :: "('a \<Rightarrow> bool) \<Rightarrow> 'a list \<Rightarrow> 'a list" where
  "remove_first P [] = []"
| "remove_first P (x # xs) = (if P x then xs else x # remove_first P xs)"

text \<open>Overwriting that node in place.\<close>

fun update_first :: "('a \<Rightarrow> bool) \<Rightarrow> ('a \<Rightarrow> 'a) \<Rightarrow> 'a list \<Rightarrow> 'a list" where
  "update_first P f [] = []"
| "update_first P f (x # xs) = (if P x then f x # xs else x # update_first P f xs)"

lemma set_remove_first_subset: "set (remove_first P xs) \<subseteq> set xs"
  by (induction xs) auto

lemma in_remove_firstD: "x \<in> set (remove_first P xs) \<Longrightarrow> x \<in> set xs"
  using set_remove_first_subset by fast

lemma remove_first_idle: "(\<forall>x\<in>set xs. \<not> P x) \<Longrightarrow> remove_first P xs = xs"
  by (induction xs) auto

lemma find_remove_first:
  "find P xs = Some x \<Longrightarrow> \<exists>ys zs. xs = ys @ x # zs \<and> (\<forall>y\<in>set ys. \<not> P y) \<and> P x
     \<and> remove_first P xs = ys @ zs"
proof (induction xs)
  case (Cons a xs)
  show ?case
  proof (cases "P a")
    case True
    with Cons.prems show ?thesis by (intro exI [of _ "[]"] exI [of _ xs]) auto
  next
    case False
    with Cons obtain ys zs where "xs = ys @ x # zs" "\<forall>y\<in>set ys. \<not> P y" "P x"
      "remove_first P xs = ys @ zs" by auto
    with False show ?thesis by (intro exI [of _ "a # ys"] exI [of _ zs]) auto
  qed
qed simp

lemma find_None_iff_all: "find P xs = None \<longleftrightarrow> (\<forall>x\<in>set xs. \<not> P x)"
  by (auto simp: find_None_iff)

lemma find_SomeD: "find P xs = Some x \<Longrightarrow> x \<in> set xs \<and> P x"
  by (auto simp: find_Some_iff)

lemma find_append: "find P (xs @ ys) = (case find P xs of None \<Rightarrow> find P ys | Some x \<Rightarrow> Some x)"
  by (induction xs) auto

lemma update_first_idle: "(\<forall>x\<in>set xs. \<not> P x) \<Longrightarrow> update_first P f xs = xs"
  by (induction xs) auto

lemma set_update_first:
  "y \<in> set (update_first P f xs) \<Longrightarrow> y \<in> set xs \<or> (\<exists>x\<in>set xs. find P xs = Some x \<and> y = f x)"
  by (induction xs) (auto split: if_splits)

section \<open>Faults\<close>

lemma bind_SomeD: "Option.bind m f = Some y \<Longrightarrow> \<exists>x. m = Some x \<and> f x = Some y"
  by (cases m) auto

section \<open>Transition systems\<close>

text \<open>A predicate every step keeps holds in every state reachable from one where it holds.\<close>

locale step_invariant =
  fixes step :: "'s \<Rightarrow> 's \<Rightarrow> bool"
    and inv :: "'s \<Rightarrow> bool"
  assumes step_keeps: "inv s \<Longrightarrow> step s s' \<Longrightarrow> inv s'"
begin

lemma reach_keeps: "step\<^sup>*\<^sup>* s s' \<Longrightarrow> inv s \<Longrightarrow> inv s'"
  by (induction rule: rtranclp_induct) (auto intro: step_keeps)

end

end
