(* ===== verification/Pending_Queue.thy ===== *)
theory Pending_Queue
  imports Prelude
begin

text \<open>
  The queue of pending requests of a resource, \<^verbatim>\<open>agente_c/src/pending_request.c\<close>, at
  the level of its contents: the chain of nodes from \<open>top\<close> is a list and \<open>q_amount\<close> is the
  counter the code keeps beside it. The pointer level is in \<open>Pending_Queue_Ptr\<close>, which
  refines this one. The interface both offer is the locale \<open>pending_queue\<close>.
\<close>

section \<open>Data and operations\<close>

datatype origin_t = ORIGIN_LOCAL | ORIGIN_REMOTE

definition type_to_str :: "origin_t \<Rightarrow> string" where
  "type_to_str origen = (case origen of ORIGIN_LOCAL \<Rightarrow> ''LOCAL'' | ORIGIN_REMOTE \<Rightarrow> ''REMOTE'')"

record PendingRequest =
  pr_job_id :: int
  pr_amount :: int
  owner_conn :: conn_ptr
  origen :: origin_t

record ColaPendingRequest =
  items :: "PendingRequest list"
  q_amount :: int

definition queue_init :: ColaPendingRequest where
  "queue_init = \<lparr>items = [], q_amount = 0\<rparr>"

text \<open>\<open>queue_destroy\<close> frees the nodes and leaves the counter as it is.\<close>

definition queue_destroy :: "ColaPendingRequest \<Rightarrow> ColaPendingRequest" where
  "queue_destroy c = c\<lparr>items := []\<rparr>"

definition queue_is_empty :: "ColaPendingRequest \<Rightarrow> bool" where
  "queue_is_empty c \<longleftrightarrow> items c = []"

fun delete_loop :: "(PendingRequest \<Rightarrow> bool) \<Rightarrow> PendingRequest list \<Rightarrow> int \<Rightarrow> PendingRequest list \<times> int" where
  "delete_loop P [] amount = ([], amount)"
| "delete_loop P (nodo # nxt) amount =
     (if P nodo then delete_loop P nxt (s32 (amount - pr_amount nodo))
      else (case delete_loop P nxt amount of (rest, amount') \<Rightarrow> (nodo # rest, amount')))"

definition queue_delete :: "(PendingRequest \<Rightarrow> bool) \<Rightarrow> ColaPendingRequest \<Rightarrow> ColaPendingRequest" where
  "queue_delete P c = (case delete_loop P (items c) (q_amount c) of
     (rest, amount) \<Rightarrow> c\<lparr>items := rest, q_amount := amount\<rparr>)"

definition queue_delete_by_conn :: "ColaPendingRequest \<Rightarrow> conn_ptr \<Rightarrow> ColaPendingRequest" where
  "queue_delete_by_conn c conn = queue_delete (\<lambda>nodo. owner_conn nodo = conn) c"

definition queue_delete_by_job_id :: "ColaPendingRequest \<Rightarrow> int \<Rightarrow> ColaPendingRequest" where
  "queue_delete_by_job_id c job_id = queue_delete (\<lambda>nodo. pr_job_id nodo = job_id) c"

definition queue_enqueue ::
  "ColaPendingRequest \<Rightarrow> int \<Rightarrow> int \<Rightarrow> conn_ptr \<Rightarrow> int \<Rightarrow> origin_t \<Rightarrow> bool \<times> ColaPendingRequest" where
  "queue_enqueue c job_id amount conn max_amount orig =
     (True, c\<lparr>items := items c @ [\<lparr>pr_job_id = job_id, pr_amount = amount, owner_conn = conn, origen = orig\<rparr>],
              q_amount := s32 (q_amount c + amount)\<rparr>)"

definition queue_dequeue :: "ColaPendingRequest \<Rightarrow> PendingRequest option \<times> ColaPendingRequest" where
  "queue_dequeue c = (case items c of
      tope # sig \<Rightarrow> (Some tope, c\<lparr>items := sig, q_amount := s32 (q_amount c - pr_amount tope)\<rparr>)
    | [] \<Rightarrow> (None, c))"

section \<open>The invariant of the counter\<close>

text \<open>
  The counter is the sum of the pending amounts, modulo the width of an \<open>int\<close>.
\<close>

definition pending_total :: "PendingRequest list \<Rightarrow> int" where
  "pending_total xs = sum_list (map pr_amount xs)"

definition queue_ok :: "ColaPendingRequest \<Rightarrow> bool" where
  "queue_ok c \<longleftrightarrow> q_amount c = s32 (pending_total (items c))"

lemma pending_total_simps [simp]:
  "pending_total [] = 0" "pending_total (x # xs) = pr_amount x + pending_total xs"
  "pending_total (xs @ ys) = pending_total xs + pending_total ys"
  by (simp_all add: pending_total_def)

lemma delete_loop_filter: "fst (delete_loop P xs a) = filter (\<lambda>x. \<not> P x) xs"
  by (induction xs arbitrary: a) (simp_all add: case_prod_beta)

lemma delete_loop_amount:
  "a = s32 (b + pending_total xs) \<Longrightarrow>
   snd (delete_loop P xs a) = s32 (b + pending_total (filter (\<lambda>x. \<not> P x) xs))"
proof (induction xs arbitrary: a b)
  case (Cons x xs)
  show ?case
  proof (cases "P x")
    case True
    have "s32 (a - pr_amount x) = s32 (b + pending_total xs)"
      using Cons.prems by (simp add: s32_diff_left algebra_simps)
    with Cons.IH True show ?thesis by simp
  next
    case False
    have "a = s32 ((b + pr_amount x) + pending_total xs)"
      using Cons.prems by (simp add: algebra_simps)
    with Cons.IH [of a "b + pr_amount x"] False show ?thesis
      by (simp add: algebra_simps case_prod_beta)
  qed
qed simp

lemma items_queue_delete [simp]: "items (queue_delete P c) = filter (\<lambda>x. \<not> P x) (items c)"
  using delete_loop_filter [of P "items c" "q_amount c"] by (simp add: queue_delete_def case_prod_beta)

lemma items_queue_delete_by [simp]:
  "items (queue_delete_by_conn c conn) = filter (\<lambda>x. owner_conn x \<noteq> conn) (items c)"
  "items (queue_delete_by_job_id c j) = filter (\<lambda>x. pr_job_id x \<noteq> j) (items c)"
  by (simp_all add: queue_delete_by_conn_def queue_delete_by_job_id_def)

lemma queue_delete_ok: "queue_ok c \<Longrightarrow> queue_ok (queue_delete P c)"
  using delete_loop_filter [of P "items c" "q_amount c"]
    delete_loop_amount [of "q_amount c" 0 "items c" P]
  by (simp add: queue_ok_def queue_delete_def case_prod_beta)

lemma queue_enqueue_ok: "queue_ok c \<Longrightarrow> queue_ok (snd (queue_enqueue c j a conn m orig))"
  by (simp add: queue_ok_def queue_enqueue_def s32_add_left)

lemma queue_dequeue_ok: "queue_ok c \<Longrightarrow> queue_ok (snd (queue_dequeue c))"
  by (auto simp: queue_ok_def queue_dequeue_def s32_diff_left split: list.splits)

lemmas queue_ok_intros = queue_delete_ok queue_enqueue_ok queue_dequeue_ok

section \<open>The interface of a pending queue\<close>

text \<open>
  A client drives the queue by a sequence of operations; the abstract queue is the list of
  waiting requests, oldest first.
\<close>

datatype qop = Enqueue PendingRequest | Dequeue | DeleteConn conn_ptr | DeleteJob int

fun spec_step :: "qop \<Rightarrow> PendingRequest list \<Rightarrow> PendingRequest list \<times> PendingRequest list" where
  "spec_step (Enqueue r) xs = ([], xs @ [r])"
| "spec_step Dequeue xs = (take 1 xs, drop 1 xs)"
| "spec_step (DeleteConn conn) xs = ([], filter (\<lambda>r. owner_conn r \<noteq> conn) xs)"
| "spec_step (DeleteJob j) xs = ([], filter (\<lambda>r. pr_job_id r \<noteq> j) xs)"

fun spec_run :: "qop list \<Rightarrow> PendingRequest list \<Rightarrow> PendingRequest list \<times> PendingRequest list" where
  "spec_run [] xs = ([], xs)"
| "spec_run (x # ops) xs = (case spec_step x xs of (out, ys) \<Rightarrow>
     (case spec_run ops ys of (outs, zs) \<Rightarrow> (out @ outs, zs)))"

fun run_ops :: "(qop \<Rightarrow> 'q \<Rightarrow> (PendingRequest list \<times> 'q) option) \<Rightarrow> qop list \<Rightarrow> 'q
    \<Rightarrow> (PendingRequest list \<times> 'q) option" where
  "run_ops step [] q = Some ([], q)"
| "run_ops step (x # ops) q = (case step x q of
      None \<Rightarrow> None
    | Some (out, q') \<Rightarrow> (case run_ops step ops q' of
          None \<Rightarrow> None
        | Some (outs, q'') \<Rightarrow> Some (out @ outs, q'')))"

locale pending_queue =
  fixes rep :: "'q \<Rightarrow> PendingRequest list \<Rightarrow> bool"
    and step :: "qop \<Rightarrow> 'q \<Rightarrow> (PendingRequest list \<times> 'q) option"
  assumes step_rep: "rep q xs \<Longrightarrow>
    \<exists>q'. step x q = Some (fst (spec_step x xs), q') \<and> rep q' (snd (spec_step x xs))"
begin

text \<open>No sequence of operations faults, and each gives what the abstract queue gives.\<close>

lemma run_rep: "rep q xs \<Longrightarrow>
  \<exists>q'. run_ops step ops q = Some (fst (spec_run ops xs), q') \<and> rep q' (snd (spec_run ops xs))"
proof (induction ops arbitrary: q xs)
  case (Cons x ops)
  obtain q' where st: "step x q = Some (fst (spec_step x xs), q')"
    and r: "rep q' (snd (spec_step x xs))" using step_rep [OF Cons.prems] by blast
  from Cons.IH [OF r] st show ?case by (auto split: prod.splits)
qed simp

end

text \<open>The list-level operations of this theory, as the steps of the interface.\<close>

fun list_step :: "qop \<Rightarrow> ColaPendingRequest \<Rightarrow> (PendingRequest list \<times> ColaPendingRequest) option" where
  "list_step (Enqueue r) c =
     Some ([], snd (queue_enqueue c (pr_job_id r) (pr_amount r) (owner_conn r) 0 (origen r)))"
| "list_step Dequeue c = (case queue_dequeue c of (r, c') \<Rightarrow>
     Some (case r of None \<Rightarrow> [] | Some x \<Rightarrow> [x], c'))"
| "list_step (DeleteConn conn) c = Some ([], queue_delete_by_conn c conn)"
| "list_step (DeleteJob j) c = Some ([], queue_delete_by_job_id c j)"

definition list_rep :: "ColaPendingRequest \<Rightarrow> PendingRequest list \<Rightarrow> bool" where
  "list_rep c xs \<longleftrightarrow> items c = xs \<and> queue_ok c"

lemma list_step_rep:
  assumes "list_rep c xs"
  shows "\<exists>c'. list_step x c = Some (fst (spec_step x xs), c') \<and> list_rep c' (snd (spec_step x xs))"
proof (cases x)
  case (Enqueue r)
  with assms show ?thesis
    using queue_enqueue_ok [of c "pr_job_id r" "pr_amount r" "owner_conn r" 0 "origen r"]
    by (simp add: list_rep_def) (simp add: queue_enqueue_def)
next
  case Dequeue
  with assms show ?thesis
    using queue_dequeue_ok [of c] by (cases xs) (auto simp: list_rep_def queue_dequeue_def)
next
  case (DeleteConn conn)
  with assms show ?thesis by (simp add: list_rep_def queue_delete_by_conn_def queue_delete_ok)
next
  case (DeleteJob j)
  with assms show ?thesis by (simp add: list_rep_def queue_delete_by_job_id_def queue_delete_ok)
qed

interpretation lq: pending_queue list_rep list_step
  by unfold_locales (rule list_step_rep)

end
