(* ===== verification/Pending_Queue_Ptr.thy ===== *)
theory Pending_Queue_Ptr
  imports Pending_Queue
begin

text \<open>
  The same queue as \<^verbatim>\<open>pending_request.c\<close> stores it: nodes in memory linked by
  \<open>sig\<close>, and the pointers \<open>top\<close> and \<open>bottom\<close>. Following NULL or a freed node is the
  fault \<open>None\<close>; the deletion loops are \<open>partial_function\<close>s, so that running round a cycle
  would be \<open>None\<close> too. The theorems show that neither happens on a well-formed queue and
  that every operation does to the chain what the list level does to the list.
\<close>

section \<open>Nodes, memory and operations\<close>

record pnode =
  req :: PendingRequest
  sig :: "nat option"

record pqueue =
  top :: "nat option"
  bottom :: "nat option"
  amount :: int

text \<open>Memory: the allocated nodes, and the next address \<open>malloc\<close> returns.\<close>

record pmem =
  nodes :: "nat \<rightharpoonup> pnode"
  brk :: nat

definition p_queue_init :: pqueue where
  "p_queue_init = \<lparr>top = None, bottom = None, amount = 0\<rparr>"

definition p_queue_is_empty :: "pqueue \<Rightarrow> bool" where
  "p_queue_is_empty c \<longleftrightarrow> top c = None \<and> bottom c = None"

definition p_queue_enqueue ::
  "pmem \<Rightarrow> pqueue \<Rightarrow> int \<Rightarrow> int \<Rightarrow> conn_ptr \<Rightarrow> int \<Rightarrow> origin_t \<Rightarrow> (pmem \<times> pqueue) option" where
  "p_queue_enqueue m c job_id am conn max_amount orig =
     (let pending = brk m;
          node = \<lparr>req = \<lparr>pr_job_id = job_id, pr_amount = am, owner_conn = conn, origen = orig\<rparr>, sig = None\<rparr>;
          ns = (nodes m)(pending \<mapsto> node);
          m' = m\<lparr>nodes := ns, brk := Suc (brk m)\<rparr>;
          am' = s32 (amount c + am)
      in if p_queue_is_empty c
         then Some (m', c\<lparr>top := Some pending, bottom := Some pending, amount := am'\<rparr>)
         else do {
           b \<leftarrow> bottom c;
           n \<leftarrow> ns b;
           Some (m'\<lparr>nodes := ns(b \<mapsto> n\<lparr>sig := Some pending\<rparr>)\<rparr>,
                 c\<lparr>bottom := Some pending, amount := am'\<rparr>)
         })"

text \<open>The dequeued node stays allocated: its caller frees it.\<close>

definition p_queue_dequeue :: "pmem \<Rightarrow> pqueue \<Rightarrow> (nat option \<times> pmem \<times> pqueue) option" where
  "p_queue_dequeue m c =
     (if p_queue_is_empty c then Some (None, m, c)
      else do {
        tope \<leftarrow> top c;
        n \<leftarrow> nodes m tope;
        Some (Some tope, m\<lparr>nodes := (nodes m)(tope \<mapsto> n\<lparr>sig := None\<rparr>)\<rparr>,
              \<lparr>top = sig n,
               bottom = (if sig n = None then None else bottom c),
               amount = s32 (amount c - pr_amount (req n))\<rparr>)
      })"

definition p_unlink :: "nat option \<Rightarrow> nat option \<Rightarrow> (nat \<rightharpoonup> pnode) \<Rightarrow> pqueue \<Rightarrow> ((nat \<rightharpoonup> pnode) \<times> pqueue) option" where
  "p_unlink prev nxt ns c = (case prev of
      None \<Rightarrow> Some (ns, c\<lparr>top := nxt\<rparr>)
    | Some p \<Rightarrow> (case ns p of
          None \<Rightarrow> None
        | Some n \<Rightarrow> Some (ns(p \<mapsto> n\<lparr>sig := nxt\<rparr>), c)))"

partial_function (option) p_delete_loop ::
  "(PendingRequest \<Rightarrow> bool) \<Rightarrow> nat option \<Rightarrow> nat option \<Rightarrow> (nat \<rightharpoonup> pnode) \<Rightarrow> pqueue
     \<Rightarrow> ((nat \<rightharpoonup> pnode) \<times> pqueue) option" where
  "p_delete_loop P nodo prev ns c = (case nodo of
      None \<Rightarrow> Some (ns, c)
    | Some a \<Rightarrow> (case ns a of
          None \<Rightarrow> None
        | Some n \<Rightarrow>
            if P (req n)
            then (case p_unlink prev (sig n) ns c of
                None \<Rightarrow> None
              | Some (ns', c') \<Rightarrow>
                  p_delete_loop P (sig n) prev (ns'(a := None))
                    (c'\<lparr>bottom := (if bottom c' = Some a then prev else bottom c'),
                       amount := s32 (amount c' - pr_amount (req n))\<rparr>))
            else p_delete_loop P (sig n) nodo ns c))"

definition p_queue_delete :: "(PendingRequest \<Rightarrow> bool) \<Rightarrow> pmem \<Rightarrow> pqueue \<Rightarrow> (pmem \<times> pqueue) option" where
  "p_queue_delete P m c = (case p_delete_loop P (top c) None (nodes m) c of
      None \<Rightarrow> None
    | Some (ns, c') \<Rightarrow> Some (m\<lparr>nodes := ns\<rparr>, c'))"

definition p_queue_delete_by_conn :: "pmem \<Rightarrow> pqueue \<Rightarrow> conn_ptr \<Rightarrow> (pmem \<times> pqueue) option" where
  "p_queue_delete_by_conn m c conn = p_queue_delete (\<lambda>r. owner_conn r = conn) m c"

definition p_queue_delete_by_job_id :: "pmem \<Rightarrow> pqueue \<Rightarrow> int \<Rightarrow> (pmem \<times> pqueue) option" where
  "p_queue_delete_by_job_id m c job_id = p_queue_delete (\<lambda>r. pr_job_id r = job_id) m c"

partial_function (option) p_destroy_loop :: "nat option \<Rightarrow> (nat \<rightharpoonup> pnode) \<Rightarrow> (nat \<rightharpoonup> pnode) option" where
  "p_destroy_loop nodo ns = (case nodo of
      None \<Rightarrow> Some ns
    | Some a \<Rightarrow> (case ns a of None \<Rightarrow> None | Some n \<Rightarrow> p_destroy_loop (sig n) (ns(a := None))))"

definition p_queue_destroy :: "pmem \<Rightarrow> pqueue \<Rightarrow> (pmem \<times> pqueue) option" where
  "p_queue_destroy m c = (case p_destroy_loop (top c) (nodes m) of
      None \<Rightarrow> None
    | Some ns \<Rightarrow> Some (m\<lparr>nodes := ns\<rparr>, c\<lparr>top := None, bottom := None\<rparr>))"

section \<open>Chains of nodes\<close>

fun chain :: "(nat \<rightharpoonup> pnode) \<Rightarrow> nat option \<Rightarrow> nat list \<Rightarrow> PendingRequest list \<Rightarrow> nat option \<Rightarrow> bool" where
  "chain ns p [] [] e \<longleftrightarrow> p = e"
| "chain ns p (a # as) (x # xs) e \<longleftrightarrow>
     p = Some a \<and> (\<exists>n. ns a = Some n \<and> req n = x \<and> chain ns (sig n) as xs e)"
| "chain ns p _ _ e \<longleftrightarrow> False"

lemma chain_length: "chain ns p as xs e \<Longrightarrow> length as = length xs"
  by (induction ns p as xs e rule: chain.induct) auto

lemma chain_append:
  "length as = length xs \<Longrightarrow>
   chain ns p (as @ bs) (xs @ ys) e \<longleftrightarrow> (\<exists>q. chain ns p as xs q \<and> chain ns q bs ys e)"
  by (induction as xs arbitrary: p rule: list_induct2) auto

lemma chain_upd: "a \<notin> set as \<Longrightarrow> chain (ns(a := v)) p as xs e \<longleftrightarrow> chain ns p as xs e"
  by (induction ns p as xs e rule: chain.induct) auto

lemma chain_dom: "chain ns p as xs e \<Longrightarrow> set as \<subseteq> dom ns"
  by (induction ns p as xs e rule: chain.induct) auto

lemma chain_Nil [simp]: "chain ns p [] xs e \<longleftrightarrow> xs = [] \<and> p = e"
  by (cases xs) auto

lemma chain_Cons: "chain ns p (a # as) ys e \<longleftrightarrow>
  (\<exists>x xs n. ys = x # xs \<and> p = Some a \<and> ns a = Some n \<and> req n = x \<and> chain ns (sig n) as xs e)"
  by (cases ys) auto

definition last_opt :: "'a list \<Rightarrow> 'a option" where
  "last_opt xs = (if xs = [] then None else Some (last xs))"

lemma last_opt_simps [simp]: "last_opt [] = None" "last_opt (xs @ [x]) = Some x"
  "last_opt (x # xs) = (if xs = [] then Some x else last_opt xs)"
  "last_opt (xs @ y # ys) = last_opt (y # ys)"
  by (simp_all add: last_opt_def)

text \<open>Redirecting the last node of a chain.\<close>

lemma chain_relink:
  assumes "chain ns p (as @ [a]) xs e" "distinct (as @ [a])" "ns a = Some n"
  shows "chain (ns(a \<mapsto> n\<lparr>sig := e'\<rparr>)) p (as @ [a]) xs e'"
proof -
  from chain_length [OF assms(1)] obtain ys y where xs: "xs = ys @ [y]" "length as = length ys"
    by (cases xs rule: rev_cases) auto
  with assms show ?thesis by (auto simp: chain_append chain_upd)
qed

definition queue_rep :: "nat list \<Rightarrow> pmem \<Rightarrow> pqueue \<Rightarrow> ColaPendingRequest \<Rightarrow> bool" where
  "queue_rep as m c l \<longleftrightarrow> distinct as \<and> chain (nodes m) (top c) as (items l) None \<and> bottom c = last_opt as
     \<and> amount c = q_amount l \<and> (\<forall>a. brk m \<le> a \<longrightarrow> nodes m a = None)"

lemma queue_rep_empty: "queue_rep as m c l \<Longrightarrow> p_queue_is_empty c \<longleftrightarrow> queue_is_empty l"
  by (cases as) (auto simp: queue_rep_def p_queue_is_empty_def queue_is_empty_def chain_Cons last_opt_def)

section \<open>Every operation refines the list level\<close>

lemma enqueue_refines:
  assumes "queue_rep as m c l"
  shows "\<exists>m' c'. p_queue_enqueue m c j am conn mx orig = Some (m', c')
    \<and> queue_rep (as @ [brk m]) m' c' (snd (queue_enqueue l j am conn mx orig))"
proof (cases as rule: rev_cases)
  case Nil
  with assms show ?thesis
    by (auto simp: queue_rep_def p_queue_enqueue_def queue_enqueue_def p_queue_is_empty_def Let_def)
next
  case (snoc bs b)
  let ?a = "brk m"
  have rep: "distinct as" "chain (nodes m) (top c) (bs @ [b]) (items l) None" "bottom c = Some b"
    "amount c = q_amount l" "nodes m ?a = None" "\<And>x. ?a \<le> x \<Longrightarrow> nodes m x = None"
    using assms snoc by (auto simp: queue_rep_def)
  then obtain n where n: "nodes m b = Some n" using chain_dom by fastforce
  with rep(5) have ab: "?a \<noteq> b" by auto
  have fresh: "?a \<notin> set (bs @ [b])" using chain_dom [OF rep(2)] rep(5) by blast
  define r where "r = \<lparr>pr_job_id = j, pr_amount = am, owner_conn = conn, origen = orig\<rparr>"
  define ns where "ns = (nodes m)(?a \<mapsto> \<lparr>req = r, sig = None\<rparr>)"
  have "chain ns (top c) (bs @ [b]) (items l) None" using rep(2) fresh by (simp add: ns_def chain_upd)
  moreover have "ns b = Some n" using n ab by (simp add: ns_def)
  ultimately have "chain (ns(b \<mapsto> n\<lparr>sig := Some ?a\<rparr>)) (top c) (bs @ [b]) (items l) (Some ?a)"
    using rep(1) snoc by (intro chain_relink) auto
  moreover have "chain (ns(b \<mapsto> n\<lparr>sig := Some ?a\<rparr>)) (Some ?a) [?a] [r] None"
    using ab by (simp add: ns_def)
  ultimately have "chain (ns(b \<mapsto> n\<lparr>sig := Some ?a\<rparr>)) (top c) ((bs @ [b]) @ [?a]) (items l @ [r]) None"
    using chain_length [OF rep(2)] by (subst chain_append) auto
  moreover have "\<forall>x. Suc ?a \<le> x \<longrightarrow> (ns(b \<mapsto> n\<lparr>sig := Some ?a\<rparr>)) x = None"
    using rep(5,6) n by (auto simp: ns_def)
  ultimately show ?thesis
    using rep snoc fresh n ab
    by (auto simp: queue_rep_def p_queue_enqueue_def queue_enqueue_def p_queue_is_empty_def Let_def
        ns_def r_def)
qed

lemma dequeue_refines:
  assumes "queue_rep as m c l"
  shows "\<exists>r m' c'. p_queue_dequeue m c = Some (r, m', c')
    \<and> queue_rep (tl as) m' c' (snd (queue_dequeue l))
    \<and> (case fst (queue_dequeue l) of None \<Rightarrow> r = None
       | Some x \<Rightarrow> (\<exists>a n. r = Some a \<and> a \<notin> set (tl as) \<and> nodes m' a = Some n \<and> req n = x))"
proof (cases as)
  case Nil
  with assms show ?thesis
    by (auto simp: queue_rep_def p_queue_dequeue_def queue_dequeue_def p_queue_is_empty_def)
next
  case (Cons a bs)
  from assms Cons obtain x xs n where l: "items l = x # xs" "top c = Some a" "nodes m a = Some n"
    "req n = x" "chain (nodes m) (sig n) bs xs None" "distinct (a # bs)"
    by (auto simp: queue_rep_def chain_Cons)
  then have bs: "sig n = None \<longleftrightarrow> bs = []" by (cases bs) (auto simp: chain_Cons)
  have brk: "\<forall>y. brk m \<le> y \<longrightarrow> y \<noteq> a \<and> nodes m y = None"
    using assms l(3) by (auto simp: queue_rep_def)
  have bot: "bottom c = last_opt (a # bs)" "amount c = q_amount l"
    using assms Cons by (auto simp: queue_rep_def)
  show ?thesis
    using l bs brk bot Cons
    by (auto simp: queue_rep_def p_queue_dequeue_def queue_dequeue_def p_queue_is_empty_def chain_upd)
qed

text \<open>
  The deletion loop: \<open>ds\<close> are the nodes already kept, \<open>prev\<close> the last of them, and
  \<open>rs\<close> the nodes still to visit.
\<close>

lemma p_delete_loop_chain:
  assumes "distinct (ds @ rs)" "chain ns (top c) ds dxs nodo" "chain ns nodo rs rxs None"
    and "bottom c = last_opt (ds @ rs)"
  shows "\<exists>ns' c' ks. p_delete_loop P nodo (last_opt ds) ns c = Some (ns', c')
    \<and> chain ns' (top c') (ds @ ks) (dxs @ fst (delete_loop P rxs (amount c))) None
    \<and> distinct (ds @ ks) \<and> bottom c' = last_opt (ds @ ks) \<and> set ks \<subseteq> set rs
    \<and> amount c' = snd (delete_loop P rxs (amount c)) \<and> dom ns' = dom ns - (set rs - set ks)"
  using assms
proof (induction rs arbitrary: ds dxs nodo ns c rxs)
  case Nil
  then have "nodo = None" "rxs = []" by auto
  moreover have "chain ns (top c) (ds @ []) (dxs @ []) None" using Nil.prems \<open>nodo = None\<close> by simp
  ultimately show ?case
    using Nil.prems by (subst p_delete_loop.simps) (auto intro!: exI [of _ "[]"])
next
  case (Cons a rs)
  from Cons.prems(3) obtain x xs n where x: "rxs = x # xs" "nodo = Some a" "ns a = Some n" "req n = x"
    and ch: "chain ns (sig n) rs xs None" by (auto simp: chain_Cons)
  show ?case
  proof (cases "P x")
    case False
    have "chain ns (top c) (ds @ [a]) (dxs @ [x]) (sig n)"
      using Cons.prems(2) x chain_length by (subst chain_append) auto
    from Cons.IH [OF _ this ch] Cons.prems False obtain ns' c' ks where
      IH: "p_delete_loop P (sig n) (last_opt (ds @ [a])) ns c = Some (ns', c')"
      "chain ns' (top c') ((ds @ [a]) @ ks) ((dxs @ [x]) @ fst (delete_loop P xs (amount c))) None"
      "distinct ((ds @ [a]) @ ks)" "bottom c' = last_opt ((ds @ [a]) @ ks)" "set ks \<subseteq> set rs"
      "amount c' = snd (delete_loop P xs (amount c))" "dom ns' = dom ns - (set rs - set ks)"
      by auto
    have "p_delete_loop P nodo (last_opt ds) ns c = Some (ns', c')"
      using x False IH(1) by (subst p_delete_loop.simps) simp
    then show ?thesis
      using IH x False Cons.prems(1)
      by (intro exI [of _ ns'] exI [of _ c'] exI [of _ "a # ks"]) (auto simp: case_prod_beta)
  next
    case True
    define c1 where "c1 = c\<lparr>top := (if ds = [] then sig n else top c),
      bottom := (if bottom c = Some a then last_opt ds else bottom c), amount := s32 (amount c - pr_amount x)\<rparr>"
    obtain ns0 where unl: "p_unlink (last_opt ds) (sig n) ns c
        = Some (ns0, c\<lparr>top := (if ds = [] then sig n else top c)\<rparr>)"
      and ch0: "chain ns0 (if ds = [] then sig n else top c) ds dxs (sig n)"
      and fr: "\<And>y. y \<notin> set ds \<Longrightarrow> ns0 y = ns y" and dm: "dom ns0 = dom ns"
    proof (cases ds rule: rev_cases)
      case Nil
      then show ?thesis using that [of ns] Cons.prems(2) by (simp add: p_unlink_def)
    next
      case (snoc es e)
      with Cons.prems(2) obtain ne where ne: "ns e = Some ne" using chain_dom by fastforce
      have "chain (ns(e \<mapsto> ne\<lparr>sig := sig n\<rparr>)) (top c) (es @ [e]) dxs (sig n)"
        using Cons.prems(1,2) snoc ne by (intro chain_relink) auto
      then show ?thesis
        using that [of "ns(e \<mapsto> ne\<lparr>sig := sig n\<rparr>)"] snoc ne by (auto simp: p_unlink_def)
    qed
    define na where "na = ns0(a := None)"
    have d: "a \<notin> set ds" "a \<notin> set rs" "set ds \<inter> set rs = {}" using Cons.prems(1) by auto
    have c1d: "chain na (top c1) ds dxs (sig n)" using ch0 d by (simp add: c1_def na_def chain_upd)
    have "chain ns0 (sig n) rs xs None"
    proof -
      have "chain ns0 p rs ys e = chain ns p rs ys e" for p ys e
        using fr d(3) by (induction ns p rs ys e rule: chain.induct) auto
      then show ?thesis using ch by simp
    qed
    then have c1r: "chain na (sig n) rs xs None" using d by (simp add: na_def chain_upd)
    have "bottom c1 = last_opt (ds @ rs)"
      using Cons.prems(1,4) by (cases rs rule: rev_cases) (auto simp: c1_def last_opt_def)
    from Cons.IH [OF _ c1d c1r this] Cons.prems(1) obtain ns' c' ks where
      IH: "p_delete_loop P (sig n) (last_opt ds) na c1 = Some (ns', c')"
      "chain ns' (top c') (ds @ ks) (dxs @ fst (delete_loop P xs (amount c1))) None"
      "distinct (ds @ ks)" "bottom c' = last_opt (ds @ ks)" "set ks \<subseteq> set rs"
      "amount c' = snd (delete_loop P xs (amount c1))" "dom ns' = dom na - (set rs - set ks)"
      by auto
    have "p_delete_loop P nodo (last_opt ds) ns c = Some (ns', c')"
      using x True unl IH(1)
      by (subst p_delete_loop.simps) (cases "ds = []"; cases "bottom c = Some a"; simp add: c1_def na_def)
    then show ?thesis
      using IH x True d dm by (intro exI [of _ ns'] exI [of _ c'] exI [of _ ks]) (auto simp: c1_def na_def)
  qed
qed

lemma delete_refines:
  assumes "queue_rep as m c l"
  shows "\<exists>m' c' ks. p_queue_delete P m c = Some (m', c') \<and> queue_rep ks m' c' (queue_delete P l)
    \<and> set ks \<subseteq> set as \<and> dom (nodes m') = dom (nodes m) - (set as - set ks)"
proof -
  have rep: "distinct ([] @ as)" "chain (nodes m) (top c) as (items l) None" "bottom c = last_opt ([] @ as)"
    "amount c = q_amount l" "\<And>a. brk m \<le> a \<Longrightarrow> nodes m a = None"
    using assms by (auto simp: queue_rep_def)
  have "chain (nodes m) (top c) [] [] (top c)" by simp
  from p_delete_loop_chain [OF rep(1) this rep(2,3), of P] obtain ns' c' ks where
    D: "p_delete_loop P (top c) None (nodes m) c = Some (ns', c')"
    "chain ns' (top c') ks (fst (delete_loop P (items l) (amount c))) None"
    "distinct ks" "bottom c' = last_opt ks" "set ks \<subseteq> set as"
    "amount c' = snd (delete_loop P (items l) (amount c))" "dom ns' = dom (nodes m) - (set as - set ks)"
    by auto
  have "ns' a = None" if "brk m \<le> a" for a
    using D(7) rep(5) [OF that] by (metis DiffD1 domIff)
  with D rep(4) show ?thesis
    by (auto simp: queue_rep_def p_queue_delete_def queue_delete_def case_prod_beta)
qed

lemma p_destroy_loop_chain:
  assumes "distinct as" "chain ns p as xs None"
  shows "\<exists>ns'. p_destroy_loop p ns = Some ns' \<and> dom ns' = dom ns - set as"
  using assms
proof (induction as arbitrary: p ns xs)
  case Nil
  then show ?case by (subst p_destroy_loop.simps) simp
next
  case (Cons a as)
  then obtain n ys where "p = Some a" "ns a = Some n" and ch: "chain ns (sig n) as ys None"
    by (auto simp: chain_Cons)
  moreover define na where "na = ns(a := None)"
  moreover have "chain na (sig n) as ys None" using ch Cons.prems(1) by (simp add: na_def chain_upd)
  then obtain ns' where "p_destroy_loop (sig n) na = Some ns'" "dom ns' = dom na - set as"
    using Cons.IH Cons.prems(1) by (metis distinct.simps(2))
  ultimately show ?case by (subst p_destroy_loop.simps) auto
qed

lemma destroy_refines:
  assumes "queue_rep as m c l"
  shows "\<exists>m' c'. p_queue_destroy m c = Some (m', c') \<and> queue_rep [] m' c' (queue_destroy l)
    \<and> dom (nodes m') = dom (nodes m) - set as"
proof -
  from assms p_destroy_loop_chain obtain ns' where
    D: "p_destroy_loop (top c) (nodes m) = Some ns'" "dom ns' = dom (nodes m) - set as"
    by (auto simp: queue_rep_def) metis
  have "ns' a = None" if "brk m \<le> a" for a
    using D(2) assms that by (metis DiffD1 domIff queue_rep_def)
  with D assms show ?thesis by (auto simp: queue_rep_def p_queue_destroy_def queue_destroy_def)
qed

section \<open>The pointer level offers the interface\<close>

text \<open>A dequeued request is read through the returned pointer and then freed, as \<open>release_resource\<close> does.\<close>

fun ptr_step :: "qop \<Rightarrow> pmem \<times> pqueue \<Rightarrow> (PendingRequest list \<times> pmem \<times> pqueue) option" where
  "ptr_step (Enqueue r) (m, c) = (case p_queue_enqueue m c (pr_job_id r) (pr_amount r) (owner_conn r) 0 (origen r) of
      None \<Rightarrow> None | Some (m', c') \<Rightarrow> Some ([], m', c'))"
| "ptr_step Dequeue (m, c) = (case p_queue_dequeue m c of
      None \<Rightarrow> None
    | Some (None, m', c') \<Rightarrow> Some ([], m', c')
    | Some (Some a, m', c') \<Rightarrow> (case nodes m' a of
          None \<Rightarrow> None
        | Some n \<Rightarrow> Some ([req n], m'\<lparr>nodes := (nodes m')(a := None)\<rparr>, c')))"
| "ptr_step (DeleteConn conn) (m, c) = (case p_queue_delete_by_conn m c conn of
      None \<Rightarrow> None | Some (m', c') \<Rightarrow> Some ([], m', c'))"
| "ptr_step (DeleteJob j) (m, c) = (case p_queue_delete_by_job_id m c j of
      None \<Rightarrow> None | Some (m', c') \<Rightarrow> Some ([], m', c'))"

definition ptr_rep :: "pmem \<times> pqueue \<Rightarrow> PendingRequest list \<Rightarrow> bool" where
  "ptr_rep s xs \<longleftrightarrow> (\<exists>as l. queue_rep as (fst s) (snd s) l \<and> list_rep l xs)"

lemma queue_rep_free:
  "queue_rep as m c l \<Longrightarrow> a \<notin> set as \<Longrightarrow> queue_rep as (m\<lparr>nodes := (nodes m)(a := None)\<rparr>) c l"
  by (auto simp: queue_rep_def chain_upd)

lemma ptr_step_rep:
  assumes "ptr_rep s xs"
  shows "\<exists>s'. ptr_step x s = Some (fst (spec_step x xs), s') \<and> ptr_rep s' (snd (spec_step x xs))"
proof -
  obtain m c where s: "s = (m, c)" by (cases s)
  with assms obtain as l where r: "queue_rep as m c l" and l: "list_rep l xs" by (auto simp: ptr_rep_def)
  from list_step_rep [OF l, of x] obtain l' where
    st: "list_step x l = Some (fst (spec_step x xs), l')" and l': "list_rep l' (snd (spec_step x xs))" by blast
  show ?thesis
  proof (cases x)
    case (Enqueue q)
    then show ?thesis
      using enqueue_refines [OF r, of "pr_job_id q" "pr_amount q" "owner_conn q" 0 "origen q"] st l' s
      by (fastforce simp: ptr_rep_def)
  next
    case Dequeue
    from dequeue_refines [OF r] obtain ra m' c' where D: "p_queue_dequeue m c = Some (ra, m', c')"
      "queue_rep (tl as) m' c' l'" and o: "case fst (queue_dequeue l) of None \<Rightarrow> ra = None
       | Some x \<Rightarrow> (\<exists>a n. ra = Some a \<and> a \<notin> set (tl as) \<and> nodes m' a = Some n \<and> req n = x)"
      using st Dequeue by (auto simp: case_prod_beta)
    show ?thesis
    proof (cases "fst (queue_dequeue l)")
      case None
      with D o st l' s Dequeue show ?thesis by (auto simp: ptr_rep_def case_prod_beta)
    next
      case (Some y)
      with o obtain a n where "ra = Some a" "a \<notin> set (tl as)" "nodes m' a = Some n" "req n = y" by auto
      with D Some st l' s Dequeue show ?thesis
        using queue_rep_free [OF D(2)] by (auto simp: ptr_rep_def case_prod_beta)
    qed
  next
    case (DeleteConn conn)
    with delete_refines [OF r, of "\<lambda>r. owner_conn r = conn"] st l' s show ?thesis
      by (fastforce simp: ptr_rep_def p_queue_delete_by_conn_def queue_delete_by_conn_def)
  next
    case (DeleteJob j)
    with delete_refines [OF r, of "\<lambda>r. pr_job_id r = j"] st l' s show ?thesis
      by (fastforce simp: ptr_rep_def p_queue_delete_by_job_id_def queue_delete_by_job_id_def)
  qed
qed

interpretation pq: pending_queue ptr_rep ptr_step
  by unfold_locales (rule ptr_step_rep)

section \<open>Properties\<close>

lemma ptr_rep_init: "ptr_rep (\<lparr>nodes = Map.empty, brk = 0\<rparr>, p_queue_init) []"
proof -
  have "queue_rep [] \<lparr>nodes = Map.empty, brk = 0\<rparr> p_queue_init queue_init"
    by (simp add: queue_rep_def p_queue_init_def queue_init_def)
  moreover have "list_rep queue_init []" by (simp add: list_rep_def queue_ok_def queue_init_def)
  ultimately show ?thesis by (auto simp: ptr_rep_def)
qed

text \<open>
  \<open>C13\<close>. The linked queue never follows a NULL or freed pointer and its loops end: any
  sequence of enqueues, dequeues and deletions on a queue that starts empty returns what a
  first-in first-out list returns, in the same order; and the counter it keeps is the sum
  of the amounts still pending, modulo the width of an \<open>int\<close>.
\<close>

theorem pending_queue_is_fifo:
  "\<exists>m c. run_ops ptr_step ops (\<lparr>nodes = Map.empty, brk = 0\<rparr>, p_queue_init)
      = Some (fst (spec_run ops []), m, c)
    \<and> amount c = s32 (pending_total (snd (spec_run ops [])))
    \<and> p_queue_is_empty c = (snd (spec_run ops []) = [])"
proof -
  obtain m c where run: "run_ops ptr_step ops (\<lparr>nodes = Map.empty, brk = 0\<rparr>, p_queue_init)
      = Some (fst (spec_run ops []), m, c)" and r: "ptr_rep (m, c) (snd (spec_run ops []))"
    using pq.run_rep [OF ptr_rep_init, of ops] by (metis surj_pair)
  from r obtain as l where l: "queue_rep as m c l" "list_rep l (snd (spec_run ops []))"
    by (auto simp: ptr_rep_def)
  then have "amount c = s32 (pending_total (snd (spec_run ops [])))"
    "p_queue_is_empty c = (snd (spec_run ops []) = [])"
    using queue_rep_empty [OF l(1)]
    by (auto simp: queue_rep_def list_rep_def queue_ok_def queue_is_empty_def)
  with run show ?thesis by blast
qed

text \<open>
  Deleting by connection unlinks and frees exactly the nodes of that connection:
  the rest of the chain keeps its order, no other memory changes owner, and the counter
  drops by what was deleted.
\<close>

theorem queue_delete_by_conn_refines:
  assumes "queue_rep as m c l"
  shows "\<exists>m' c' ks. p_queue_delete_by_conn m c conn = Some (m', c')
    \<and> queue_rep ks m' c' (queue_delete_by_conn l conn)
    \<and> items (queue_delete_by_conn l conn) = filter (\<lambda>r. owner_conn r \<noteq> conn) (items l)
    \<and> set ks \<subseteq> set as \<and> dom (nodes m') = dom (nodes m) - (set as - set ks)"
  using delete_refines [OF assms, of "\<lambda>r. owner_conn r = conn"]
  by (simp add: p_queue_delete_by_conn_def queue_delete_by_conn_def)

abbreviation ej_req :: "int \<Rightarrow> nat \<Rightarrow> PendingRequest" where
  "ej_req j k \<equiv> \<lparr>pr_job_id = j, pr_amount = 2, owner_conn = k, origen = ORIGIN_LOCAL\<rparr>"

theorem queue_delete_by_conn_refines_witness:
  "queue_rep [5, 3] \<lparr>nodes = [3 \<mapsto> \<lparr>req = ej_req 8 1, sig = None\<rparr>, 5 \<mapsto> \<lparr>req = ej_req 7 0, sig = Some 3\<rparr>], brk = 6\<rparr>
     \<lparr>top = Some 5, bottom = Some 3, amount = 4\<rparr> \<lparr>items = [ej_req 7 0, ej_req 8 1], q_amount = 4\<rparr>
   \<and> items (queue_delete_by_conn \<lparr>items = [ej_req 7 0, ej_req 8 1], q_amount = 4\<rparr> 1) = [ej_req 7 0]"
proof -
  have h: "queue_rep [5, 3] \<lparr>nodes = [3 \<mapsto> \<lparr>req = ej_req 8 1, sig = None\<rparr>, 5 \<mapsto> \<lparr>req = ej_req 7 0, sig = Some 3\<rparr>], brk = 6\<rparr>
     \<lparr>top = Some 5, bottom = Some 3, amount = 4\<rparr> \<lparr>items = [ej_req 7 0, ej_req 8 1], q_amount = 4\<rparr>"
    by (simp add: queue_rep_def)
  show ?thesis using h queue_delete_by_conn_refines [OF h, of 1] by auto
qed

end
