(* ===== verification/Lock_Discipline.thy ===== *)
theory Lock_Discipline
  imports Prelude
begin

text \<open>
  Threads that lock and unlock mutexes. A lock program says in which order a piece of code
  locks and unlocks, whatever the data make it do; \<open>held_after\<close> checks that it takes mutexes in
  the order of their ranks and gives back the one taken last. Threads that run such
  programs, in any interleaving, cannot block each other for ever. A mutex blocks its own
  holder too, as the default mutexes of pthreads do.
\<close>

section \<open>Lock programs and threads\<close>

datatype 'l act = Lock 'l | Unlock 'l

datatype 'l lprog =
    Skip
  | Act "'l act"
  | Seq "'l lprog" "'l lprog"
  | Alt "'l lprog" "'l lprog"
  | Loop "'l lprog"
  | Any "conn_ptr \<Rightarrow> 'l lprog"

inductive run :: "'l lprog \<Rightarrow> 'l act list \<Rightarrow> bool" where
  run_Skip: "run Skip []"
| run_Act: "run (Act a) [a]"
| run_Seq: "run p as \<Longrightarrow> run q bs \<Longrightarrow> run (Seq p q) (as @ bs)"
| run_Alt1: "run p as \<Longrightarrow> run (Alt p q) as"
| run_Alt2: "run q as \<Longrightarrow> run (Alt p q) as"
| run_Loop0: "run (Loop p) []"
| run_Loop: "run p as \<Longrightarrow> run (Loop p) bs \<Longrightarrow> run (Loop p) (as @ bs)"
| run_Any: "run (f c) as \<Longrightarrow> run (Any f) as"

inductive_cases run_elims: "run Skip as" "run (Act a) as" "run (Seq p q) as" "run (Alt p q) as" "run (Any f) as"

text \<open>A thread is the mutexes it holds, the last one first, and what it still does.\<close>

type_synonym 'l thread = "'l list \<times> 'l act list"

inductive lstep :: "'l thread list \<Rightarrow> 'l thread list \<Rightarrow> bool" where
  step_lock: "i < length ts \<Longrightarrow> ts ! i = (h, Lock l # as) \<Longrightarrow> \<forall>t\<in>set ts. l \<notin> set (fst t)
    \<Longrightarrow> lstep ts (ts[i := (l # h, as)])"
| step_unlock: "i < length ts \<Longrightarrow> ts ! i = (h, Unlock l # as) \<Longrightarrow> lstep ts (ts[i := (remove1 l h, as)])"

inductive_cases lstepE: "lstep ts ts'"

section \<open>The discipline\<close>

fun after :: "('l \<Rightarrow> nat) \<Rightarrow> 'l act list \<Rightarrow> 'l list \<Rightarrow> 'l list option" where
  "after rank [] h = Some h"
| "after rank (Lock l # as) h = (if \<forall>m\<in>set h. rank m < rank l then after rank as (l # h) else None)"
| "after rank (Unlock l # as) h = (case h of m # h' \<Rightarrow> if m = l then after rank as h' else None | [] \<Rightarrow> None)"

lemma after_append: "after rank (as @ bs) h = after rank as h \<bind> after rank bs"
  by (induction rank as h rule: after.induct) (auto split: list.splits)

primrec held_after :: "('l \<Rightarrow> nat) \<Rightarrow> 'l lprog \<Rightarrow> 'l list \<Rightarrow> 'l list option" where
  "held_after rank Skip h = Some h"
| "held_after rank (Act a) h = after rank [a] h"
| "held_after rank (Seq p q) h = held_after rank p h \<bind> held_after rank q"
| "held_after rank (Alt p q) h = (if held_after rank p h = held_after rank q h then held_after rank p h else None)"
| "held_after rank (Loop p) h = (if held_after rank p h = Some h then Some h else None)"
| "held_after rank (Any f) h = (if \<forall>c. held_after rank (f c) h = held_after rank (f 0) h then held_after rank (f 0) h else None)"

lemma held_after_run: "run p as \<Longrightarrow> held_after rank p h = Some h' \<Longrightarrow> after rank as h = Some h'"
proof (induction arbitrary: h h' rule: run.induct)
  case (run_Seq p as q bs)
  obtain h1 where h1: "held_after rank p h = Some h1" "held_after rank q h1 = Some h'"
    using bind_SomeD [OF run_Seq.prems [unfolded held_after.simps]] by blast
  show ?case using run_Seq.IH(1) [OF h1(1)] run_Seq.IH(2) [OF h1(2)] by (simp add: after_append)
next
  case (run_Loop p as bs)
  then have "held_after rank p h = Some h" "h' = h" by (auto split: if_splits)
  then show ?case using run_Loop.IH(1) [of h h] run_Loop.IH(2) [of h h] by (simp add: after_append)
next
  case (run_Any f c as)
  have "held_after rank (f c) h = held_after rank (f 0) h" "held_after rank (f 0) h = Some h'"
    using run_Any.prems by (simp_all split: if_splits)
  then show ?case using run_Any.IH by simp
next
  case (run_Alt1 p as q)
  have "held_after rank p h = Some h'" using run_Alt1.prems by (metis held_after.simps(4) option.distinct(1))
  then show ?case by (rule run_Alt1.IH)
next
  case (run_Alt2 q as p)
  have "held_after rank q h = Some h'" using run_Alt2.prems by (simp split: if_splits)
  then show ?case by (rule run_Alt2.IH)
qed (auto split: if_splits)

section \<open>No deadlock\<close>

definition disciplined :: "('l \<Rightarrow> nat) \<Rightarrow> 'l thread list \<Rightarrow> bool" where
  "disciplined rank ts \<longleftrightarrow> (\<forall>(h, as)\<in>set ts. after rank as h = Some [])"

lemma disciplined_step: "disciplined rank ts \<Longrightarrow> lstep ts ts' \<Longrightarrow> disciplined rank ts'"
proof -
  assume ok: "disciplined rank ts" and "lstep ts ts'"
  then obtain i h a as t' where i: "i < length ts" "ts ! i = (h, a # as)" "ts' = ts[i := t']"
    and t': "(\<exists>l. a = Lock l \<and> t' = (l # h, as)) \<or> (\<exists>l. a = Unlock l \<and> t' = (remove1 l h, as))"
    by (cases rule: lstepE [of ts ts']) auto
  have "after rank (a # as) h = Some []" using ok i(1,2) nth_mem [of i ts] by (fastforce simp: disciplined_def)
  then have "after rank (snd t') (fst t') = Some []" using t' by (auto split: if_splits list.splits)
  then show ?thesis using ok i(3) set_update_subset_insert [of ts i t'] by (fastforce simp: disciplined_def)
qed

lemma holder_waits_higher:
  assumes "after rank as h = Some []" "l \<in> set h"
  shows "(\<exists>m bs. as = Unlock m # bs) \<or> (\<exists>m bs. as = Lock m # bs \<and> rank l < rank m)"
proof (cases as)
  case (Cons a bs)
  with assms show ?thesis by (cases a) (auto split: if_splits)
qed (use assms in simp)

lemma no_deadlock:
  assumes ok: "disciplined rank ts" and stuck: "\<nexists>ts'. lstep ts ts'"
  shows "\<forall>t\<in>set ts. t = ([], [])"
proof -
  let ?W = "{l. \<exists>h as. (h, Lock l # as) \<in> set ts}"
  have fin: "finite (rank ` ?W)"
  proof -
    have "?W \<subseteq> (\<lambda>t. case snd t of Lock l # _ \<Rightarrow> l | _ \<Rightarrow> undefined) ` set ts"
      by (force intro: rev_image_eqI)
    then show ?thesis by (meson List.finite_set finite_imageI finite_subset)
  qed
  have typed: "after rank as h = Some []" if "(h, as) \<in> set ts" for h as using ok that by (auto simp: disciplined_def)
  have no_unlock: "(h, Unlock m # bs) \<notin> set ts" for h m bs
    using stuck step_unlock by (metis in_set_conv_nth)
  have held: "\<exists>h' as'. (h', as') \<in> set ts \<and> l \<in> set h'" if "(h, Lock l # as) \<in> set ts" for h l as
    using that stuck step_lock [of _ ts h l as] by (fastforce simp: in_set_conv_nth)
  have W: "?W = {}"
  proof (rule ccontr)
    assume "?W \<noteq> {}"
    then have "Max (rank ` ?W) \<in> rank ` ?W" by (intro Max_in [OF fin]) simp
    then obtain l where l: "l \<in> ?W" "rank l = Max (rank ` ?W)" by (metis (no_types, lifting) imageE)
    then obtain h' as' where h': "(h', as') \<in> set ts" "l \<in> set h'" using held by blast
    then obtain m bs where "as' = Lock m # bs" "rank l < rank m"
      using holder_waits_higher [OF typed [OF h'(1)] h'(2)] no_unlock h'(1) by blast
    then have "m \<in> ?W" "rank l < rank m" using h'(1) by auto
    with l(2) Max_ge [OF fin, of "rank m"] show False by simp
  qed
  show ?thesis
  proof
    fix t
    assume t: "t \<in> set ts"
    obtain h as where ht: "t = (h, as)" by fastforce
    have "as = []"
    proof (cases as)
      case (Cons a bs)
      then show ?thesis using W t ht no_unlock by (cases a) auto
    qed
    with typed [of h as] t ht show "t = ([], [])" by simp
  qed
qed

text \<open>Every step does one of the finitely many actions that are left.\<close>

definition work :: "'l thread list \<Rightarrow> nat" where
  "work ts = sum_list (map (length \<circ> snd) ts)"

lemma work_update: "i < length ts \<Longrightarrow> ts ! i = (h, a # as) \<Longrightarrow> work ts = Suc (work (ts[i := (h', as)]))"
  by (induction ts arbitrary: i) (auto simp: work_def nth_Cons split: nat.splits)

lemma lstep_work: "lstep ts ts' \<Longrightarrow> work ts = Suc (work ts')"
  by (cases rule: lstepE [of ts ts']) (auto dest: work_update)

lemma steps_work: "(lstep ^^ n) ts ts' \<Longrightarrow> work ts = n + work ts'"
  by (induction n arbitrary: ts') (auto dest!: lstep_work)

text \<open>What threads rely on: each runs a program that passes the check.\<close>

locale disciplined_programs =
  fixes rank :: "'l \<Rightarrow> nat"
    and progs :: "'l lprog set"
  assumes progs_ok: "p \<in> progs \<Longrightarrow> held_after rank p [] = Some []"
begin

definition starts :: "'l thread list \<Rightarrow> bool" where
  "starts ts \<longleftrightarrow> (\<forall>(h, as)\<in>set ts. h = [] \<and> (\<exists>p\<in>progs. run p as))"

lemma starts_disciplined: "starts ts \<Longrightarrow> disciplined rank ts"
  unfolding starts_def disciplined_def using held_after_run progs_ok by fastforce

lemma reach_disciplined: "lstep\<^sup>*\<^sup>* ts ts' \<Longrightarrow> starts ts \<Longrightarrow> disciplined rank ts'"
  by (induction rule: rtranclp_induct) (auto intro: starts_disciplined disciplined_step)

lemma stuck_finished: "starts ts \<Longrightarrow> lstep\<^sup>*\<^sup>* ts ts' \<Longrightarrow> \<nexists>ts''. lstep ts' ts'' \<Longrightarrow> \<forall>t\<in>set ts'. t = ([], [])"
  using no_deadlock reach_disciplined by blast

end

end
