(* ===== verification/C_Lib.thy ===== *)
theory C_Lib
  imports Prelude
begin

text \<open>
  The parts of the C standard library the agent uses to read and write its messages:
  \<open>sscanf\<close> with the directives that occur in the source, \<open>strtok_r\<close> with the delimiter
  \<^verbatim>\<open>" "\<close>, \<open>atoi\<close>, the rendering of \<^verbatim>\<open>%d\<close>, and \<open>snprintf\<close>'s
  truncation. The round trip between rendering and scanning a decimal is proved once here.
\<close>

section \<open>Reading decimals\<close>

definition is_space :: "char \<Rightarrow> bool" where
  "is_space c \<longleftrightarrow> c \<in> {CHR '' '', CHR 0x09, CHR 0x0A, CHR 0x0B, CHR 0x0C, CHR 0x0D}"

definition skip_ws :: "string \<Rightarrow> string" where
  "skip_ws s = dropWhile is_space s"

definition is_digit :: "char \<Rightarrow> bool" where
  "is_digit c \<longleftrightarrow> 48 \<le> (of_char c :: nat) \<and> (of_char c :: nat) \<le> 57"

definition digit_val :: "char \<Rightarrow> int" where
  "digit_val c = int (of_char c) - 48"

definition dec_val :: "string \<Rightarrow> int" where
  "dec_val ds = foldl (\<lambda>n c. 10 * n + digit_val c) 0 ds"

text \<open>
  \<^verbatim>\<open>%d\<close> of glibc: \<open>strtol\<close> on a 64-bit \<open>long\<close>, which saturates, and then a
  conversion to \<open>int\<close>, which keeps the low 32 bits.
\<close>

definition strtol_clamp :: "int \<Rightarrow> int" where
  "strtol_clamp x = max (-9223372036854775808) (min 9223372036854775807 x)"

definition scan_sign :: "string \<Rightarrow> bool \<times> string" where
  "scan_sign s = (case s of
      c # cs \<Rightarrow> if c = CHR ''-'' then (True, cs) else if c = CHR ''+'' then (False, cs) else (False, s)
    | [] \<Rightarrow> (False, []))"

definition scan_int :: "string \<Rightarrow> (int \<times> string) option" where
  "scan_int s = (let (neg, t) = scan_sign (skip_ws s); ds = takeWhile is_digit t in
     if ds = [] then None
     else Some (s32 (strtol_clamp (if neg then - dec_val ds else dec_val ds)),
                dropWhile is_digit t))"

definition atoi :: "string \<Rightarrow> int" where
  "atoi s = (case scan_int s of None \<Rightarrow> 0 | Some (n, _) \<Rightarrow> n)"

section \<open>sscanf\<close>

text \<open>
  A format is a list of directives. \<open>Lit\<close> is an ordinary character, \<open>Ws\<close> a blank of the
  format, \<open>D\<close> is \<^verbatim>\<open>%d\<close>, \<open>S n\<close> is \<^verbatim>\<open>%<n>s\<close>, \<open>NotCol n\<close> is
  \<^verbatim>\<open>%<n>[^:]\<close> and \<open>Pos\<close> is \<^verbatim>\<open>%n\<close>. Scanning stops at the first directive
  that does not match; the values assigned before it remain.
\<close>

datatype directive = Lit char | Ws | D | S nat | NotCol nat | Pos

datatype sval = VInt int | VStr string | VPos nat

definition lits :: "string \<Rightarrow> directive list" where
  "lits s = map Lit s"

fun scan :: "nat \<Rightarrow> directive list \<Rightarrow> string \<Rightarrow> sval list" where
  "scan n [] s = []"
| "scan n (Lit c # ds) s = (case s of
      [] \<Rightarrow> []
    | x # xs \<Rightarrow> if x = c then scan (Suc n) ds xs else [])"
| "scan n (Ws # ds) s = (let t = skip_ws s in scan (n + (length s - length t)) ds t)"
| "scan n (D # ds) s = (case scan_int s of
      None \<Rightarrow> []
    | Some (v, t) \<Rightarrow> VInt v # scan (n + (length s - length t)) ds t)"
| "scan n (S w # ds) s = (let t = skip_ws s; x = take w (takeWhile (\<lambda>c. \<not> is_space c) t) in
     if x = [] then [] else VStr x # scan (n + (length s - length t) + length x) ds (drop (length x) t))"
| "scan n (NotCol w # ds) s = (let x = take w (takeWhile (\<lambda>c. c \<noteq> CHR '':'') s) in
     if x = [] then [] else VStr x # scan (n + length x) ds (drop (length x) s))"
| "scan n (Pos # ds) s = VPos n # scan n ds s"

definition sscanf :: "string \<Rightarrow> directive list \<Rightarrow> sval list" where
  "sscanf s fmt = scan 0 fmt s"

section \<open>strtok_r with delimiter blank\<close>

definition strtok :: "string \<Rightarrow> (string \<times> string) option" where
  "strtok s = (let t = dropWhile (\<lambda>c. c = CHR '' '') s in
     if t = [] then None
     else Some (takeWhile (\<lambda>c. c \<noteq> CHR '' '') t, tl (dropWhile (\<lambda>c. c \<noteq> CHR '' '') t)))"

lemma strtok_shorter: "strtok s = Some (tok, rest) \<Longrightarrow> length rest < length s"
proof -
  assume a: "strtok s = Some (tok, rest)"
  define t where "t = dropWhile (\<lambda>c. c = CHR '' '') s"
  define u where "u = dropWhile (\<lambda>c. c \<noteq> CHR '' '') t"
  from a have ne: "t \<noteq> []" and rest: "rest = tl u"
    by (auto simp: strtok_def Let_def t_def u_def split: if_splits)
  have "length t \<le> length s" "length u \<le> length t"
    by (simp_all add: t_def u_def length_dropWhile_le)
  then show ?thesis using ne rest by (cases u; cases t) auto
qed

text \<open>Calling \<open>strtok_r\<close> until it returns NULL.\<close>

function tokens :: "string \<Rightarrow> string list" where
  "tokens s = (case strtok s of None \<Rightarrow> [] | Some (tok, rest) \<Rightarrow> tok # tokens rest)"
  by pat_completeness auto
termination
  by (relation "measure length") (auto dest: strtok_shorter)

declare tokens.simps [simp del]

section \<open>Writing decimals\<close>

definition digit_char :: "nat \<Rightarrow> char" where
  "digit_char d = char_of (48 + d)"

fun show_nat :: "nat \<Rightarrow> string" where
  "show_nat n = (if n < 10 then [digit_char n] else show_nat (n div 10) @ [digit_char (n mod 10)])"

declare show_nat.simps [simp del]

definition show_int :: "int \<Rightarrow> string" where
  "show_int x = (if x < 0 then CHR ''-'' # show_nat (nat (- x)) else show_nat (nat x))"

text \<open>\<open>snprintf\<close> and \<open>vsnprintf\<close> keep what fits before the terminating NUL.\<close>

definition snprintf :: "nat \<Rightarrow> string \<Rightarrow> string" where
  "snprintf n s = take (n - 1) s"

text \<open>
  A string passed as the format itself, with no arguments: every conversion other than
  \<^verbatim>\<open>%%\<close> reads an argument that is not there.
\<close>

fun format_no_args :: "string \<Rightarrow> string option" where
  "format_no_args [] = Some []"
| "format_no_args (c # cs) = (if c \<noteq> CHR ''%'' then map_option ((#) c) (format_no_args cs)
     else (case cs of
         [] \<Rightarrow> None
       | d # ds \<Rightarrow> if d = CHR ''%'' then map_option ((#) c) (format_no_args ds) else None))"

section \<open>Rendering and scanning a decimal\<close>

lemma of_char_digit: "d < 10 \<Longrightarrow> (of_char (digit_char d) :: nat) = 48 + d"
  by (simp add: digit_char_def)

lemma is_digit_digit_char [simp]: "d < 10 \<Longrightarrow> is_digit (digit_char d)"
  by (simp add: is_digit_def of_char_digit)

lemma digit_val_digit_char [simp]: "d < 10 \<Longrightarrow> digit_val (digit_char d) = int d"
  by (simp add: digit_val_def of_char_digit)

lemma dec_val_snoc [simp]: "dec_val (ds @ [c]) = 10 * dec_val ds + digit_val c"
  by (simp add: dec_val_def)

lemma show_nat_digits: "\<forall>c\<in>set (show_nat n). is_digit c"
proof (induction n rule: show_nat.induct)
  case (1 n)
  show ?case
  proof (cases "n < 10")
    case False
    with 1 show ?thesis by (subst show_nat.simps) auto
  qed (subst show_nat.simps, simp)
qed

lemma dec_val_show_nat [simp]: "dec_val (show_nat n) = int n"
proof (induction n rule: show_nat.induct)
  case (1 n)
  show ?case
  proof (cases "n < 10")
    case False
    with 1 show ?thesis by (subst show_nat.simps) (simp add: zdiv_int zmod_int)
  qed (subst show_nat.simps, simp add: dec_val_def)
qed

lemma show_nat_nonempty [simp]: "show_nat n \<noteq> []"
  by (subst show_nat.simps) simp

lemma digit_not_space: "is_digit c \<Longrightarrow> \<not> is_space c"
  by (auto simp: is_digit_def is_space_def)

lemma digit_not_special:
  "is_digit c \<Longrightarrow> c \<noteq> CHR ''-'' \<and> c \<noteq> CHR ''+'' \<and> c \<noteq> CHR '':'' \<and> c \<noteq> CHR '' '' \<and> c \<noteq> NL \<and> c \<noteq> NUL \<and> c \<noteq> CHR ''%''"
  by (auto simp: is_digit_def)

definition no_digit_next :: "string \<Rightarrow> bool" where
  "no_digit_next s \<longleftrightarrow> (case s of [] \<Rightarrow> True | c # _ \<Rightarrow> \<not> is_digit c)"

lemma no_digit_next_simps [simp]:
  "no_digit_next []" "no_digit_next (c # s) \<longleftrightarrow> \<not> is_digit c"
  by (simp_all add: no_digit_next_def)

lemma takeWhile_show_nat:
  assumes "no_digit_next rest"
  shows "takeWhile is_digit (show_nat n @ rest) = show_nat n"
    and "dropWhile is_digit (show_nat n @ rest) = rest"
proof -
  have "takeWhile is_digit rest = []" "dropWhile is_digit rest = rest"
    using assms by (cases rest; simp)+
  moreover have "\<And>c. c \<in> set (show_nat n) \<Longrightarrow> is_digit c" using show_nat_digits by blast
  ultimately show "takeWhile is_digit (show_nat n @ rest) = show_nat n"
    and "dropWhile is_digit (show_nat n @ rest) = rest"
    by (simp_all add: takeWhile_append2 dropWhile_append2)
qed

lemma show_nat_Cons: "\<exists>c cs. show_nat n = c # cs \<and> is_digit c"
  using show_nat_digits [of n] show_nat_nonempty [of n] by (cases "show_nat n") auto

lemma scan_sign_show_nat: "scan_sign (skip_ws (show_nat n @ rest)) = (False, show_nat n @ rest)"
proof -
  obtain c cs where "show_nat n = c # cs" "is_digit c" using show_nat_Cons by blast
  then show ?thesis
    using digit_not_space digit_not_special by (auto simp: scan_sign_def skip_ws_def)
qed

lemma strtol_clamp_id: "in_s32 x \<Longrightarrow> strtol_clamp x = x"
  by (simp add: in_s32_def strtol_clamp_def)

text \<open>What \<^verbatim>\<open>%d\<close> prints, \<^verbatim>\<open>%d\<close> reads back.\<close>

lemma scan_int_show_int [simp]:
  assumes "in_s32 x" and "no_digit_next rest"
  shows "scan_int (show_int x @ rest) = Some (x, rest)"
proof (cases "x < 0")
  case True
  have "skip_ws (CHR ''-'' # show_nat (nat (- x)) @ rest) = CHR ''-'' # show_nat (nat (- x)) @ rest"
    by (simp add: skip_ws_def is_space_def)
  with True assms show ?thesis
    by (simp add: scan_int_def show_int_def scan_sign_def takeWhile_show_nat strtol_clamp_id s32_id)
next
  case False
  with assms show ?thesis
    by (simp add: scan_int_def show_int_def scan_sign_show_nat takeWhile_show_nat strtol_clamp_id s32_id)
qed

lemma scan_int_show_int_end [simp]: "in_s32 x \<Longrightarrow> scan_int (show_int x) = Some (x, [])"
  using scan_int_show_int [of x "[]"] by simp

lemma scan_int_space [simp]: "is_space c \<Longrightarrow> scan_int (c # s) = scan_int s"
  by (simp add: scan_int_def skip_ws_def)

lemma show_int_chars: "c \<in> set (show_int x) \<Longrightarrow> is_digit c \<or> c = CHR ''-''"
  using show_nat_digits by (auto simp: show_int_def split: if_splits)

lemma show_int_no_special [simp]:
  "CHR '' '' \<notin> set (show_int x)" "CHR '':'' \<notin> set (show_int x)" "NL \<notin> set (show_int x)"
  "NUL \<notin> set (show_int x)" "CHR ''%'' \<notin> set (show_int x)"
  using show_int_chars digit_not_special by fastforce+

lemma show_int_nonempty [simp]: "show_int x \<noteq> []"
  by (simp add: show_int_def)

lemma show_int_no_space: "c \<in> set (show_int x) \<Longrightarrow> \<not> is_space c"
  using show_int_chars digit_not_space by (fastforce simp: is_space_def)

lemma skip_ws_show_int [simp]: "skip_ws (show_int x @ rest) = show_int x @ rest"
  using show_int_no_space [of "hd (show_int x)" x]
  by (cases "show_int x") (auto simp: skip_ws_def)

text \<open>A decimal of a C \<open>int\<close> takes at most eleven characters.\<close>

lemma length_show_nat: "n < 10 ^ k \<Longrightarrow> 0 < k \<Longrightarrow> length (show_nat n) \<le> k"
proof (induction n arbitrary: k rule: show_nat.induct)
  case (1 n)
  show ?case
  proof (cases "n < 10")
    case True
    with 1 show ?thesis by (subst show_nat.simps) simp
  next
    case False
    then obtain j where j: "k = Suc j" "0 < j"
      using "1.prems" by (cases k; cases "k - 1") auto
    then have "length (show_nat (n div 10)) \<le> j"
      using "1.IH" [OF False, of j] "1.prems" by simp
    with False j show ?thesis by (subst show_nat.simps) simp
  qed
qed

lemma length_show_int:
  assumes "in_s32 x"
  shows "length (show_int x) \<le> 11"
proof -
  have "nat (- x) < 10 ^ 10" "nat x < 10 ^ 10" using assms by (auto simp: in_s32_def)
  then have "length (show_nat (nat (- x))) \<le> 10" "length (show_nat (nat x)) \<le> 10"
    by (auto intro: length_show_nat)
  then show ?thesis by (simp add: show_int_def)
qed

section \<open>Scanning a printed format\<close>

lemma scan_lits [simp]:
  "scan n (lits w @ ds) (w @ s) = scan (n + length w) ds s"
  by (induction w arbitrary: n) (simp_all add: lits_def)

lemma scan_lits_prefix: "scan n (lits w @ ds) s \<noteq> [] \<Longrightarrow> take (length w) s = w"
proof (induction w arbitrary: n s)
  case (Cons c w)
  then show ?case by (cases s) (auto simp: lits_def split: if_splits)
qed simp

lemma format_no_args_id: "CHR ''%'' \<notin> set s \<Longrightarrow> format_no_args s = Some s"
  by (induction s) auto

end
