(* ===== verification/Parsing.thy ===== *)
theory Parsing
  imports C_Lib
begin

text \<open>
  The message parsers of \<^verbatim>\<open>agente_c/src/parsing.c\<close> and the types of
  \<^verbatim>\<open>parsing.h\<close> and \<^verbatim>\<open>resource_types.h\<close>. A result struct whose \<open>valido\<close> flag
  is false is \<open>Invalido\<close> (its other fields are not initialised by the code and not read
  by its callers). \<open>parse_job_request\<close> returns an option: \<open>None\<close> is the write past the
  end of its buffer \<open>rec\<close>.
\<close>

section \<open>Resources\<close>

datatype resource_t = RESOURCE_CPU | RESOURCE_MEM | RESOURCE_GPU

lemma UNIV_resource_t: "(UNIV :: resource_t set) = {RESOURCE_CPU, RESOURCE_MEM, RESOURCE_GPU}"
proof -
  have "x \<in> {RESOURCE_CPU, RESOURCE_MEM, RESOURCE_GPU}" for x by (cases x) auto
  then show ?thesis by blast
qed

instantiation resource_t :: enum
begin

definition "enum_resource_t = [RESOURCE_CPU, RESOURCE_MEM, RESOURCE_GPU]"
definition "enum_all_resource_t P = (P RESOURCE_CPU \<and> P RESOURCE_MEM \<and> P RESOURCE_GPU)"
definition "enum_ex_resource_t P = (P RESOURCE_CPU \<or> P RESOURCE_MEM \<or> P RESOURCE_GPU)"

instance
proof (intro_classes, goal_cases)
  case 1
  show ?case by (simp add: enum_resource_t_def UNIV_resource_t)
next
  case 2
  show ?case by (simp add: enum_resource_t_def)
next
  case (3 P)
  show ?case by (simp add: enum_all_resource_t_def UNIV_resource_t)
next
  case (4 P)
  show ?case by (simp add: enum_ex_resource_t_def UNIV_resource_t)
qed

end

lemma all_resource_t: "(\<forall>r :: resource_t. P r) \<longleftrightarrow> P RESOURCE_CPU \<and> P RESOURCE_MEM \<and> P RESOURCE_GPU"
  by (metis resource_t.exhaust)

definition resource_type_to_str :: "resource_t \<Rightarrow> string" where
  "resource_type_to_str t = (case t of
      RESOURCE_CPU \<Rightarrow> ''cpu'' | RESOURCE_MEM \<Rightarrow> ''mem'' | RESOURCE_GPU \<Rightarrow> ''gpu'')"

text \<open>The chain of \<open>strcmp\<close> calls of the parsers.\<close>

definition resource_of_str :: "string \<Rightarrow> resource_t option" where
  "resource_of_str s = (if s = ''cpu'' then Some RESOURCE_CPU
     else if s = ''mem'' then Some RESOURCE_MEM
     else if s = ''gpu'' then Some RESOURCE_GPU
     else None)"

lemma resource_of_str_to_str [simp]: "resource_of_str (resource_type_to_str t) = Some t"
  by (cases t) (simp_all add: resource_of_str_def resource_type_to_str_def)

section \<open>Message types\<close>

datatype 'a parsed = Invalido | Valido 'a

record resource_request_t =
  rq_ip :: string
  rq_type :: resource_t
  rq_amount :: int

record job_request_t =
  jr_job_id :: int
  request_list :: "resource_request_t list"

record reserve_msg_t =
  rm_job_id :: int
  rm_type :: resource_t
  rm_amount :: int

type_synonym release_msg_t = reserve_msg_t

record granted_msg_t =
  gm_job_id :: int

type_synonym denied_msg_t = granted_msg_t
type_synonym job_denied_msg_t = granted_msg_t
type_synonym job_timeout_msg_t = granted_msg_t
type_synonym job_release_msg_t = granted_msg_t
type_synonym job_status_msg_t = granted_msg_t

record announce_msg_t =
  an_puerto :: int
  an_cpu :: int
  an_mem :: int
  an_gpu :: int

section \<open>The parsers\<close>

definition resource_list_insert ::
  "resource_request_t list \<Rightarrow> string \<Rightarrow> resource_t \<Rightarrow> int \<Rightarrow> resource_request_t list" where
  "resource_list_insert list ip type amount =
     list @ [\<lparr>rq_ip = strncpy_field 16 ip, rq_type = type, rq_amount = amount\<rparr>]"

definition parse_reserve :: "string \<Rightarrow> reserve_msg_t parsed" where
  "parse_reserve msg = (case sscanf msg (lits ''RESERVE'' @ [Ws, D, Ws, S 15, Ws, D]) of
      [VInt job_id, VStr type, VInt amount] \<Rightarrow> (case resource_of_str type of
          Some t \<Rightarrow> Valido \<lparr>rm_job_id = job_id, rm_type = t, rm_amount = amount\<rparr>
        | None \<Rightarrow> Invalido)
    | _ \<Rightarrow> Invalido)"

definition parse_release :: "string \<Rightarrow> release_msg_t parsed" where
  "parse_release msg = (case sscanf msg (lits ''RELEASE'' @ [Ws, D, Ws, S 15, Ws, D]) of
      [VInt job_id, VStr type, VInt amount] \<Rightarrow> (case resource_of_str type of
          Some t \<Rightarrow> Valido \<lparr>rm_job_id = job_id, rm_type = t, rm_amount = amount\<rparr>
        | None \<Rightarrow> Invalido)
    | _ \<Rightarrow> Invalido)"

text \<open>The common part of the parsers for \<^verbatim>\<open><WORD> <job_id>\<close>.\<close>

definition scan_job_id :: "string \<Rightarrow> string \<Rightarrow> int option" where
  "scan_job_id word msg = (case sscanf msg (lits word @ [Ws, D]) of
      [VInt job_id] \<Rightarrow> Some job_id | _ \<Rightarrow> None)"

definition parse_job_id :: "string \<Rightarrow> string \<Rightarrow> granted_msg_t parsed" where
  "parse_job_id word msg = (case scan_job_id word msg of
      Some job_id \<Rightarrow> Valido \<lparr>gm_job_id = job_id\<rparr> | None \<Rightarrow> Invalido)"

definition parse_granted :: "string \<Rightarrow> granted_msg_t parsed" where
  "parse_granted msg = parse_job_id ''GRANTED'' msg"

definition parse_denied :: "string \<Rightarrow> denied_msg_t parsed" where
  "parse_denied msg = parse_job_id ''DENIED'' msg"

definition parse_job_release :: "string \<Rightarrow> job_release_msg_t parsed" where
  "parse_job_release msg = parse_job_id ''JOB_RELEASE'' msg"

definition parse_job_status :: "string \<Rightarrow> job_status_msg_t parsed" where
  "parse_job_status msg = parse_job_id ''JOB_STATUS'' msg"

definition parse_job_denied :: "string \<Rightarrow> job_denied_msg_t parsed" where
  "parse_job_denied msg = parse_job_id ''JOB_DENIED'' msg"

definition parse_job_timeout :: "string \<Rightarrow> job_timeout_msg_t parsed" where
  "parse_job_timeout msg = parse_job_id ''JOB_TIMEOUT'' msg"

text \<open>
  \<open>char rec[7]\<close> receives \<^verbatim>\<open>%7[^:]\<close>, which stores up to seven characters and the NUL:
  with seven characters the store runs past the array.
\<close>

definition rec_overflow :: "sval list \<Rightarrow> bool" where
  "rec_overflow vs = (case vs of VStr rc # _ \<Rightarrow> 7 < length rc + 1 | _ \<Rightarrow> False)"

definition pair_format :: "directive list" where
  "pair_format = Lit CHR '':'' # NotCol 7 # Lit CHR '':'' # D # Pos # []"

lemma scan_Pos_ge: "VPos k \<in> set (scan n ds s) \<Longrightarrow> n \<le> k"
proof (induction ds arbitrary: n s)
  case (Cons d ds)
  have step: "\<And>m t. VPos k \<in> set (scan m ds t) \<Longrightarrow> n \<le> m \<Longrightarrow> n \<le> k"
    using Cons.IH le_trans by blast
  from Cons.prems show ?case
    by (cases d) (auto simp: Let_def intro: step split: list.splits option.splits if_splits)
qed simp

lemma pair_format_consumes:
  "sscanf s pair_format = [VStr rc, VInt a, VPos k] \<Longrightarrow> s \<noteq> [] \<and> 0 < k"
proof -
  assume a: "sscanf s pair_format = [VStr rc, VInt a, VPos k]"
  then obtain c cs where s: "s = c # cs" by (cases s) (auto simp: sscanf_def pair_format_def)
  let ?ds = "NotCol 7 # Lit CHR '':'' # D # Pos # []"
  from a s have "VPos k \<in> set (scan (Suc 0) ?ds cs)"
    by (simp add: sscanf_def pair_format_def del: scan.simps(6) split: if_splits)
  then have "Suc 0 \<le> k" by (rule scan_Pos_ge)
  with s show ?thesis by simp
qed

text \<open>The inner loop: the pairs \<^verbatim>\<open>:tipo:cantidad\<close> of one token.\<close>

function pairs_loop ::
  "string \<Rightarrow> string \<Rightarrow> resource_request_t list \<Rightarrow> resource_request_t list parsed option" where
  "pairs_loop ip rest acc =
     (if take 1 rest \<noteq> '':'' then Some (Valido acc)
      else let vs = sscanf rest pair_format in
        if rec_overflow vs then None
        else (case vs of
            [VStr rc, VInt c_amt, VPos consumed] \<Rightarrow> (case resource_of_str rc of
                None \<Rightarrow> Some Invalido
              | Some type \<Rightarrow> pairs_loop ip (drop consumed rest)
                  (if 0 < c_amt then resource_list_insert acc ip type c_amt else acc))
          | _ \<Rightarrow> Some Invalido))"
  by pat_completeness auto
termination
proof (relation "measure (\<lambda>(ip, rest, acc). length rest)", goal_cases)
  case (2 ip rest acc vs)
  then show ?case using pair_format_consumes [of rest] by fastforce
qed auto

declare pairs_loop.simps [simp del]

text \<open>The outer loop: one token per host.\<close>

fun hosts_loop ::
  "string list \<Rightarrow> resource_request_t list \<Rightarrow> resource_request_t list parsed option" where
  "hosts_loop [] acc = Some (Valido acc)"
| "hosts_loop (token # ts) acc = (case sscanf token (Lit CHR ''@'' # NotCol 15 # Pos # []) of
      [VStr ip, VPos ip_len] \<Rightarrow> (let rest = drop ip_len token in
         if take 1 rest \<noteq> '':'' then Some Invalido
         else (case pairs_loop ip rest acc of
             Some (Valido acc') \<Rightarrow> hosts_loop ts acc'
           | r \<Rightarrow> r))
    | _ \<Rightarrow> Some Invalido)"

definition parse_job_request :: "string \<Rightarrow> job_request_t parsed option" where
  "parse_job_request buf = (case scan_job_id ''JOB_REQUEST'' buf of
      None \<Rightarrow> Some Invalido
    | Some job_id \<Rightarrow> (case hosts_loop (drop 2 (tokens buf)) [] of
          None \<Rightarrow> None
        | Some Invalido \<Rightarrow> Some Invalido
        | Some (Valido l) \<Rightarrow> Some (Valido \<lparr>jr_job_id = job_id, request_list = l\<rparr>)))"

text \<open>\<open>announce_loop\<close>: the values of cpu, mem and gpu start at -1.\<close>

definition scan_field :: "string \<Rightarrow> string \<Rightarrow> int option" where
  "scan_field word token = (case sscanf token (lits word @ [D]) of [VInt v] \<Rightarrow> Some v | _ \<Rightarrow> None)"

fun announce_loop :: "string list \<Rightarrow> nat \<Rightarrow> int \<Rightarrow> int \<Rightarrow> int \<Rightarrow> (int \<times> int \<times> int) parsed" where
  "announce_loop [] i cpu mem gpu = Valido (cpu, mem, gpu)"
| "announce_loop (token # ts) i cpu mem gpu =
     (if \<not> i < 3 then Valido (cpu, mem, gpu)
      else (case scan_field ''cpu:'' token of
          Some v \<Rightarrow> announce_loop ts (Suc i) v mem gpu
        | None \<Rightarrow> (case scan_field ''mem:'' token of
              Some v \<Rightarrow> announce_loop ts (Suc i) cpu v gpu
            | None \<Rightarrow> (case scan_field ''gpu:'' token of
                  Some v \<Rightarrow> announce_loop ts (Suc i) cpu mem v
                | None \<Rightarrow> Invalido))))"

definition parse_announce :: "string \<Rightarrow> announce_msg_t parsed" where
  "parse_announce msg = (let temp = strncpy_field 256 msg in case tokens temp of
      t1 # t2 # ts \<Rightarrow>
        (if t1 \<noteq> ''ANNOUNCE'' then Invalido
         else (case sscanf t2 [D] of
             [VInt puerto] \<Rightarrow> (case announce_loop ts 0 (-1) (-1) (-1) of
                 Invalido \<Rightarrow> Invalido
               | Valido (cpu, mem, gpu) \<Rightarrow>
                   if cpu = -1 \<or> mem = -1 \<or> gpu = -1 then Invalido
                   else Valido \<lparr>an_puerto = puerto, an_cpu = cpu, an_mem = mem, an_gpu = gpu\<rparr>)
           | _ \<Rightarrow> Invalido))
    | _ \<Rightarrow> Invalido)"

end
