(* ===== verification/Agent_Locks.thy ===== *)
theory Agent_Locks
  imports Lock_Discipline Parsing
begin

text \<open>
  In which order the threads of the agent lock and unlock its mutexes: one lock program for
  each function of the C code that locks, or calls one that does, with the argument
  \<open>take_lock\<close> of the code where it has one. The data decide which branch is taken and how
  often a loop runs, so the programs have both branches (\<open>Alt\<close>) and any number of turns
  (\<open>Loop\<close>); a pointer to a connection may be any connection (\<open>Any\<close>).
\<close>

section \<open>Mutexes\<close>

datatype lock = TablaLock | RecursoMutex resource_t | ConnsMutex | NodosMutex | WriteMutex conn_ptr

fun lock_rank :: "lock \<Rightarrow> nat" where
  "lock_rank TablaLock = 0"
| "lock_rank (RecursoMutex _) = 1"
| "lock_rank ConnsMutex = 2"
| "lock_rank NodosMutex = 3"
| "lock_rank (WriteMutex _) = 4"

abbreviation acquire :: "lock \<Rightarrow> lock lprog" where "acquire l \<equiv> Act (Lock l)"
abbreviation release :: "lock \<Rightarrow> lock lprog" where "release l \<equiv> Act (Unlock l)"
abbreviation maybe :: "lock lprog \<Rightarrow> lock lprog" where "maybe p \<equiv> Alt Skip p"

definition acquire_if :: "bool \<Rightarrow> lock \<Rightarrow> lock lprog" where
  "acquire_if take_lock l = (if take_lock then acquire l else Skip)"

definition release_if :: "bool \<Rightarrow> lock \<Rightarrow> lock lprog" where
  "release_if take_lock l = (if take_lock then release l else Skip)"

fun steps :: "lock lprog list \<Rightarrow> lock lprog" where
  "steps [] = Skip"
| "steps [p] = p"
| "steps (p # ps) = Seq p (steps ps)"

definition any_tipo :: "(resource_t \<Rightarrow> lock lprog) \<Rightarrow> lock lprog" where
  "any_tipo f = Alt (f RESOURCE_CPU) (Alt (f RESOURCE_MEM) (f RESOURCE_GPU))"

section \<open>Tables\<close>

text \<open>Every function of \<^verbatim>\<open>tabla_conns.c\<close> and of \<^verbatim>\<open>tabla_node_entry.c\<close> locks its table once.\<close>

definition conns_locks :: "lock lprog" where
  "conns_locks = steps [acquire ConnsMutex, release ConnsMutex]"

definition nodos_locks :: "lock lprog" where
  "nodos_locks = steps [acquire NodosMutex, release NodosMutex]"

definition get_conn_locks :: "bool \<Rightarrow> lock lprog" where
  "get_conn_locks take_lock = steps [acquire_if take_lock TablaLock, release_if take_lock TablaLock]"

definition verificar_locks :: "bool \<Rightarrow> lock lprog" where
  "verificar_locks take_lock = steps [acquire_if take_lock TablaLock, release_if take_lock TablaLock]"

definition cambio_alloc_locks :: "bool \<Rightarrow> lock lprog" where
  "cambio_alloc_locks take_lock = steps [acquire_if take_lock TablaLock, release_if take_lock TablaLock]"

definition extract_by_conn_locks :: "lock lprog" where
  "extract_by_conn_locks = steps [acquire TablaLock, release TablaLock]"

section \<open>Resources\<close>

definition enqueue_write_locks :: "conn_ptr \<Rightarrow> lock lprog" where
  "enqueue_write_locks conn = steps [acquire (WriteMutex conn), release (WriteMutex conn)]"

definition send_message_locks :: "lock lprog" where
  "send_message_locks = Any enqueue_write_locks"

definition limpiar_colas_locks :: "lock lprog" where
  "limpiar_colas_locks = steps
     [acquire (RecursoMutex RESOURCE_CPU), release (RecursoMutex RESOURCE_CPU),
      acquire (RecursoMutex RESOURCE_MEM), release (RecursoMutex RESOURCE_MEM),
      acquire (RecursoMutex RESOURCE_GPU), release (RecursoMutex RESOURCE_GPU)]"

definition reserve_resource_locks :: "resource_t \<Rightarrow> lock lprog" where
  "reserve_resource_locks tipo = steps [acquire (RecursoMutex tipo), release (RecursoMutex tipo)]"

definition release_resource_locks :: "resource_t \<Rightarrow> bool \<Rightarrow> lock lprog" where
  "release_resource_locks tipo take_lock = steps
     [acquire_if take_lock TablaLock, acquire (RecursoMutex tipo),
      Alt (steps [release (RecursoMutex tipo), release_if take_lock TablaLock])
       (steps [Loop (steps [cambio_alloc_locks False,
                  Alt send_message_locks (steps [verificar_locks False, maybe send_message_locks])]),
               release (RecursoMutex tipo), release_if take_lock TablaLock])]"

definition release_allocs_locks :: "bool \<Rightarrow> lock lprog" where
  "release_allocs_locks take_lock = Loop (maybe (Alt (any_tipo (\<lambda>t. release_resource_locks t take_lock))
     (steps [conns_locks, maybe send_message_locks])))"

definition tabla_jobs_remove_locks :: "bool \<Rightarrow> bool \<Rightarrow> lock lprog" where
  "tabla_jobs_remove_locks take_lock take_lock_reserve = steps
     [acquire_if take_lock TablaLock, release_if take_lock TablaLock, release_allocs_locks take_lock_reserve]"

section \<open>Messages\<close>

definition on_reserve_locks :: "lock lprog" where
  "on_reserve_locks = maybe (steps [any_tipo reserve_resource_locks, maybe send_message_locks])"

definition on_release_locks :: "lock lprog" where
  "on_release_locks = maybe (steps [maybe (any_tipo (\<lambda>t. release_resource_locks t True)),
     tabla_jobs_remove_locks True True, limpiar_colas_locks])"

definition on_granted_locks :: "lock lprog" where
  "on_granted_locks = maybe (steps [conns_locks, maybe (steps [acquire TablaLock,
     Alt (steps [send_message_locks, send_message_locks, send_message_locks, release TablaLock])
      (steps [maybe (steps [verificar_locks False, maybe send_message_locks]), release TablaLock])])])"

definition on_denied_locks :: "lock lprog" where
  "on_denied_locks = maybe (steps [acquire TablaLock, get_conn_locks False,
     maybe (steps [tabla_jobs_remove_locks False False, send_message_locks]),
     limpiar_colas_locks, release TablaLock])"

definition abort_locks :: "lock lprog" where
  "abort_locks = steps [limpiar_colas_locks, release_allocs_locks False, release TablaLock, send_message_locks]"

text \<open>One turn of the loop over the requests that does not abort, and the tries that do.\<close>

definition job_request_turn_locks :: "lock lprog" where
  "job_request_turn_locks = Alt (any_tipo reserve_resource_locks)
     (steps [conns_locks, Alt send_message_locks nodos_locks])"

definition on_job_request_locks :: "lock lprog" where
  "on_job_request_locks = maybe (steps [acquire TablaLock,
     Alt (release TablaLock)
      (steps [Loop job_request_turn_locks,
         Alt (steps [Alt (any_tipo reserve_resource_locks) (steps [conns_locks, nodos_locks]), abort_locks])
          (steps [verificar_locks False, maybe send_message_locks, release TablaLock])])])"

definition on_get_nodes_locks :: "lock lprog" where
  "on_get_nodes_locks = steps [acquire NodosMutex, release NodosMutex, send_message_locks]"

definition on_job_release_locks :: "lock lprog" where
  "on_job_release_locks = maybe (steps [acquire TablaLock,
     Alt (release TablaLock)
      (steps [release TablaLock,
         Loop (steps [Alt (any_tipo (\<lambda>t. release_resource_locks t True)) limpiar_colas_locks, maybe send_message_locks]),
         limpiar_colas_locks])])"

definition on_job_status_locks :: "lock lprog" where
  "on_job_status_locks = maybe (steps [get_conn_locks True, send_message_locks])"

definition on_job_timeout_locks :: "lock lprog" where
  "on_job_timeout_locks = maybe (steps [tabla_jobs_remove_locks True True, limpiar_colas_locks])"

definition process_message_locks :: "lock lprog" where
  "process_message_locks = Alt on_reserve_locks (Alt on_release_locks (Alt on_granted_locks (Alt on_denied_locks
     (Alt on_job_request_locks (Alt on_get_nodes_locks (Alt on_job_release_locks (Alt on_job_status_locks
     (Alt on_job_timeout_locks Skip))))))))"

section \<open>Connections and events\<close>

definition process_disconnect_locks :: "lock lprog" where
  "process_disconnect_locks = steps [limpiar_colas_locks, extract_by_conn_locks,
     Loop (steps [limpiar_colas_locks, release_allocs_locks True]), conns_locks]"

definition process_connection_ready_locks :: "lock lprog" where
  "process_connection_ready_locks = steps [acquire TablaLock, Loop (steps [conns_locks, send_message_locks]), release TablaLock]"

definition process_connection_failed_locks :: "lock lprog" where
  "process_connection_failed_locks = steps [extract_by_conn_locks, Loop (steps [limpiar_colas_locks, release_allocs_locks True])]"

definition rearm_conn_locks :: "conn_ptr \<Rightarrow> lock lprog" where
  "rearm_conn_locks conn = steps [acquire (WriteMutex conn), release (WriteMutex conn)]"

definition handle_tcp_read_locks :: "conn_ptr \<Rightarrow> lock lprog" where
  "handle_tcp_read_locks conn = steps [acquire (WriteMutex conn),
     Alt (steps [release (WriteMutex conn), maybe process_disconnect_locks])
      (steps [release (WriteMutex conn), Loop process_message_locks, acquire (WriteMutex conn), release (WriteMutex conn)])]"

definition handle_tcp_write_locks :: "conn_ptr \<Rightarrow> lock lprog" where
  "handle_tcp_write_locks conn = steps [acquire (WriteMutex conn), release (WriteMutex conn), maybe process_disconnect_locks]"

definition worker_event_locks :: "lock lprog" where
  "worker_event_locks = Any (\<lambda>conn. steps [acquire (WriteMutex conn), release (WriteMutex conn),
     Alt process_disconnect_locks
      (steps [maybe (Alt (Loop nodos_locks) (handle_tcp_read_locks conn)),
         maybe (Alt (handle_tcp_write_locks conn) (Alt process_connection_failed_locks process_connection_ready_locks)),
         maybe (steps [rearm_conn_locks conn, maybe process_disconnect_locks])])])"

text \<open>The threads of \<open>main\<close>: the workers and the one that announces and purges.\<close>

definition worker_locks :: "lock lprog" where
  "worker_locks = Loop worker_event_locks"

definition broadcast_locks :: "lock lprog" where
  "broadcast_locks = Loop nodos_locks"

section \<open>The check\<close>

abbreviation held :: "lock lprog \<Rightarrow> lock list \<Rightarrow> lock list option" where
  "held \<equiv> held_after lock_rank"

lemmas lock_defs = acquire_if_def release_if_def any_tipo_def

lemma held_tables [simp]:
  "held conns_locks [] = Some []" "held conns_locks [TablaLock] = Some [TablaLock]"
  "held nodos_locks [] = Some []" "held nodos_locks [TablaLock] = Some [TablaLock]"
  "held (get_conn_locks True) [] = Some []" "held (get_conn_locks False) h = Some h"
  "held (verificar_locks False) h = Some h" "held (cambio_alloc_locks False) h = Some h"
  "held extract_by_conn_locks [] = Some []"
  by (simp_all add: conns_locks_def nodos_locks_def get_conn_locks_def verificar_locks_def cambio_alloc_locks_def
      extract_by_conn_locks_def lock_defs)

lemma held_send [simp]: "\<forall>m\<in>set h. lock_rank m < 4 \<Longrightarrow> held send_message_locks h = Some h"
  by (simp add: send_message_locks_def enqueue_write_locks_def)

lemma held_queues [simp]:
  "held limpiar_colas_locks [] = Some []" "held limpiar_colas_locks [TablaLock] = Some [TablaLock]"
  "held (reserve_resource_locks tipo) [] = Some []" "held (reserve_resource_locks tipo) [TablaLock] = Some [TablaLock]"
  by (simp_all add: limpiar_colas_locks_def reserve_resource_locks_def)

lemma held_release_resource [simp]:
  "held (release_resource_locks tipo True) [] = Some []"
  "held (release_resource_locks tipo False) [TablaLock] = Some [TablaLock]"
  by (simp_all add: release_resource_locks_def lock_defs)

lemma held_release_allocs [simp]:
  "held (release_allocs_locks True) [] = Some []" "held (release_allocs_locks False) [TablaLock] = Some [TablaLock]"
  "held (tabla_jobs_remove_locks True True) [] = Some []"
  "held (tabla_jobs_remove_locks False False) [TablaLock] = Some [TablaLock]"
  by (simp_all add: release_allocs_locks_def tabla_jobs_remove_locks_def lock_defs)

lemma held_messages [simp]:
  "held on_reserve_locks [] = Some []" "held on_release_locks [] = Some []" "held on_granted_locks [] = Some []"
  "held on_denied_locks [] = Some []" "held on_job_request_locks [] = Some []" "held on_get_nodes_locks [] = Some []"
  "held on_job_release_locks [] = Some []" "held on_job_status_locks [] = Some []" "held on_job_timeout_locks [] = Some []"
  by (simp_all add: on_reserve_locks_def on_release_locks_def on_granted_locks_def on_denied_locks_def abort_locks_def
      job_request_turn_locks_def on_job_request_locks_def on_get_nodes_locks_def on_job_release_locks_def
      on_job_status_locks_def on_job_timeout_locks_def lock_defs)

lemma held_process_message [simp]: "held process_message_locks [] = Some []"
  by (simp add: process_message_locks_def)

lemma held_connections [simp]:
  "held process_disconnect_locks [] = Some []" "held process_connection_ready_locks [] = Some []"
  "held process_connection_failed_locks [] = Some []" "held (rearm_conn_locks c) [] = Some []"
  by (simp_all add: process_disconnect_locks_def process_connection_ready_locks_def process_connection_failed_locks_def
      rearm_conn_locks_def)

lemma held_handlers [simp]:
  "held (handle_tcp_read_locks c) [] = Some []" "held (handle_tcp_write_locks c) [] = Some []"
  by (simp_all add: handle_tcp_read_locks_def handle_tcp_write_locks_def)

lemma held_worker: "held worker_locks [] = Some []" "held broadcast_locks [] = Some []"
  by (simp_all add: worker_locks_def broadcast_locks_def worker_event_locks_def)

interpretation agent_locks: disciplined_programs lock_rank "{worker_locks, broadcast_locks}"
  by unfold_locales (auto simp: held_worker)

section \<open>No deadlock\<close>

text \<open>
  \<open>C5\<close>. The threads of the agent do not deadlock on its mutexes and each piece of work ends.
  Take any number of threads, each in a run of the worker loop or of the broadcast loop, and
  any interleaving of their locking and unlocking. As long as some thread is not done, some
  thread can go on, so no set of threads waits for each other and none waits for itself; the
  number of steps is bounded by the work there was; and when all is done no mutex is held.
\<close>

theorem agent_deadlock_free:
  assumes "\<forall>t\<in>set ts. fst t = [] \<and> (run worker_locks (snd t) \<or> run broadcast_locks (snd t))" "(lstep ^^ n) ts ts'"
  shows "n + work ts' = work ts \<and> ((\<exists>ts''. lstep ts' ts'') \<or> (\<forall>t\<in>set ts'. t = ([], [])))"
proof -
  have "agent_locks.starts ts" using assms(1) by (fastforce simp: agent_locks.starts_def)
  moreover have "lstep\<^sup>*\<^sup>* ts ts'" using assms(2) by (rule relpowp_imp_rtranclp)
  ultimately show ?thesis using agent_locks.stuck_finished steps_work [OF assms(2)] by metis
qed

text \<open>
  Two workers: the connection of each is established, it is entered in the table, a message
  is queued for it, and it is rearmed. The first has taken its first step.
\<close>

definition ready_trace :: "conn_ptr \<Rightarrow> lock act list" where
  "ready_trace c = [Lock (WriteMutex c), Unlock (WriteMutex c), Lock TablaLock, Lock ConnsMutex, Unlock ConnsMutex,
     Lock (WriteMutex c), Unlock (WriteMutex c), Unlock TablaLock, Lock (WriteMutex c), Unlock (WriteMutex c)]"

lemma run_pair: "run (Seq (Act a) (Act b)) [a, b]"
  using run_Seq [OF run_Act [of a] run_Act [of b]] by simp

lemma run_once: "run p as \<Longrightarrow> run (Loop p) as"
  using run_Loop [OF _ run_Loop0] by force

lemma run_ready: "run worker_locks (ready_trace c)"
proof -
  have "run send_message_locks [Lock (WriteMutex c), Unlock (WriteMutex c)]"
    unfolding send_message_locks_def by (rule run_Any [of _ c]) (simp add: enqueue_write_locks_def run_pair)
  from run_Seq [OF run_pair this] have
    "run (Loop (steps [conns_locks, send_message_locks]))
       [Lock ConnsMutex, Unlock ConnsMutex, Lock (WriteMutex c), Unlock (WriteMutex c)]"
    by (intro run_once) (simp add: conns_locks_def)
  from run_Seq [OF run_Act run_Seq [OF this run_Act]] have ready: "run process_connection_ready_locks
       [Lock TablaLock, Lock ConnsMutex, Unlock ConnsMutex, Lock (WriteMutex c), Unlock (WriteMutex c), Unlock TablaLock]"
    by (simp add: process_connection_ready_locks_def)
  have rearm: "run (steps [rearm_conn_locks c, maybe process_disconnect_locks]) [Lock (WriteMutex c), Unlock (WriteMutex c)]"
    using run_Seq [OF run_pair run_Alt1 [OF run_Skip]] by (simp add: rearm_conn_locks_def)
  from run_Seq [OF run_Alt1 [OF run_Skip] run_Seq [OF run_Alt2 [OF run_Alt2 [OF run_Alt2 [OF ready]]] run_Alt2 [OF rearm]]]
  have "run (steps [maybe (Alt (Loop nodos_locks) (handle_tcp_read_locks c)),
         maybe (Alt (handle_tcp_write_locks c) (Alt process_connection_failed_locks process_connection_ready_locks)),
         maybe (steps [rearm_conn_locks c, maybe process_disconnect_locks])]) (drop 2 (ready_trace c))"
    by (simp add: ready_trace_def)
  from run_Seq [OF run_Act run_Seq [OF run_Act run_Alt2 [OF this]]] have
    "run worker_event_locks (ready_trace c)" unfolding worker_event_locks_def
    by (intro run_Any [of _ c]) (simp add: ready_trace_def)
  then show ?thesis unfolding worker_locks_def by (rule run_once)
qed

theorem agent_deadlock_free_witness:
  "\<exists>ts'. lstep [([], ready_trace 4), ([], ready_trace 5)] ts' \<and> work ts' = 19 \<and> (\<exists>ts''. lstep ts' ts'')"
proof -
  let ?ts = "[([], ready_trace 4), ([], ready_trace 5)]"
  let ?ts' = "[([WriteMutex 4], tl (ready_trace 4)), ([], ready_trace 5)]"
  have step: "lstep ?ts ?ts'"
    using step_lock [of 0 ?ts "[]" "WriteMutex 4" "tl (ready_trace 4)"] by (simp add: ready_trace_def)
  then have "(lstep ^^ 1) ?ts ?ts'" by (simp only: relpowp_1)
  moreover have "\<forall>t\<in>set ?ts. fst t = [] \<and> (run worker_locks (snd t) \<or> run broadcast_locks (snd t))"
    using run_ready by simp
  ultimately have "\<exists>ts''. lstep ?ts' ts''" using agent_deadlock_free by fastforce
  moreover have "work ?ts' = 19" by code_simp
  ultimately show ?thesis using step by blast
qed

end
