(* ===== verification/Buckets.thy ===== *)
theory Buckets
  imports Prelude
begin

text \<open>
  Chained hash tables: the shape the three tables of the agent share, an array of singly
  linked lists. \<open>buckets_ok\<close> says that an entry sits in the bucket of its key; the locale
  \<open>chained_table\<close> derives from it, once, what searching, inserting, unlinking and
  overwriting in one bucket mean for the table as a whole.
\<close>

type_synonym 'e buckets = "'e list list"

abbreviation TAM_TABLA :: nat where "TAM_TABLA \<equiv> 71"

definition empty_buckets :: "'e buckets" where
  "empty_buckets = replicate TAM_TABLA []"

text \<open>\<open>hash_ip\<close>, on unsigned 32-bit integers.\<close>

definition hash_step :: "32 word \<Rightarrow> char \<Rightarrow> 32 word" where
  "hash_step hash c = hash * 31 + of_nat (of_char c)"

definition hash_ip :: "string \<Rightarrow> nat" where
  "hash_ip ip = unat (foldl hash_step 0 ip mod 71)"

lemma hash_ip_less [simp]: "hash_ip ip < TAM_TABLA"
proof -
  have "foldl hash_step 0 ip mod 71 < (71 :: 32 word)"
    by (rule word_mod_less_divisor) (simp add: word_less_nat_alt)
  then show ?thesis by (simp add: hash_ip_def word_less_nat_alt)
qed

text \<open>The same hash on integers, with the wrap-around written out.\<close>

definition hash_ip_int :: "string \<Rightarrow> int" where
  "hash_ip_int ip = foldl (\<lambda>h c. (h * 31 + of_char c) mod 4294967296) 0 ip mod 71"

lemma uint_hash_step: "uint (hash_step h c) = (uint h * 31 + of_char c) mod 4294967296"
proof -
  have "(of_char c :: nat) < 2 ^ LENGTH(32)"
    by (rule less_trans [OF nat_of_char_less_256]) simp
  then have "unat (of_nat (of_char c) :: 32 word) = of_char c"
    by (simp only: unat_of_nat mod_less)
  then have "uint (of_nat (of_char c) :: 32 word) = int (of_char c)"
    by (simp only: uint_nat)
  moreover have "int (of_char c) = of_char c" by (rule of_nat_of_char)
  ultimately show ?thesis
    by (simp add: hash_step_def uint_word_ariths mod_simps)
qed

lemma hash_ip_eq_int [code]: "hash_ip ip = nat (hash_ip_int ip)"
proof -
  have "uint (foldl hash_step h ip) = foldl (\<lambda>h c. (h * 31 + of_char c) mod 4294967296) (uint h) ip" for h
    by (induction ip arbitrary: h) (simp_all add: uint_hash_step)
  from this [of 0] show ?thesis
    by (simp add: hash_ip_def hash_ip_int_def unat_eq_nat_uint uint_mod)
qed

section \<open>Tables\<close>

definition buckets_ok :: "('k \<Rightarrow> bool) \<Rightarrow> ('k \<Rightarrow> nat) \<Rightarrow> ('e \<Rightarrow> 'k) \<Rightarrow> 'e buckets \<Rightarrow> bool" where
  "buckets_ok valid idx key t \<longleftrightarrow> length t = TAM_TABLA
     \<and> (\<forall>i<TAM_TABLA. \<forall>e\<in>set (t ! i). valid (key e) \<and> idx (key e) = i)"

definition entries :: "'e buckets \<Rightarrow> 'e list" where
  "entries t = concat t"

lemma set_entries: "set (entries t) = (\<Union>i<length t. set (t ! i))"
proof -
  have "set t = (\<lambda>i. t ! i) ` {..<length t}" by (auto simp: set_conv_nth)
  then show ?thesis by (simp add: entries_def)
qed

lemma entries_empty [simp]: "entries empty_buckets = []"
  by (simp add: entries_def empty_buckets_def)

lemma length_empty_buckets [simp]: "length empty_buckets = TAM_TABLA"
  by (simp add: empty_buckets_def)

lemma nth_empty_buckets [simp]: "i < TAM_TABLA \<Longrightarrow> empty_buckets ! i = []"
  by (simp add: empty_buckets_def)

lemma set_entries_update:
  "i < length t \<Longrightarrow> set (entries (t[i := b])) \<subseteq> set (entries t) \<union> set b"
  unfolding set_entries by (fastforce simp: nth_list_update split: if_splits)

lemma set_entries_map:
  "set (entries (map f t)) = (\<Union>b\<in>set t. set (f b))"
  by (auto simp: entries_def)

lemma in_entriesI: "i < length t \<Longrightarrow> e \<in> set (t ! i) \<Longrightarrow> e \<in> set (entries t)"
  by (auto simp: set_entries)

lemma entries_Un_bucket: "i < length t \<Longrightarrow> set (t ! i) \<subseteq> set (entries t)"
  by (auto simp: set_entries)

lemma distinct_concat_nth:
  "(\<And>i. i < length xs \<Longrightarrow> distinct (xs ! i)) \<Longrightarrow>
   (\<And>i j. i < j \<Longrightarrow> j < length xs \<Longrightarrow> set (xs ! i) \<inter> set (xs ! j) = {}) \<Longrightarrow> distinct (concat xs)"
proof (induction xs)
  case (Cons x xs)
  have "distinct (concat xs)"
  proof (rule Cons.IH)
    show "distinct (xs ! i)" if "i < length xs" for i using Cons.prems(1) [of "Suc i"] that by simp
    show "set (xs ! i) \<inter> set (xs ! j) = {}" if "i < j" "j < length xs" for i j
      using Cons.prems(2) [of "Suc i" "Suc j"] that by simp
  qed
  moreover have "distinct x" using Cons.prems(1) [of 0] by simp
  moreover have "set x \<inter> set y = {}" if y: "y \<in> set xs" for y
  proof -
    obtain i where "i < length xs" "y = xs ! i" using y by (auto simp: in_set_conv_nth)
    then show ?thesis using Cons.prems(2) [of 0 "Suc i"] by simp
  qed
  ultimately show ?case by auto
qed simp

locale chained_table =
  fixes valid :: "'k \<Rightarrow> bool"
    and idx :: "'k \<Rightarrow> nat"
    and key :: "'e \<Rightarrow> 'k"
  assumes idx_less: "valid k \<Longrightarrow> idx k < TAM_TABLA"
begin

lemma empty_ok: "buckets_ok valid idx key empty_buckets"
  by (simp add: buckets_ok_def)

lemma entry_bucket:
  "buckets_ok valid idx key t \<Longrightarrow> e \<in> set (entries t) \<longleftrightarrow> valid (key e) \<and> e \<in> set (t ! idx (key e))"
proof -
  assume ok: "buckets_ok valid idx key t"
  have "valid (key e) \<and> e \<in> set (t ! idx (key e))" if "e \<in> set (entries t)"
  proof -
    from that obtain i where "i < length t" "e \<in> set (t ! i)" by (auto simp: set_entries)
    with ok show ?thesis by (auto simp: buckets_ok_def)
  qed
  moreover have "e \<in> set (entries t)" if "valid (key e)" "e \<in> set (t ! idx (key e))"
    using that idx_less ok by (intro in_entriesI) (auto simp: buckets_ok_def)
  ultimately show ?thesis by blast
qed

lemma entries_distinct:
  assumes "buckets_ok valid idx key t" "\<forall>b\<in>set t. distinct (map key b)"
  shows "distinct (map key (entries t))"
proof -
  have "distinct (concat (map (map key) t))"
  proof (rule distinct_concat_nth)
    show "distinct (map (map key) t ! i)" if "i < length (map (map key) t)" for i using that assms(2) by simp
    show "set (map (map key) t ! i) \<inter> set (map (map key) t ! j) = {}"
      if "i < j" "j < length (map (map key) t)" for i j
    proof -
      have "idx (key e) = i" "idx (key e') = j" if "e \<in> set (t ! i)" "e' \<in> set (t ! j)" for e e'
        using that \<open>i < j\<close> \<open>j < length (map (map key) t)\<close> assms(1) by (auto simp: buckets_ok_def)
      with \<open>i < j\<close> \<open>j < length (map (map key) t)\<close> show ?thesis by fastforce
    qed
  qed
  then show ?thesis by (simp add: entries_def map_concat)
qed

text \<open>Searching the bucket of a key finds whatever entry of the table has that key.\<close>

lemma find_None_entries:
  "buckets_ok valid idx key t \<Longrightarrow> valid k \<Longrightarrow>
   find (\<lambda>e. key e = k) (t ! idx k) = None \<longleftrightarrow> (\<forall>e\<in>set (entries t). key e \<noteq> k)"
  using entry_bucket by (fastforce simp: find_None_iff)

lemma find_Some_entries:
  "buckets_ok valid idx key t \<Longrightarrow> valid k \<Longrightarrow> find (\<lambda>e. key e = k) (t ! idx k) = Some e \<Longrightarrow>
   e \<in> set (entries t) \<and> key e = k"
  using entry_bucket find_SomeD by fastforce

lemma shrink_ok:
  assumes "buckets_ok valid idx key t" "length t' = length t"
    and "\<And>i e. i < length t \<Longrightarrow> e \<in> set (t' ! i) \<Longrightarrow> \<exists>e'\<in>set (t ! i). key e = key e'"
  shows "buckets_ok valid idx key t'"
  using assms by (fastforce simp: buckets_ok_def)

lemma insert_ok:
  "buckets_ok valid idx key t \<Longrightarrow> valid (key e) \<Longrightarrow> i = idx (key e) \<Longrightarrow>
   buckets_ok valid idx key (t[i := e # t ! i])"
  using idx_less by (auto simp: buckets_ok_def nth_list_update)

lemma find_insert:
  "buckets_ok valid idx key t \<Longrightarrow> valid (key e) \<Longrightarrow> i = idx (key e) \<Longrightarrow> valid k \<Longrightarrow>
   find (\<lambda>e. key e = k) (t[i := e # t ! i] ! idx k)
     = (if k = key e then Some e else find (\<lambda>e. key e = k) (t ! idx k))"
  using idx_less by (auto simp: buckets_ok_def nth_list_update)

lemma set_entries_insert:
  "buckets_ok valid idx key t \<Longrightarrow> valid (key e) \<Longrightarrow> i = idx (key e) \<Longrightarrow>
   set (entries (t[i := e # t ! i])) = insert e (set (entries t))"
proof (intro set_eqI iffI)
  fix x
  assume ok: "buckets_ok valid idx key t" and v: "valid (key e)" and i: "i = idx (key e)"
  let ?t = "t[i := e # t ! i]"
  have ok': "buckets_ok valid idx key ?t" by (rule insert_ok [OF ok v i])
  have il: "i < length t" using idx_less [OF v] i ok by (simp add: buckets_ok_def)
  show "x \<in> insert e (set (entries t))" if "x \<in> set (entries ?t)"
  proof (cases "idx (key x) = i")
    case True
    then have "x \<in> set (e # t ! i)" using that il unfolding entry_bucket [OF ok'] by simp
    then show ?thesis using in_entriesI [OF il] by auto
  next
    case False
    then show ?thesis using that unfolding entry_bucket [OF ok'] by (simp add: entry_bucket [OF ok])
  qed
  show "x \<in> set (entries ?t)" if "x \<in> insert e (set (entries t))"
    using that il v entry_bucket [OF ok, of x] unfolding entry_bucket [OF ok']
    by (auto simp: i nth_list_update)
qed

lemma bucket_update_ok:
  assumes "buckets_ok valid idx key t" "\<And>e. e \<in> set b \<Longrightarrow> \<exists>e'\<in>set (t ! i). key e = key e'"
  shows "buckets_ok valid idx key (t[i := b])"
proof (rule shrink_ok [OF assms(1)])
  fix j e
  assume "j < length t" "e \<in> set (t[i := b] ! j)"
  then show "\<exists>e'\<in>set (t ! j). key e = key e'"
    using assms(2) by (cases "i = j") auto
qed simp

lemma remove_ok:
  "buckets_ok valid idx key t \<Longrightarrow> buckets_ok valid idx key (t[i := remove_first P (t ! i)])"
  by (rule bucket_update_ok) (auto dest: in_remove_firstD)

lemma find_remove_other:
  assumes "k \<noteq> k'"
  shows "find (\<lambda>e. key e = k) (remove_first (\<lambda>e. key e = k') xs) = find (\<lambda>e. key e = k) xs"
  using assms by (induction xs) auto

lemma update_ok:
  assumes "buckets_ok valid idx key t" "\<And>e. key (f e) = key e"
  shows "buckets_ok valid idx key (t[i := update_first P f (t ! i)])"
proof (rule bucket_update_ok [OF assms(1)])
  fix e
  assume "e \<in> set (update_first P f (t ! i))"
  then show "\<exists>e'\<in>set (t ! i). key e = key e'"
    using set_update_first assms(2) by metis
qed

lemma find_update:
  assumes "\<And>e. key (f e) = key e"
  shows "find (\<lambda>e. key e = k) (update_first (\<lambda>e. key e = k') f xs)
    = (if k = k' then map_option f (find (\<lambda>e. key e = k) xs) else find (\<lambda>e. key e = k) xs)"
  using assms by (induction xs) auto

end

section \<open>The interface of a keyed store\<close>

text \<open>
  What the resource manager relies on in the table of jobs: the table is a partial map from
  keys to entries, inserting a new key and extracting a key are updates of that map, and
  neither faults on a valid key.
\<close>

locale keyed_store =
  fixes inv :: "'t \<Rightarrow> bool"
    and valid :: "'k \<Rightarrow> bool"
    and key :: "'e \<Rightarrow> 'k"
    and view :: "'t \<Rightarrow> 'k \<rightharpoonup> 'e"
    and put_in :: "'t \<Rightarrow> 'e \<Rightarrow> 't option"
    and take_out :: "'t \<Rightarrow> 'k \<Rightarrow> ('e option \<times> 't) option"
  assumes insert_law: "inv t \<Longrightarrow> valid (key e) \<Longrightarrow> view t (key e) = None \<Longrightarrow>
      \<exists>t'. put_in t e = Some t' \<and> inv t' \<and> view t' = (view t)(key e \<mapsto> e)"
    and extract_law: "inv t \<Longrightarrow> valid k \<Longrightarrow>
      \<exists>t'. take_out t k = Some (view t k, t') \<and> inv t' \<and> view t' = (view t)(k := None)"
begin

lemma insert_extract:
  assumes "inv t" "valid (key e)" "view t (key e) = None"
  shows "\<exists>t1 t2. put_in t e = Some t1 \<and> take_out t1 (key e) = Some (Some e, t2) \<and> inv t2 \<and> view t2 = view t"
proof -
  obtain t1 where t1: "put_in t e = Some t1" "inv t1" "view t1 = (view t)(key e \<mapsto> e)"
    using insert_law [OF assms] by blast
  obtain t2 where t2: "take_out t1 (key e) = Some (view t1 (key e), t2)" "inv t2"
    "view t2 = (view t1)(key e := None)" using extract_law [OF t1(2) assms(2)] by blast
  have "view t2 = view t" using t1(3) t2(3) assms(3) by (simp add: fun_upd_idem)
  with t1 t2 show ?thesis by simp
qed

lemma extract_twice:
  assumes "inv t" "valid k" "take_out t k = Some (r, t1)"
  shows "\<exists>t2. take_out t1 k = Some (None, t2) \<and> inv t2 \<and> view t2 = view t1"
proof -
  have t1: "inv t1" "view t1 = (view t)(k := None)" using extract_law [OF assms(1,2)] assms(3) by auto
  with extract_law [OF t1(1) assms(2)] show ?thesis by auto
qed

end

end
