(* ===== verification/Tabla_Nodos.thy ===== *)
theory Tabla_Nodos
  imports Buckets
begin

text \<open>
  The table of known nodes, \<^verbatim>\<open>agente_c/src/tabla_node_entry.c\<close>: a cache filled by
  the ANNOUNCE datagrams. The value of \<open>time(NULL)\<close> is the argument \<open>now\<close>.
\<close>

record NodeEntry =
  ne_ip :: string
  puerto :: int
  cpu_disp :: int
  mem_disp :: int
  gpu_disp :: int
  last_seen :: int

type_synonym TablaNodos = "NodeEntry buckets"

definition tabla_nodos_init :: TablaNodos where
  "tabla_nodos_init = empty_buckets"

definition tabla_nodos_insert_or_update ::
  "int \<Rightarrow> string \<Rightarrow> int \<Rightarrow> int \<Rightarrow> int \<Rightarrow> int \<Rightarrow> TablaNodos \<Rightarrow> TablaNodos" where
  "tabla_nodos_insert_or_update now ip port cpu mem gpu t =
     (let idx = hash_ip ip in
      if find (\<lambda>e. ne_ip e = ip) (t ! idx) \<noteq> None
      then t[idx := update_first (\<lambda>e. ne_ip e = ip)
             (\<lambda>e. e\<lparr>puerto := port, cpu_disp := cpu, mem_disp := mem, gpu_disp := gpu, last_seen := now\<rparr>) (t ! idx)]
      else t[idx := \<lparr>ne_ip = strncpy_field 16 ip, puerto = port, cpu_disp = cpu, mem_disp = mem,
                     gpu_disp = gpu, last_seen = now\<rparr> # t ! idx])"

definition tabla_nodos_get_puerto :: "TablaNodos \<Rightarrow> string \<Rightarrow> int" where
  "tabla_nodos_get_puerto t ip = (case find (\<lambda>e. ne_ip e = ip) (t ! hash_ip ip) of
      Some e \<Rightarrow> puerto e | None \<Rightarrow> -1)"

definition tabla_nodos_purge :: "int \<Rightarrow> int \<Rightarrow> TablaNodos \<Rightarrow> TablaNodos" where
  "tabla_nodos_purge now timeout_secs t =
     map (filter (\<lambda>e. \<not> now - last_seen e > timeout_secs)) t"

definition tabla_nodos_destroy :: "TablaNodos \<Rightarrow> TablaNodos" where
  "tabla_nodos_destroy t = map (\<lambda>_. []) t"

section \<open>Invariant\<close>

text \<open>An address of at most fifteen characters fits the field \<open>ip[16]\<close>.\<close>

abbreviation ip_fits :: "string \<Rightarrow> bool" where
  "ip_fits ip \<equiv> length ip \<le> 15"

definition nodos_ok :: "TablaNodos \<Rightarrow> bool" where
  "nodos_ok t \<longleftrightarrow> buckets_ok ip_fits hash_ip ne_ip t \<and> (\<forall>i<TAM_TABLA. distinct (map ne_ip (t ! i)))"

interpretation nodos: chained_table ip_fits hash_ip ne_ip
  by unfold_locales simp

lemma strncpy_field_fits: "ip_fits ip \<Longrightarrow> strncpy_field 16 ip = ip"
  by (simp add: strncpy_field_id)

lemma map_key_update_first:
  "(\<And>e. key (f e) = key e) \<Longrightarrow> map key (update_first P f xs) = map key xs"
  by (induction xs) auto

lemma nodos_ok_init: "nodos_ok tabla_nodos_init"
  by (simp add: nodos_ok_def tabla_nodos_init_def nodos.empty_ok)

lemma nodos_ok_insert_or_update:
  assumes "nodos_ok t" "ip_fits ip"
  shows "nodos_ok (tabla_nodos_insert_or_update now ip port cpu mem gpu t)"
proof -
  have ok: "buckets_ok ip_fits hash_ip ne_ip t" and d: "\<forall>i<TAM_TABLA. distinct (map ne_ip (t ! i))"
    and len: "length t = TAM_TABLA"
    using assms(1) by (auto simp: nodos_ok_def buckets_ok_def)
  show ?thesis
  proof (cases "find (\<lambda>e. ne_ip e = ip) (t ! hash_ip ip)")
    case None
    then have "ip \<notin> set (map ne_ip (t ! hash_ip ip))" by (auto simp: find_None_iff)
    with None ok d len assms(2) show ?thesis
      by (auto simp: nodos_ok_def tabla_nodos_insert_or_update_def Let_def strncpy_field_fits
          nth_list_update intro!: nodos.insert_ok)
  next
    case (Some e)
    then show ?thesis
      using ok d len
      by (auto simp: nodos_ok_def tabla_nodos_insert_or_update_def Let_def nth_list_update
          map_key_update_first intro!: nodos.update_ok)
  qed
qed

lemma set_entries_insert_or_update:
  assumes "nodos_ok t" "ip_fits ip"
  shows "set (entries (tabla_nodos_insert_or_update now ip port cpu mem gpu t)) \<subseteq> set (entries t) \<union> {e. ne_ip e = ip}"
proof -
  have i: "hash_ip ip < length t" using assms(1) by (simp add: nodos_ok_def buckets_ok_def)
  let ?f = "\<lambda>e. e\<lparr>puerto := port, cpu_disp := cpu, mem_disp := mem, gpu_disp := gpu, last_seen := now\<rparr>"
  have upd: "set (entries (t[hash_ip ip := b])) \<subseteq> set (entries t) \<union> {e. ne_ip e = ip}"
    if "set b \<subseteq> set (entries t) \<union> {e. ne_ip e = ip}" for b
    using set_entries_update [OF i, of b] that by blast
  have "set (update_first (\<lambda>e. ne_ip e = ip) ?f (t ! hash_ip ip)) \<subseteq> set (entries t) \<union> {e. ne_ip e = ip}"
    using entries_Un_bucket [OF i] by (auto dest!: set_update_first find_SomeD)
  moreover have "set (\<lparr>ne_ip = strncpy_field 16 ip, puerto = port, cpu_disp = cpu, mem_disp = mem, gpu_disp = gpu,
      last_seen = now\<rparr> # t ! hash_ip ip) \<subseteq> set (entries t) \<union> {e. ne_ip e = ip}"
    using entries_Un_bucket [OF i] assms(2) by (auto simp: strncpy_field_fits)
  ultimately show ?thesis
    unfolding tabla_nodos_insert_or_update_def Let_def using upd by presburger
qed

lemma nodos_ok_purge: "nodos_ok t \<Longrightarrow> nodos_ok (tabla_nodos_purge now d t)"
  by (auto simp: nodos_ok_def buckets_ok_def tabla_nodos_purge_def distinct_map_filter)

lemma nodos_unique:
  assumes "nodos_ok t" "e \<in> set (entries t)" "e' \<in> set (entries t)" "ne_ip e = ne_ip e'"
  shows "e = e'"
proof -
  have ok: "buckets_ok ip_fits hash_ip ne_ip t" using assms(1) by (simp add: nodos_ok_def)
  then have "e \<in> set (t ! hash_ip (ne_ip e))" "e' \<in> set (t ! hash_ip (ne_ip e))"
    using assms(2-4) nodos.entry_bucket [OF ok] by metis+
  moreover have "distinct (map ne_ip (t ! hash_ip (ne_ip e)))" using assms(1) by (simp add: nodos_ok_def)
  ultimately show ?thesis using assms(4) by (auto simp: distinct_map inj_on_def)
qed

section \<open>Properties\<close>

text \<open>
  After an announcement the announced port is the one looked up for that address,
  and the ports of all other addresses are what they were.
\<close>

theorem get_puerto_after_announce:
  assumes "nodos_ok t" "ip_fits ip" "ip_fits ip'"
  shows "tabla_nodos_get_puerto (tabla_nodos_insert_or_update now ip port cpu mem gpu t) ip'
    = (if ip' = ip then port else tabla_nodos_get_puerto t ip')"
proof -
  have ok: "buckets_ok ip_fits hash_ip ne_ip t" and len: "length t = TAM_TABLA"
    using assms(1) by (auto simp: nodos_ok_def buckets_ok_def)
  show ?thesis
  proof (cases "find (\<lambda>e. ne_ip e = ip) (t ! hash_ip ip)")
    case None
    let ?e = "\<lparr>ne_ip = ip, puerto = port, cpu_disp = cpu, mem_disp = mem, gpu_disp = gpu, last_seen = now\<rparr>"
    from nodos.find_insert [OF ok, of ?e "hash_ip ip" ip'] None assms show ?thesis
      by (auto simp: tabla_nodos_get_puerto_def tabla_nodos_insert_or_update_def Let_def strncpy_field_fits)
  next
    case (Some e)
    let ?f = "\<lambda>e. e\<lparr>puerto := port, cpu_disp := cpu, mem_disp := mem, gpu_disp := gpu, last_seen := now\<rparr>"
    have "find (\<lambda>e. ne_ip e = ip') (t[hash_ip ip := update_first (\<lambda>e. ne_ip e = ip) ?f (t ! hash_ip ip)] ! hash_ip ip')
        = (if ip' = ip then Some (?f e) else find (\<lambda>e. ne_ip e = ip') (t ! hash_ip ip'))"
    proof (cases "hash_ip ip' = hash_ip ip")
      case True
      with len Some nodos.find_update [of ?f ip' ip "t ! hash_ip ip"] show ?thesis by auto
    next
      case False
      then have "ip' \<noteq> ip" by auto
      with False show ?thesis by simp
    qed
    with Some show ?thesis
      by (auto simp: tabla_nodos_get_puerto_def tabla_nodos_insert_or_update_def Let_def)
  qed
qed

theorem get_puerto_after_announce_witness:
  "nodos_ok tabla_nodos_init \<and> ip_fits ''10.0.0.1'' \<and> ip_fits ''10.0.0.2''
   \<and> tabla_nodos_get_puerto (tabla_nodos_insert_or_update 100 ''10.0.0.1'' 8000 4 8192 1 tabla_nodos_init) ''10.0.0.1'' = 8000"
  using get_puerto_after_announce [OF nodos_ok_init, of "''10.0.0.1''" "''10.0.0.1''" 100 8000 4 8192 1]
    nodos_ok_init by simp

text \<open>
  The purge drops exactly the nodes not heard of for longer than the timeout,
  keeps the table well formed, and a node announced at the time of the purge survives it.
\<close>

theorem purge_exact:
  assumes "nodos_ok t"
  shows "set (entries (tabla_nodos_purge now d t)) = {e \<in> set (entries t). now - last_seen e \<le> d}
    \<and> nodos_ok (tabla_nodos_purge now d t)"
  using nodos_ok_purge [OF assms] by (auto simp: tabla_nodos_purge_def entries_def)

abbreviation ej_nodos :: TablaNodos where
  "ej_nodos \<equiv> tabla_nodos_insert_or_update 90 ''10.0.0.2'' 8001 2 4096 0
     (tabla_nodos_insert_or_update 80 ''10.0.0.1'' 8000 4 8192 1 tabla_nodos_init)"

theorem purge_exact_witness:
  "nodos_ok ej_nodos \<and> nodos_ok (tabla_nodos_purge 100 15 ej_nodos)
   \<and> map ne_ip (entries ej_nodos) = [''10.0.0.1'', ''10.0.0.2'']
   \<and> map ne_ip (entries (tabla_nodos_purge 100 15 ej_nodos)) = [''10.0.0.2'']"
proof -
  have h: "nodos_ok ej_nodos"
    by (intro nodos_ok_insert_or_update nodos_ok_init) simp_all
  have "map ne_ip (entries ej_nodos) = [''10.0.0.1'', ''10.0.0.2'']
    \<and> map ne_ip (entries (tabla_nodos_purge 100 15 ej_nodos)) = [''10.0.0.2'']"
    by code_simp
  then show ?thesis using h purge_exact [OF h, of 100 15] by simp
qed

text \<open>
  The table never holds two entries for one address, whatever announcements and
  purges it goes through: both operations keep the invariant, which also puts every entry
  in the bucket where the lookup searches it.
\<close>

theorem nodos_ok_kept:
  assumes "nodos_ok t" "ip_fits ip"
  shows "nodos_ok (tabla_nodos_insert_or_update now ip port cpu mem gpu t)
    \<and> (\<forall>e\<in>set (entries t). \<forall>e'\<in>set (entries t). ne_ip e = ne_ip e' \<longrightarrow> e = e')"
  using nodos_ok_insert_or_update [OF assms] nodos_unique [OF assms(1)] by blast

theorem nodos_ok_kept_witness:
  "nodos_ok ej_nodos \<and> ip_fits ''10.0.0.1''
   \<and> nodos_ok (tabla_nodos_insert_or_update 95 ''10.0.0.1'' 8100 4 8192 1 ej_nodos)"
proof -
  have h: "nodos_ok ej_nodos" "ip_fits ''10.0.0.1''"
    by (intro nodos_ok_insert_or_update nodos_ok_init; simp) simp
  show ?thesis using h nodos_ok_kept [OF h, of 95 8100 4 8192 1] by simp
qed

end
