(* ===== verification/Tabla_Conns.thy ===== *)
theory Tabla_Conns
  imports Tabla_Nodos
begin

text \<open>
  The table of outgoing connections by address, \<^verbatim>\<open>agente_c/src/tabla_conns.c\<close>. Its
  \<open>hash_ip\<close> is character for character the one of the node table. Insertion does not look
  for an earlier entry, so one address can have several connections; the lookups return the
  newest. The two deletions stop at the first match of a bucket.
\<close>

record ConnEntry =
  ce_ip :: string
  ce_conn :: conn_ptr

type_synonym TablaConns = "ConnEntry buckets"

definition tabla_conns_init :: TablaConns where
  "tabla_conns_init = empty_buckets"

definition tabla_conns_insert :: "TablaConns \<Rightarrow> string \<Rightarrow> conn_ptr \<Rightarrow> TablaConns" where
  "tabla_conns_insert t ip conn = (let idx = hash_ip ip in
     t[idx := \<lparr>ce_ip = strncpy_field 16 ip, ce_conn = conn\<rparr> # t ! idx])"

definition tabla_conns_lookup :: "TablaConns \<Rightarrow> string \<Rightarrow> conn_ptr option" where
  "tabla_conns_lookup t ip = map_option ce_conn (find (\<lambda>e. ce_ip e = ip) (t ! hash_ip ip))"

definition tabla_conns_get_ip_by_conn :: "TablaConns \<Rightarrow> conn_ptr \<Rightarrow> string option" where
  "tabla_conns_get_ip_by_conn t conn = map_option ce_ip (find (\<lambda>e. ce_conn e = conn) (concat t))"

lemma get_ip_entry:
  "tabla_conns_get_ip_by_conn t conn = Some ip \<Longrightarrow> \<lparr>ce_ip = ip, ce_conn = conn\<rparr> \<in> set (entries t)"
proof -
  assume "tabla_conns_get_ip_by_conn t conn = Some ip"
  then obtain e where e: "find (\<lambda>e. ce_conn e = conn) (concat t) = Some e" "ip = ce_ip e"
    by (auto simp: tabla_conns_get_ip_by_conn_def)
  then have in_t: "e \<in> set (entries t)" and "ce_conn e = conn" using find_SomeD [OF e(1)] by (auto simp: entries_def)
  then have "\<lparr>ce_ip = ip, ce_conn = conn\<rparr> = e" using e(2) by simp
  with in_t show ?thesis by simp
qed

definition tabla_conns_delete :: "TablaConns \<Rightarrow> string \<Rightarrow> TablaConns" where
  "tabla_conns_delete t ip = (let idx = hash_ip ip in
     t[idx := remove_first (\<lambda>e. ce_ip e = ip) (t ! idx)])"

definition tabla_conns_delete_by_conn :: "TablaConns \<Rightarrow> conn_ptr \<Rightarrow> TablaConns" where
  "tabla_conns_delete_by_conn t conn = map (remove_first (\<lambda>e. ce_conn e = conn)) t"

definition tabla_conns_destroy :: "TablaConns \<Rightarrow> TablaConns" where
  "tabla_conns_destroy t = map (\<lambda>_. []) t"

section \<open>Invariant\<close>

definition conns_ok :: "TablaConns \<Rightarrow> bool" where
  "conns_ok t \<longleftrightarrow> buckets_ok ip_fits hash_ip ce_ip t"

interpretation conns: chained_table ip_fits hash_ip ce_ip
  by unfold_locales simp

lemma conns_ok_init: "conns_ok tabla_conns_init"
  by (simp add: conns_ok_def tabla_conns_init_def conns.empty_ok)

lemma conns_ok_insert: "conns_ok t \<Longrightarrow> ip_fits ip \<Longrightarrow> conns_ok (tabla_conns_insert t ip conn)"
  by (auto simp: conns_ok_def tabla_conns_insert_def Let_def strncpy_field_fits intro: conns.insert_ok)

lemma conns_ok_delete_by_conn: "conns_ok t \<Longrightarrow> conns_ok (tabla_conns_delete_by_conn t conn)"
  unfolding conns_ok_def tabla_conns_delete_by_conn_def
  by (erule conns.shrink_ok) (auto dest: in_remove_firstD)

lemma conns_ok_delete: "conns_ok t \<Longrightarrow> conns_ok (tabla_conns_delete t ip)"
  by (simp add: conns_ok_def tabla_conns_delete_def Let_def conns.remove_ok)

text \<open>The connections the table refers to.\<close>

definition conns_refs :: "TablaConns \<Rightarrow> conn_ptr set" where
  "conns_refs t = ce_conn ` set (entries t)"

lemma conns_refs_init [simp]: "conns_refs tabla_conns_init = {}"
  by (simp add: conns_refs_def tabla_conns_init_def)

lemma conns_refs_insert:
  assumes "conns_ok t" "ip_fits ip"
  shows "conns_refs (tabla_conns_insert t ip conn) = insert conn (conns_refs t)"
  using assms conns.set_entries_insert [of t "\<lparr>ce_ip = ip, ce_conn = conn\<rparr>" "hash_ip ip"]
  by (simp add: conns_refs_def conns_ok_def tabla_conns_insert_def Let_def strncpy_field_fits)

lemma lookup_in_refs: "conns_ok t \<Longrightarrow> tabla_conns_lookup t ip = Some c \<Longrightarrow> c \<in> conns_refs t"
  using entries_Un_bucket [of "hash_ip ip" t]
  by (auto simp: tabla_conns_lookup_def conns_refs_def conns_ok_def buckets_ok_def dest!: find_SomeD)

lemma get_ip_in_refs: "tabla_conns_get_ip_by_conn t conn = Some ip \<Longrightarrow> conn \<in> conns_refs t"
  by (auto simp: tabla_conns_get_ip_by_conn_def conns_refs_def entries_def dest!: find_SomeD)

lemma conns_refs_delete_by_conn_subset: "conns_refs (tabla_conns_delete_by_conn t conn) \<subseteq> conns_refs t"
  by (auto simp: conns_refs_def tabla_conns_delete_by_conn_def set_entries_map entries_def
      dest!: in_remove_firstD)

lemma set_remove_first_distinct:
  "distinct (map f xs) \<Longrightarrow> set (remove_first (\<lambda>e. f e = c) xs) = {e \<in> set xs. f e \<noteq> c}"
proof (induction xs)
  case (Cons x xs)
  then show ?case by (cases "f x = c") (auto simp: rev_image_eqI)
qed simp

text \<open>
  Every connection occurs at most once: what holds in the running agent, where a
  connection is inserted only by the \<open>process_connection_ready\<close> of its one request.
\<close>

definition conns_distinct :: "TablaConns \<Rightarrow> bool" where
  "conns_distinct t \<longleftrightarrow> distinct (map ce_conn (entries t))"

lemma distinct_bucket: "conns_distinct t \<Longrightarrow> b \<in> set t \<Longrightarrow> distinct (map ce_conn b)"
  by (induction t) (auto simp: conns_distinct_def entries_def)

lemma entries_delete_by_conn:
  assumes "conns_distinct t"
  shows "set (entries (tabla_conns_delete_by_conn t conn)) = {e \<in> set (entries t). ce_conn e \<noteq> conn}"
proof -
  have "set (remove_first (\<lambda>e. ce_conn e = conn) b) = {e \<in> set b. ce_conn e \<noteq> conn}" if "b \<in> set t" for b
    using set_remove_first_distinct [OF distinct_bucket [OF assms that]] .
  then have "(\<Union>b\<in>set t. set (remove_first (\<lambda>e. ce_conn e = conn) b))
      = (\<Union>b\<in>set t. {e \<in> set b. ce_conn e \<noteq> conn})" by simp
  then show ?thesis
    unfolding tabla_conns_delete_by_conn_def set_entries_map by (auto simp: entries_def)
qed

lemma conns_refs_delete_by_conn:
  "conns_distinct t \<Longrightarrow> conns_refs (tabla_conns_delete_by_conn t conn) = conns_refs t - {conn}"
  by (auto simp: conns_refs_def entries_delete_by_conn)

lemma conns_distinct_init [simp]: "conns_distinct tabla_conns_init"
  by (simp add: conns_distinct_def tabla_conns_init_def)

lemma conns_distinct_delete_by_conn: "conns_distinct t \<Longrightarrow> conns_distinct (tabla_conns_delete_by_conn t conn)"
proof -
  have sub: "set (map ce_conn (remove_first P b)) \<subseteq> set (map ce_conn b)" for P b
    by (auto dest: in_remove_firstD)
  have d: "distinct (map ce_conn b) \<Longrightarrow> distinct (map ce_conn (remove_first P b))" for P b
    by (induction b) (auto dest: in_remove_firstD)
  show "conns_distinct t \<Longrightarrow> ?thesis"
  proof (induction t)
    case (Cons b t)
    have "set (map ce_conn (entries (tabla_conns_delete_by_conn t conn))) \<subseteq> set (map ce_conn (entries t))"
      using conns_refs_delete_by_conn_subset [of t conn] by (simp add: conns_refs_def)
    with Cons d [of b] sub [of _ b] show ?case
      by (fastforce simp: conns_distinct_def tabla_conns_delete_by_conn_def entries_def)
  qed (simp add: conns_distinct_def tabla_conns_delete_by_conn_def entries_def)
qed

lemma conns_distinct_insert:
  assumes "conns_ok t" "ip_fits ip" "conns_distinct t" "conn \<notin> conns_refs t"
  shows "conns_distinct (tabla_conns_insert t ip conn)"
proof -
  let ?e = "\<lparr>ce_ip = ip, ce_conn = conn\<rparr>"
  have "hash_ip ip < length t" using assms(1) by (simp add: conns_ok_def buckets_ok_def)
  then have t: "t = take (hash_ip ip) t @ t ! hash_ip ip # drop (Suc (hash_ip ip)) t"
    by (rule id_take_nth_drop)
  have u: "t[hash_ip ip := ?e # t ! hash_ip ip]
      = take (hash_ip ip) t @ (?e # t ! hash_ip ip) # drop (Suc (hash_ip ip)) t"
    using \<open>hash_ip ip < length t\<close> by (rule upd_conv_take_nth_drop)
  have d: "distinct (map ce_conn (concat (take (hash_ip ip) t @ t ! hash_ip ip # drop (Suc (hash_ip ip)) t)))"
    and n: "conn \<notin> set (map ce_conn (concat (take (hash_ip ip) t @ t ! hash_ip ip # drop (Suc (hash_ip ip)) t)))"
    using assms(3,4) t by (simp_all add: conns_distinct_def conns_refs_def entries_def)
  show ?thesis
    using d n assms(2)
    by (simp add: conns_distinct_def tabla_conns_insert_def Let_def strncpy_field_fits entries_def u)
qed

section \<open>Properties\<close>

text \<open>
  Looking up the address of a connection just inserted returns it, and its other
  entries are untouched: a lookup of another address is unaffected.
\<close>

theorem conns_lookup_insert:
  assumes "conns_ok t" "ip_fits ip" "ip_fits ip'"
  shows "tabla_conns_lookup (tabla_conns_insert t ip conn) ip'
    = (if ip' = ip then Some conn else tabla_conns_lookup t ip')"
  using assms conns.find_insert [of t "\<lparr>ce_ip = ip, ce_conn = conn\<rparr>" "hash_ip ip" ip']
  by (simp add: tabla_conns_lookup_def tabla_conns_insert_def Let_def conns_ok_def strncpy_field_fits)

theorem conns_lookup_insert_witness:
  "conns_ok tabla_conns_init \<and> ip_fits ''10.0.0.1'' \<and> ip_fits ''10.0.0.2''
   \<and> tabla_conns_lookup (tabla_conns_insert tabla_conns_init ''10.0.0.1'' 5) ''10.0.0.1'' = Some 5"
  using conns_lookup_insert [OF conns_ok_init, of "''10.0.0.1''" "''10.0.0.1''" 5] conns_ok_init by simp



end
