(* ===== verification/Messages.thy ===== *)
theory Messages
  imports Parsing
begin

text \<open>
  The messages of the protocol as the agents and the planner write them (without the final
  newline, which \<open>handle_tcp_read\<close> replaces by a NUL before the parser sees the line), the
  interface \<open>message_codec\<close> between writers and parsers, and its interpretations for every
  kind of message: what an agent writes, the parser of the other side reads back.
\<close>

section \<open>Messages between agents and with the planner\<close>

definition msg_resource :: "string \<Rightarrow> int \<Rightarrow> resource_t \<Rightarrow> int \<Rightarrow> string" where
  "msg_resource word job_id t amount =
     word @ '' '' @ show_int job_id @ '' '' @ resource_type_to_str t @ '' '' @ show_int amount"

definition msg_job :: "string \<Rightarrow> int \<Rightarrow> string" where
  "msg_job word job_id = word @ '' '' @ show_int job_id"

definition msg_reserve :: "reserve_msg_t \<Rightarrow> string" where
  "msg_reserve m = msg_resource ''RESERVE'' (rm_job_id m) (rm_type m) (rm_amount m)"

definition msg_release :: "release_msg_t \<Rightarrow> string" where
  "msg_release m = msg_resource ''RELEASE'' (rm_job_id m) (rm_type m) (rm_amount m)"

definition msg_granted :: "granted_msg_t \<Rightarrow> string" where
  "msg_granted m = msg_job ''GRANTED'' (gm_job_id m)"

definition msg_denied :: "denied_msg_t \<Rightarrow> string" where
  "msg_denied m = msg_job ''DENIED'' (gm_job_id m)"

definition msg_job_granted :: "int \<Rightarrow> string" where
  "msg_job_granted job_id = msg_job ''JOB_GRANTED'' job_id"

definition msg_job_denied :: "job_denied_msg_t \<Rightarrow> string" where
  "msg_job_denied m = msg_job ''JOB_DENIED'' (gm_job_id m)"

definition msg_job_status :: "int \<Rightarrow> string \<Rightarrow> string" where
  "msg_job_status job_id state = msg_job ''JOB_STATUS'' job_id @ '' '' @ state"

text \<open>The datagram of \<open>broadcast_loop\<close> and \<open>main\<close>; this one keeps its newline.\<close>

definition msg_announce :: "announce_msg_t \<Rightarrow> string" where
  "msg_announce m = snprintf 256 (''ANNOUNCE '' @ show_int (an_puerto m) @ '' cpu:'' @ show_int (an_cpu m)
     @ '' mem:'' @ show_int (an_mem m) @ '' gpu:'' @ show_int (an_gpu m) @ [NL])"

text \<open>The request line of the planner: one token per host, the pairs it asks of that host.\<close>

definition msg_pair :: "resource_t \<times> int \<Rightarrow> string" where
  "msg_pair p = '':'' @ resource_type_to_str (fst p) @ '':'' @ show_int (snd p)"

definition msg_host :: "string \<times> (resource_t \<times> int) list \<Rightarrow> string" where
  "msg_host h = ''@'' @ fst h @ concat (map msg_pair (snd h))"

definition msg_job_request :: "int \<times> (string \<times> (resource_t \<times> int) list) list \<Rightarrow> string" where
  "msg_job_request r = msg_job ''JOB_REQUEST'' (fst r) @ concat (map (\<lambda>h. '' '' @ msg_host h) (snd r))"

section \<open>The interface between a writer and its parser\<close>

locale message_codec =
  fixes render :: "'a \<Rightarrow> string"
    and parse :: "string \<Rightarrow> 'a parsed"
    and ok :: "'a \<Rightarrow> bool"
  assumes parse_render: "ok x \<Longrightarrow> parse (render x) = Valido x"
    and render_line: "ok x \<Longrightarrow> NL \<notin> set (render x) \<and> NUL \<notin> set (render x)"
begin

lemma render_inj: "ok x \<Longrightarrow> ok y \<Longrightarrow> render x = render y \<Longrightarrow> x = y"
  by (metis parse_render parsed.inject)

lemma parse_unique: "ok x \<Longrightarrow> parse (render x) = Valido y \<Longrightarrow> y = x"
  using parse_render by simp

end

section \<open>Scanning what was written\<close>

lemma skip_blank [simp]: "skip_ws (CHR '' '' # s) = skip_ws s"
  by (simp add: skip_ws_def is_space_def)

lemma resource_str_takeWhile [simp]:
  "takeWhile (\<lambda>c. \<not> is_space c) (resource_type_to_str t @ CHR '' '' # s) = resource_type_to_str t"
  "skip_ws (resource_type_to_str t @ s) = resource_type_to_str t @ s"
  "take 15 (resource_type_to_str t) = resource_type_to_str t"
  by (cases t; simp add: resource_type_to_str_def is_space_def skip_ws_def)+

lemma resource_str_facts [simp]:
  "resource_type_to_str t \<noteq> []" "NL \<notin> set (resource_type_to_str t)"
  "NUL \<notin> set (resource_type_to_str t)" "CHR ''%'' \<notin> set (resource_type_to_str t)"
  "CHR '':'' \<notin> set (resource_type_to_str t)" "CHR '' '' \<notin> set (resource_type_to_str t)"
  "length (resource_type_to_str t) = 3"
  by (cases t; simp add: resource_type_to_str_def)+

lemma skip_ws_show_int_end [simp]: "skip_ws (show_int x) = show_int x"
  using skip_ws_show_int [of x "[]"] by simp

lemma blank_no_digit [simp]: "\<not> is_digit CHR '' ''" "\<not> is_digit CHR '':''" "\<not> is_digit NL"
  by (simp_all add: is_digit_def)

lemma sscanf_msg_resource:
  assumes "in_s32 j" and "in_s32 a"
  shows "sscanf (msg_resource w j t a) (lits w @ [Ws, D, Ws, S 15, Ws, D])
     = [VInt j, VStr (resource_type_to_str t), VInt a]"
  using assms by (simp add: sscanf_def msg_resource_def Let_def)

lemma scan_job_id_append:
  assumes "in_s32 j" and "no_digit_next rest"
  shows "scan_job_id w (msg_job w j @ rest) = Some j"
  using assms by (simp add: scan_job_id_def sscanf_def msg_job_def Let_def)

lemma scan_job_id_msg_job [simp]: "in_s32 j \<Longrightarrow> scan_job_id w (msg_job w j) = Some j"
  using scan_job_id_append [of j "[]" w] by simp

abbreviation resource_msg_ok :: "reserve_msg_t \<Rightarrow> bool" where
  "resource_msg_ok m \<equiv> in_s32 (rm_job_id m) \<and> in_s32 (rm_amount m)"

abbreviation job_msg_ok :: "granted_msg_t \<Rightarrow> bool" where
  "job_msg_ok m \<equiv> in_s32 (gm_job_id m)"

interpretation reserve_codec: message_codec msg_reserve parse_reserve resource_msg_ok
  by unfold_locales
    (auto simp: parse_reserve_def msg_reserve_def sscanf_msg_resource, auto simp: msg_resource_def)

interpretation release_codec: message_codec msg_release parse_release resource_msg_ok
  by unfold_locales
    (auto simp: parse_release_def msg_release_def sscanf_msg_resource, auto simp: msg_resource_def)

interpretation granted_codec: message_codec msg_granted parse_granted job_msg_ok
  by unfold_locales
    (auto simp: parse_granted_def msg_granted_def parse_job_id_def, auto simp: msg_job_def)

interpretation denied_codec: message_codec msg_denied parse_denied job_msg_ok
  by unfold_locales
    (auto simp: parse_denied_def msg_denied_def parse_job_id_def, auto simp: msg_job_def)

interpretation job_denied_codec: message_codec msg_job_denied parse_job_denied job_msg_ok
  by unfold_locales
    (auto simp: parse_job_denied_def msg_job_denied_def parse_job_id_def, auto simp: msg_job_def)

section \<open>Tokens of a written line\<close>

lemma strtok_word:
  assumes "w \<noteq> []" and "CHR '' '' \<notin> set w"
  shows "strtok (w @ CHR '' '' # s) = Some (w, s)" and "strtok w = Some (w, [])"
proof -
  obtain c cs where w: "w = c # cs" "c \<noteq> CHR '' ''" using assms by (cases w) auto
  have tw: "takeWhile (\<lambda>c. c \<noteq> CHR '' '') (w @ CHR '' '' # s) = w"
    "dropWhile (\<lambda>c. c \<noteq> CHR '' '') (w @ CHR '' '' # s) = CHR '' '' # s"
    "takeWhile (\<lambda>c. c \<noteq> CHR '' '') w = w" "dropWhile (\<lambda>c. c \<noteq> CHR '' '') w = []"
    using assms(2) by (induction w) auto
  have dw: "dropWhile (\<lambda>c. c = CHR '' '') (w @ CHR '' '' # s) = w @ CHR '' '' # s"
    "dropWhile (\<lambda>c. c = CHR '' '') w = w" using w by simp_all
  show "strtok (w @ CHR '' '' # s) = Some (w, s)" "strtok w = Some (w, [])"
    using assms(1) by (simp_all add: strtok_def Let_def dw tw)
qed

lemma tokens_Nil [simp]: "tokens [] = []"
  by (subst tokens.simps) (simp add: strtok_def)

lemma tokens_word: "w \<noteq> [] \<Longrightarrow> CHR '' '' \<notin> set w \<Longrightarrow> tokens w = [w]"
  by (subst tokens.simps) (simp add: strtok_word)

lemma tokens_word_Cons:
  "w \<noteq> [] \<Longrightarrow> CHR '' '' \<notin> set w \<Longrightarrow> tokens (w @ CHR '' '' # s) = w # tokens s"
  by (subst tokens.simps) (simp add: strtok_word)

lemma tokens_words:
  assumes "w \<noteq> []" "CHR '' '' \<notin> set w" "\<forall>v\<in>set vs. v \<noteq> [] \<and> CHR '' '' \<notin> set v"
  shows "tokens (w @ concat (map (\<lambda>v. '' '' @ v) vs)) = w # vs"
  using assms
proof (induction vs arbitrary: w)
  case (Cons v vs)
  then show ?case
    using tokens_word_Cons [of w "v @ concat (map (\<lambda>v. '' '' @ v) vs)"] by simp
qed (simp add: tokens_word)

section \<open>The planner's request line\<close>

definition request_entries :: "string \<times> (resource_t \<times> int) list \<Rightarrow> resource_request_t list" where
  "request_entries h = map (\<lambda>p. \<lparr>rq_ip = fst h, rq_type = fst p, rq_amount = snd p\<rparr>)
     (filter (\<lambda>p. 0 < snd p) (snd h))"

definition host_ok :: "string \<times> (resource_t \<times> int) list \<Rightarrow> bool" where
  "host_ok h \<longleftrightarrow> fst h \<noteq> [] \<and> length (fst h) \<le> 15 \<and> CHR '':'' \<notin> set (fst h) \<and> CHR '' '' \<notin> set (fst h)
     \<and> snd h \<noteq> [] \<and> (\<forall>p\<in>set (snd h). in_s32 (snd p))"

lemma takeWhile_colon: "CHR '':'' \<notin> set w \<Longrightarrow> takeWhile (\<lambda>c. c \<noteq> CHR '':'') (w @ CHR '':'' # s) = w"
  by (induction w) auto

lemma msg_pairs_no_digit: "no_digit_next (concat (map msg_pair ps))"
  by (cases ps) (simp_all add: msg_pair_def)

lemma scan_pair:
  assumes "in_s32 a" and "no_digit_next rest"
  shows "sscanf (msg_pair (t, a) @ rest) pair_format
     = [VStr (resource_type_to_str t), VInt a, VPos (length (msg_pair (t, a)))]"
proof -
  have "takeWhile (\<lambda>c. c \<noteq> CHR '':'') (resource_type_to_str t @ CHR '':'' # show_int a @ rest)
      = resource_type_to_str t" by (rule takeWhile_colon) simp
  with assms show ?thesis
    by (simp add: sscanf_def pair_format_def msg_pair_def Let_def)
qed

lemma pairs_loop_msg_pairs:
  "length ip \<le> 15 \<Longrightarrow> \<forall>p\<in>set ps. in_s32 (snd p) \<Longrightarrow>
   pairs_loop ip (concat (map msg_pair ps)) acc = Some (Valido (acc @ request_entries (ip, ps)))"
proof (induction ps arbitrary: acc)
  case Nil
  then show ?case by (subst pairs_loop.simps) (simp add: request_entries_def)
next
  case (Cons p ps)
  obtain t a where p: "p = (t, a)" by (cases p)
  let ?rest = "concat (map msg_pair ps)"
  have sc: "sscanf (msg_pair (t, a) @ ?rest) pair_format
      = [VStr (resource_type_to_str t), VInt a, VPos (length (msg_pair (t, a)))]"
    using Cons.prems p by (intro scan_pair msg_pairs_no_digit) simp
  have colon: "take 1 (msg_pair (t, a) @ ?rest) = '':''" by (simp add: msg_pair_def)
  show ?case
    using Cons p colon sc
    by (subst pairs_loop.simps)
      (simp add: Let_def rec_overflow_def resource_list_insert_def strncpy_field_id request_entries_def)
qed

lemma hosts_loop_msg_hosts:
  "\<forall>h\<in>set hs. host_ok h \<Longrightarrow>
   hosts_loop (map msg_host hs) acc = Some (Valido (acc @ concat (map request_entries hs)))"
proof (induction hs arbitrary: acc)
  case (Cons h hs)
  obtain ip ps where h: "h = (ip, ps)" by (cases h)
  with Cons.prems have ok: "ip \<noteq> []" "length ip \<le> 15" "CHR '':'' \<notin> set ip" "ps \<noteq> []"
    "\<forall>p\<in>set ps. in_s32 (snd p)" by (auto simp: host_ok_def)
  define rest where "rest = concat (map msg_pair ps)"
  obtain cs where cs: "rest = CHR '':'' # cs"
    using ok(4) by (cases ps) (auto simp: rest_def msg_pair_def)
  have "sscanf (msg_host h) (Lit CHR ''@'' # NotCol 15 # Pos # []) = [VStr ip, VPos (Suc (length ip))]"
    using ok cs by (simp add: h msg_host_def sscanf_def Let_def takeWhile_colon flip: rest_def)
  moreover have "drop (Suc (length ip)) (msg_host h) = rest"
    by (simp add: h msg_host_def flip: rest_def)
  moreover have "pairs_loop ip rest acc = Some (Valido (acc @ request_entries h))"
    unfolding rest_def h using ok by (intro pairs_loop_msg_pairs) auto
  ultimately show ?case using Cons cs by (simp add: Let_def)
qed simp

lemma msg_host_word: "host_ok h \<Longrightarrow> msg_host h \<noteq> [] \<and> CHR '' '' \<notin> set (msg_host h)"
  by (auto simp: host_ok_def msg_host_def msg_pair_def)

text \<open>
  \<open>C22\<close>. The line the planner writes for a job is parsed without any out-of-bounds write
  and gives exactly the requests it asks for, in its order, with the amounts that are not
  positive dropped.
\<close>

theorem parse_job_request_roundtrip:
  assumes "in_s32 job_id" and "\<forall>h\<in>set hs. host_ok h"
  shows "parse_job_request (msg_job_request (job_id, hs))
    = Some (Valido \<lparr>jr_job_id = job_id, request_list = concat (map request_entries hs)\<rparr>)"
proof -
  let ?line = "msg_job_request (job_id, hs)"
  have tail: "concat (map (\<lambda>h. '' '' @ msg_host h) hs) = concat (map (\<lambda>v. '' '' @ v) (map msg_host hs))"
    by (simp add: comp_def)
  have "tokens ?line = ''JOB_REQUEST'' # tokens (show_int job_id @ concat (map (\<lambda>v. '' '' @ v) (map msg_host hs)))"
    unfolding msg_job_request_def msg_job_def
    using tokens_word_Cons [of "''JOB_REQUEST''"] tail by simp
  also have "\<dots> = ''JOB_REQUEST'' # show_int job_id # map msg_host hs"
    using assms(2) msg_host_word by (subst tokens_words) auto
  finally have tok: "drop 2 (tokens ?line) = map msg_host hs" by simp
  have "no_digit_next (concat (map (\<lambda>h. '' '' @ msg_host h) hs))" by (cases hs) simp_all
  then have "scan_job_id ''JOB_REQUEST'' ?line = Some job_id"
    using assms(1) by (simp add: msg_job_request_def scan_job_id_append)
  with tok show ?thesis
    using hosts_loop_msg_hosts [OF assms(2), of "[]"] by (simp add: parse_job_request_def)
qed

theorem parse_job_request_roundtrip_witness:
  "in_s32 9230 \<and> host_ok (''192.168.0.14'', [(RESOURCE_CPU, 1), (RESOURCE_MEM, 331), (RESOURCE_GPU, 0)])
   \<and> parse_job_request (msg_job_request (9230, [(''192.168.0.14'', [(RESOURCE_CPU, 1), (RESOURCE_MEM, 331), (RESOURCE_GPU, 0)])]))
     = Some (Valido \<lparr>jr_job_id = 9230, request_list =
         [\<lparr>rq_ip = ''192.168.0.14'', rq_type = RESOURCE_CPU, rq_amount = 1\<rparr>,
          \<lparr>rq_ip = ''192.168.0.14'', rq_type = RESOURCE_MEM, rq_amount = 331\<rparr>]\<rparr>)"
proof -
  let ?hs = "[(''192.168.0.14'', [(RESOURCE_CPU, 1), (RESOURCE_MEM, 331), (RESOURCE_GPU, 0)])]"
  have h: "in_s32 9230" "\<forall>h\<in>set ?hs. host_ok h"
    by (simp_all add: in_s32_def host_ok_def)
  show ?thesis
    using h parse_job_request_roundtrip [OF h] by (simp add: request_entries_def)
qed

section \<open>What an accepted request line guarantees\<close>

definition request_ok :: "resource_request_t \<Rightarrow> bool" where
  "request_ok q \<longleftrightarrow> 0 < rq_amount q \<and> in_s32 (rq_amount q) \<and> rq_ip q \<noteq> [] \<and> length (rq_ip q) \<le> 15
     \<and> CHR '':'' \<notin> set (rq_ip q)"

lemma scan_int_in_s32: "scan_int s = Some (v, t) \<Longrightarrow> in_s32 v"
  by (auto simp: scan_int_def Let_def split: prod.splits if_splits)

lemma scan_VInt_in_s32: "VInt v \<in> set (scan n ds s) \<Longrightarrow> in_s32 v"
proof (induction ds arbitrary: n s)
  case (Cons d ds)
  then show ?case
    by (cases d) (auto simp: Let_def dest: scan_int_in_s32 scan_int_in_s32 [OF sym] split: list.splits option.splits if_splits)
qed simp

lemma pairs_loop_ok:
  assumes "pairs_loop ip rest acc = Some (Valido l)"
    and "\<forall>q\<in>set acc. request_ok q" and "ip \<noteq> []" "length ip \<le> 15" "CHR '':'' \<notin> set ip"
  shows "\<forall>q\<in>set l. request_ok q"
  using assms
proof (induction ip rest acc rule: pairs_loop.induct)
  case (1 ip rest acc)
  show ?case
  proof (cases "take 1 rest = '':''")
    case False
    with "1.prems" show ?thesis by (subst (asm) pairs_loop.simps) auto
  next
    case True
    let ?vs = "sscanf rest pair_format"
    from "1.prems"(1) True obtain rc a k type where vs: "?vs = [VStr rc, VInt a, VPos k]"
      and ty: "resource_of_str rc = Some type" and nof: "\<not> rec_overflow ?vs"
      and rec: "pairs_loop ip (drop k rest)
        (if 0 < a then resource_list_insert acc ip type a else acc) = Some (Valido l)"
      by (subst (asm) pairs_loop.simps)
        (simp add: Let_def split: if_splits list.splits sval.splits option.splits)
    have "VInt a \<in> set (scan 0 pair_format rest)"
      using vs by (simp add: sscanf_def)
    then have "in_s32 a" by (rule scan_VInt_in_s32)
    then have "\<forall>q\<in>set (if 0 < a then resource_list_insert acc ip type a else acc). request_ok q"
      using "1.prems" by (auto simp: resource_list_insert_def request_ok_def strncpy_field_id)
    then show ?thesis
      using "1.IH" [of ?vs "VStr rc" "[VInt a, VPos k]" rc "VInt a" "[VPos k]" a "VPos k" "[]" k type]
        True nof vs ty rec "1.prems" by auto
  qed
qed

lemma hosts_loop_ok:
  "hosts_loop ts acc = Some (Valido l) \<Longrightarrow> \<forall>q\<in>set acc. request_ok q \<Longrightarrow> \<forall>q\<in>set l. request_ok q"
proof (induction ts arbitrary: acc)
  case (Cons tok ts)
  from Cons.prems(1) obtain ip k acc' where
    sc: "sscanf tok (Lit CHR ''@'' # NotCol 15 # Pos # []) = [VStr ip, VPos k]"
    and pl: "pairs_loop ip (drop k tok) acc = Some (Valido acc')"
    and hl: "hosts_loop ts acc' = Some (Valido l)"
    by (auto simp: Let_def split: list.splits sval.splits option.splits parsed.splits if_splits)
  from sc obtain t where "ip = take 15 (takeWhile (\<lambda>c. c \<noteq> CHR '':'') t)" "ip \<noteq> []"
    by (auto simp: sscanf_def Let_def split: list.splits if_splits)
  then have "length ip \<le> 15" "CHR '':'' \<notin> set ip" "ip \<noteq> []"
    by (auto dest!: in_set_takeD dest: set_takeWhileD)
  then have "\<forall>q\<in>set acc'. request_ok q"
    using pairs_loop_ok [OF pl Cons.prems(2)] by blast
  then show ?case using Cons.IH [OF hl] by blast
qed simp

lemma parse_job_request_list:
  "parse_job_request buf = Some (Valido r) \<Longrightarrow> \<forall>q\<in>set (request_list r). request_ok q"
  using hosts_loop_ok [of "drop 2 (tokens buf)" "[]"]
  by (auto simp: parse_job_request_def split: option.splits parsed.splits)

text \<open>
  \<open>C23\<close>. Whatever line arrives, an accepted request asks only for positive amounts of
  hosts whose address fits the 16-byte field, and its job id is a C int.
\<close>

theorem parse_job_request_sound:
  assumes "parse_job_request buf = Some (Valido r)"
  shows "(\<forall>q\<in>set (request_list r). request_ok q) \<and> in_s32 (jr_job_id r)"
proof -
  from assms obtain j where j: "scan_job_id ''JOB_REQUEST'' buf = Some j" "jr_job_id r = j"
    by (auto simp: parse_job_request_def split: option.splits parsed.splits)
  from j(1) have "VInt j \<in> set (scan 0 (lits ''JOB_REQUEST'' @ [Ws, D]) buf)"
    by (auto simp: scan_job_id_def sscanf_def split: list.splits sval.splits)
  then have "in_s32 j" by (rule scan_VInt_in_s32)
  with parse_job_request_list [OF assms] j(2) show ?thesis by simp
qed

theorem parse_job_request_sound_witness:
  "parse_job_request ''JOB_REQUEST 7 @10.0.0.1:cpu:2:mem:-4''
     = Some (Valido \<lparr>jr_job_id = 7, request_list = [\<lparr>rq_ip = ''10.0.0.1'', rq_type = RESOURCE_CPU, rq_amount = 2\<rparr>]\<rparr>)
   \<and> request_ok \<lparr>rq_ip = ''10.0.0.1'', rq_type = RESOURCE_CPU, rq_amount = 2\<rparr>"
proof -
  have h: "parse_job_request ''JOB_REQUEST 7 @10.0.0.1:cpu:2:mem:-4''
     = Some (Valido \<lparr>jr_job_id = 7, request_list = [\<lparr>rq_ip = ''10.0.0.1'', rq_type = RESOURCE_CPU, rq_amount = 2\<rparr>]\<rparr>)"
    by code_simp
  show ?thesis using h parse_job_request_sound [OF h] by simp
qed


section \<open>The discovery datagram\<close>

abbreviation announce_ok :: "announce_msg_t \<Rightarrow> bool" where
  "announce_ok m \<equiv> in_s32 (an_puerto m) \<and> in_s32 (an_cpu m) \<and> in_s32 (an_mem m) \<and> in_s32 (an_gpu m)
     \<and> an_cpu m \<noteq> -1 \<and> an_mem m \<noteq> -1 \<and> an_gpu m \<noteq> -1"

definition announce_words :: "announce_msg_t \<Rightarrow> string list" where
  "announce_words m = [show_int (an_puerto m), ''cpu:'' @ show_int (an_cpu m),
     ''mem:'' @ show_int (an_mem m), ''gpu:'' @ show_int (an_gpu m) @ [NL]]"

lemma scan_field_hit:
  "in_s32 v \<Longrightarrow> no_digit_next rest \<Longrightarrow> scan_field w (w @ show_int v @ rest) = Some v"
  by (simp add: scan_field_def sscanf_def)

lemma scan_field_hit_end: "in_s32 v \<Longrightarrow> scan_field w (w @ show_int v) = Some v"
  using scan_field_hit [of v "[]" w] by simp

lemma scan_field_other [simp]:
  "scan_field ''cpu:'' (CHR ''m'' # s) = None" "scan_field ''cpu:'' (CHR ''g'' # s) = None"
  "scan_field ''mem:'' (CHR ''g'' # s) = None"
  by (simp_all add: scan_field_def sscanf_def lits_def)

lemma msg_announce_words:
  assumes "announce_ok m"
  shows "msg_announce m = ''ANNOUNCE'' @ concat (map (\<lambda>v. '' '' @ v) (announce_words m))"
    and "length (msg_announce m) \<le> 255"
proof -
  let ?s = "''ANNOUNCE '' @ show_int (an_puerto m) @ '' cpu:'' @ show_int (an_cpu m)
     @ '' mem:'' @ show_int (an_mem m) @ '' gpu:'' @ show_int (an_gpu m) @ [NL]"
  have "length ?s \<le> 255"
    using assms length_show_int [of "an_puerto m"] length_show_int [of "an_cpu m"]
      length_show_int [of "an_mem m"] length_show_int [of "an_gpu m"] by simp
  then have "msg_announce m = ?s" by (simp add: msg_announce_def snprintf_def)
  with \<open>length ?s \<le> 255\<close> show "length (msg_announce m) \<le> 255"
    and "msg_announce m = ''ANNOUNCE'' @ concat (map (\<lambda>v. '' '' @ v) (announce_words m))"
    by (simp_all add: announce_words_def)
qed

text \<open>
  The datagram an agent broadcasts is understood by every agent that receives it:
  port and resources arrive unchanged, as long as no resource is the sentinel -1.
\<close>

theorem parse_announce_roundtrip:
  assumes "announce_ok m"
  shows "parse_announce (msg_announce m) = Valido m"
proof -
  have "tokens (msg_announce m) = ''ANNOUNCE'' # announce_words m"
    unfolding msg_announce_words(1) [OF assms]
    by (rule tokens_words) (auto simp: announce_words_def)
  moreover have "strncpy_field 256 (msg_announce m) = msg_announce m"
    using msg_announce_words(2) [OF assms] by (simp add: strncpy_field_id)
  moreover have "scan_field ''cpu:'' (''cpu:'' @ show_int (an_cpu m)) = Some (an_cpu m)"
    "scan_field ''mem:'' (''mem:'' @ show_int (an_mem m)) = Some (an_mem m)"
    "scan_field ''gpu:'' (''gpu:'' @ show_int (an_gpu m) @ [NL]) = Some (an_gpu m)"
    using assms scan_field_hit_end [of "an_cpu m" "''cpu:''"] scan_field_hit_end [of "an_mem m" "''mem:''"]
      scan_field_hit [of "an_gpu m" "[NL]" "''gpu:''"] by simp_all
  ultimately show ?thesis
    using assms by (simp add: parse_announce_def announce_words_def sscanf_def)
qed

theorem parse_announce_roundtrip_witness:
  "announce_ok \<lparr>an_puerto = 8000, an_cpu = 4, an_mem = 8192, an_gpu = 1\<rparr>
   \<and> parse_announce (msg_announce \<lparr>an_puerto = 8000, an_cpu = 4, an_mem = 8192, an_gpu = 1\<rparr>)
     = Valido \<lparr>an_puerto = 8000, an_cpu = 4, an_mem = 8192, an_gpu = 1\<rparr>"
proof -
  have h: "announce_ok \<lparr>an_puerto = 8000, an_cpu = 4, an_mem = 8192, an_gpu = 1\<rparr>"
    by (simp add: in_s32_def)
  show ?thesis using h parse_announce_roundtrip [OF h] by simp
qed



end
