(* ===== verification/Connection.thy ===== *)
theory Connection
  imports C_Lib
begin

text \<open>
  \<open>connection_t\<close> of \<^verbatim>\<open>server.h\<close> and the functions of \<^verbatim>\<open>server.c\<close> that work on
  the buffers of one connection. \<open>read_buf\<close> holds the first \<open>read_pos\<close> bytes of the C
  array and \<open>write_buf\<close> the first \<open>write_len\<close>, so both counters are lengths; bytes beyond
  them are never read. \<open>interest\<close> is the kernel's side: the events the epoll instance is
  currently asked to report for the descriptor. Whether an \<open>epoll_ctl\<close> call succeeds is
  the kernel's answer, a function of the descriptor that stands for the epoll instance.
\<close>

section \<open>Types\<close>

datatype connection_type_t =
    CONN_TCP_PUBLIC_LISTEN | CONN_TCP_LOCAL_LISTEN | CONN_UDP_DISCOVERY
  | CONN_TCP_CLIENT_REMOTE | CONN_TCP_CLIENT_LOCAL | CONN_TCP_OUTGOING

record ep_mask =
  want_in :: bool
  want_out :: bool

type_synonym epoll = "int \<Rightarrow> bool"

record connection_t =
  fd :: int
  ctype :: connection_type_t
  read_buf :: string
  write_buf :: string
  write_pos :: nat
  in_handler :: bool
  interest :: ep_mask

abbreviation BUFF_SIZE :: nat where "BUFF_SIZE \<equiv> 1024"

abbreviation read_pos :: "connection_t \<Rightarrow> nat" where "read_pos c \<equiv> length (read_buf c)"
abbreviation write_len :: "connection_t \<Rightarrow> nat" where "write_len c \<equiv> length (write_buf c)"

text \<open>The fields the three places that create a connection set.\<close>

definition new_connection :: "int \<Rightarrow> connection_type_t \<Rightarrow> ep_mask \<Rightarrow> connection_t" where
  "new_connection client_fd type ev = \<lparr>fd = client_fd, ctype = type, read_buf = [], write_buf = [],
     write_pos = 0, in_handler = False, interest = ev\<rparr>"

section \<open>Operations\<close>

definition conn_uses_oneshot :: "connection_t \<Rightarrow> bool" where
  "conn_uses_oneshot conn \<longleftrightarrow> ctype conn = CONN_TCP_CLIENT_REMOTE
     \<or> ctype conn = CONN_TCP_CLIENT_LOCAL \<or> ctype conn = CONN_TCP_OUTGOING"

text \<open>The result is False where the code returns -1.\<close>

definition rearm_conn :: "epoll \<Rightarrow> connection_t \<Rightarrow> bool \<times> connection_t" where
  "rearm_conn epfd conn = (let c = conn\<lparr>in_handler := False\<rparr> in
     if epfd (fd conn) then (True, c\<lparr>interest := \<lparr>want_in = True, want_out = 0 < write_len c\<rparr>\<rparr>)
     else (False, c))"

definition enqueue_write :: "epoll \<Rightarrow> connection_t \<Rightarrow> string \<Rightarrow> connection_t" where
  "enqueue_write epfd conn msg =
     (if write_len conn + length msg \<ge> BUFF_SIZE then conn
      else let c = conn\<lparr>write_buf := write_buf conn @ msg\<rparr> in
        if \<not> in_handler c \<and> epfd (fd c) then c\<lparr>interest := \<lparr>want_in = True, want_out = True\<rparr>\<rparr>
        else c)"

text \<open>The outcome of \<open>write\<close>: an error with \<open>errno\<close> (is it EAGAIN?) or the bytes taken.\<close>

datatype write_result = WriteError bool | Written nat

text \<open>
  \<open>handle_tcp_write\<close> up to the destruction of the connection: \<open>None\<close> is the return of -1
  after a write error, which disconnects.
\<close>

definition tcp_write :: "write_result \<Rightarrow> connection_t \<Rightarrow> connection_t option" where
  "tcp_write res conn = (let pending_bytes = write_len conn - write_pos conn in
     if pending_bytes = 0 then Some conn
     else (case res of
         WriteError again \<Rightarrow> if again then Some conn else None
       | Written n \<Rightarrow> (let pos = write_pos conn + n in
           if pos = write_len conn then Some (conn\<lparr>write_pos := 0, write_buf := []\<rparr>)
           else Some (conn\<lparr>write_pos := pos\<rparr>))))"

section \<open>Invariant\<close>

definition pending_out :: "connection_t \<Rightarrow> string" where
  "pending_out c = drop (write_pos c) (write_buf c)"

definition conn_ok :: "connection_t \<Rightarrow> bool" where
  "conn_ok c \<longleftrightarrow> read_pos c < BUFF_SIZE \<and> write_len c < BUFF_SIZE \<and> write_pos c \<le> write_len c
     \<and> (write_pos c = write_len c \<longrightarrow> write_len c = 0)"

lemma new_connection_ok [simp]: "conn_ok (new_connection f t ev)"
  by (simp add: conn_ok_def new_connection_def)

lemma enqueue_write_ok: "conn_ok c \<Longrightarrow> conn_ok (enqueue_write ep c msg)"
  by (auto simp: conn_ok_def enqueue_write_def Let_def)

lemma enqueue_write_fields [simp]:
  "fd (enqueue_write ep c msg) = fd c" "ctype (enqueue_write ep c msg) = ctype c"
  "read_buf (enqueue_write ep c msg) = read_buf c" "in_handler (enqueue_write ep c msg) = in_handler c"
  "write_pos (enqueue_write ep c msg) = write_pos c"
  by (simp_all add: enqueue_write_def Let_def)

text \<open>\<open>write\<close> takes at least one and at most the bytes it was offered.\<close>

definition write_result_ok :: "connection_t \<Rightarrow> write_result \<Rightarrow> bool" where
  "write_result_ok c res = (case res of WriteError _ \<Rightarrow> True
     | Written n \<Rightarrow> 0 < n \<and> n \<le> write_len c - write_pos c)"

lemma tcp_write_ok: "conn_ok c \<Longrightarrow> write_result_ok c res \<Longrightarrow> tcp_write res c = Some c' \<Longrightarrow> conn_ok c'"
  by (auto simp: conn_ok_def tcp_write_def Let_def write_result_ok_def
      split: write_result.splits if_splits)

text \<open>A descriptor nobody handles has its write event requested while there are bytes to send.\<close>

definition wakeup_ok :: "connection_t \<Rightarrow> bool" where
  "wakeup_ok c \<longleftrightarrow> in_handler c \<or> (0 < write_len c \<longrightarrow> want_out (interest c))"

definition conn_fit :: "epoll \<Rightarrow> connection_t \<Rightarrow> bool" where
  "conn_fit ep c \<longleftrightarrow> conn_ok c \<and> ((\<forall>f. ep f) \<longrightarrow> wakeup_ok c)"

lemma new_connection_fit [simp]: "conn_fit ep (new_connection f t ev)"
  by (simp add: conn_fit_def wakeup_ok_def) (simp add: new_connection_def)

lemma enqueue_write_fit: "conn_fit ep c \<Longrightarrow> conn_fit ep (enqueue_write ep c msg)"
  using enqueue_write_ok by (auto simp: conn_fit_def wakeup_ok_def enqueue_write_def Let_def)

lemma conn_fit_ctype [simp]: "conn_fit ep (c\<lparr>ctype := t\<rparr>) \<longleftrightarrow> conn_fit ep c"
  by (simp add: conn_fit_def conn_ok_def wakeup_ok_def)

lemma rearm_conn_fit: "conn_ok c \<Longrightarrow> rearm_conn ep c = (True, c') \<Longrightarrow> conn_fit ep c'"
  by (auto simp: conn_fit_def wakeup_ok_def rearm_conn_def conn_ok_def Let_def split: if_splits)

section \<open>Properties\<close>



text \<open>
  No wake-up is lost: once a handler has finished and rearmed the descriptor, the
  kernel is asked to report writability exactly when there are bytes to send, and a message
  enqueued while no handler runs asks for it at once.
\<close>

theorem no_lost_wakeup:
  assumes "\<And>f. ep f"
  shows "wakeup_ok (snd (rearm_conn ep c)) \<and> (wakeup_ok c \<longrightarrow> wakeup_ok (enqueue_write ep c msg))
    \<and> want_out (interest (snd (rearm_conn ep c))) = (write_len c > 0)"
  using assms by (auto simp: wakeup_ok_def rearm_conn_def enqueue_write_def Let_def)

theorem no_lost_wakeup_witness:
  "wakeup_ok (enqueue_write (\<lambda>_. True) (new_connection 7 CONN_TCP_CLIENT_LOCAL \<lparr>want_in = True, want_out = False\<rparr>) ''X'')"
  using no_lost_wakeup [of "\<lambda>_. True" "new_connection 7 CONN_TCP_CLIENT_LOCAL \<lparr>want_in = True, want_out = False\<rparr>" "''X''"]
  by (simp add: wakeup_ok_def new_connection_def)

end
