(* ===== verification/Tabla_Jobs.thy ===== *)
theory Tabla_Jobs
  imports Tabla_Conns Messages Connection
begin

text \<open>
  The table of jobs, \<^verbatim>\<open>agente_c/src/tabla_jobs.c\<close>. A job keeps the allocations it
  has (granted or queued here, granted elsewhere) and the requests it still waits for. The
  bucket of a job is \<^verbatim>\<open>job_id % 71\<close> stored in an \<open>unsigned\<close>: for a negative id that
  is not a multiple of 71 it is beyond the array, and every operation that indexes the
  array then faults (\<open>None\<close>). The part of \<open>tabla_jobs_remove\<close> that releases resources is
  in \<open>Resource_Manager\<close>, with the function it calls back.
\<close>

section \<open>Types\<close>

datatype alloc_type_t = REMOTE | LOCAL

datatype result_t = RM_GRANTED | RM_QUEUED | RM_DENIED

record Allocation =
  a_name :: resource_t
  a_amount :: int
  a_type :: alloc_type_t
  a_ip :: string
  a_job_id :: int
  a_result :: result_t
  a_conn :: conn_ptr

text \<open>\<open>o_msg = None\<close>: the array \<open>msg\<close> was not initialised.\<close>

record OutRequest =
  o_ip :: string
  o_conn :: conn_ptr
  o_tipo :: resource_t
  o_amount :: int
  o_msg :: "string option"

record Job =
  j_job_id :: int
  j_conn :: conn_ptr
  confirmadas :: "Allocation list"
  pendientes :: "OutRequest list"

type_synonym TablaJobs = "Job buckets"

section \<open>Operations\<close>

text \<open>The address of an \<open>OutRequest\<close> has fifteen bytes, one less than elsewhere.\<close>

definition crear_outrequest ::
  "string \<Rightarrow> conn_ptr \<Rightarrow> resource_t \<Rightarrow> int \<Rightarrow> string option \<Rightarrow> OutRequest" where
  "crear_outrequest ip conn type amount msg = \<lparr>o_ip = strncpy_field 15 ip, o_conn = conn,
     o_tipo = type, o_amount = amount, o_msg = map_option (snprintf BUFF_SIZE) msg\<rparr>"

definition crear_allocation ::
  "resource_t \<Rightarrow> int \<Rightarrow> alloc_type_t \<Rightarrow> string \<Rightarrow> int \<Rightarrow> result_t \<Rightarrow> conn_ptr \<Rightarrow> Allocation" where
  "crear_allocation type amount alloc_type ip job_id result conn = \<lparr>a_name = type, a_amount = amount,
     a_type = alloc_type, a_ip = strncpy_field 16 ip, a_job_id = job_id, a_result = result, a_conn = conn\<rparr>"

definition buscar_job_tabla :: "Job list \<Rightarrow> int \<Rightarrow> bool" where
  "buscar_job_tabla j job_id = list_ex (\<lambda>job. j_job_id job = job_id) j"

definition job_idx :: "int \<Rightarrow> nat option" where
  "job_idx job_id = (let u = nat (c_rem job_id 71 mod 4294967296) in
     if u < TAM_TABLA then Some u else None)"

definition tabla_jobs_init :: TablaJobs where
  "tabla_jobs_init = empty_buckets"

definition tabla_jobs_destroy :: "TablaJobs \<Rightarrow> TablaJobs" where
  "tabla_jobs_destroy t = map (\<lambda>_. []) t"

definition tabla_jobs_buscar_por_id :: "TablaJobs \<Rightarrow> int \<Rightarrow> Job option option" where
  "tabla_jobs_buscar_por_id t job_id = (case job_idx job_id of
      None \<Rightarrow> None
    | Some idx \<Rightarrow> Some (find (\<lambda>job. j_job_id job = job_id) (t ! idx)))"

definition tabla_jobs_get_id :: "TablaJobs \<Rightarrow> int \<Rightarrow> bool option" where
  "tabla_jobs_get_id t job_id = (case job_idx job_id of
      None \<Rightarrow> None
    | Some idx \<Rightarrow> Some (buscar_job_tabla (t ! idx) job_id))"

definition tabla_jobs_get_conn :: "TablaJobs \<Rightarrow> int \<Rightarrow> conn_ptr option option" where
  "tabla_jobs_get_conn t job_id = (case job_idx job_id of
      None \<Rightarrow> None
    | Some idx \<Rightarrow> Some (map_option j_conn (find (\<lambda>job. j_job_id job = job_id) (t ! idx))))"

definition tabla_jobs_insertar_job :: "TablaJobs \<Rightarrow> Job \<Rightarrow> TablaJobs option" where
  "tabla_jobs_insertar_job t j = (case job_idx (j_job_id j) of
      None \<Rightarrow> None
    | Some idx \<Rightarrow> Some (t[idx := j # t ! idx]))"

definition tabla_jobs_extract_by_id :: "TablaJobs \<Rightarrow> int \<Rightarrow> (Job option \<times> TablaJobs) option" where
  "tabla_jobs_extract_by_id t job_id = (case job_idx job_id of
      None \<Rightarrow> None
    | Some idx \<Rightarrow> Some (find (\<lambda>job. j_job_id job = job_id) (t ! idx),
        t[idx := remove_first (\<lambda>job. j_job_id job = job_id) (t ! idx)]))"

text \<open>\<open>tabla_jobs_delete_by_conn\<close>: the list of allocations grows at its head, job by job.\<close>

fun delete_by_conn_loop :: "conn_ptr \<Rightarrow> Job list \<Rightarrow> Allocation list \<Rightarrow> Job list \<times> Allocation list" where
  "delete_by_conn_loop conn [] allocs = ([], allocs)"
| "delete_by_conn_loop conn (job # js) allocs =
     (if j_conn job = conn then delete_by_conn_loop conn js (confirmadas job @ allocs)
      else (case delete_by_conn_loop conn js allocs of (js', allocs') \<Rightarrow> (job # js', allocs')))"

fun delete_by_conn_buckets :: "conn_ptr \<Rightarrow> TablaJobs \<Rightarrow> Allocation list \<Rightarrow> TablaJobs \<times> Allocation list" where
  "delete_by_conn_buckets conn [] allocs = ([], allocs)"
| "delete_by_conn_buckets conn (b # bs) allocs =
     (case delete_by_conn_loop conn b allocs of (b', allocs') \<Rightarrow>
       (case delete_by_conn_buckets conn bs allocs' of (bs', allocs'') \<Rightarrow> (b' # bs', allocs'')))"

definition tabla_jobs_delete_by_conn :: "TablaJobs \<Rightarrow> conn_ptr \<Rightarrow> Allocation list \<times> TablaJobs" where
  "tabla_jobs_delete_by_conn t conn = prod.swap (delete_by_conn_buckets conn t [])"

text \<open>The copies are pushed at the head of the list, so the last request found comes first.\<close>

definition copy_outrequest :: "OutRequest \<Rightarrow> OutRequest" where
  "copy_outrequest req = crear_outrequest (o_ip req) (o_conn req) (o_tipo req) (o_amount req) (o_msg req)"

definition tabla_jobs_get_pendientes_by_conn :: "TablaJobs \<Rightarrow> conn_ptr \<Rightarrow> OutRequest list" where
  "tabla_jobs_get_pendientes_by_conn t conn =
     rev (map copy_outrequest (filter (\<lambda>req. o_conn req = conn) (concat (map pendientes (concat t)))))"

definition job_confirmar :: "Job \<Rightarrow> string \<Rightarrow> int \<Rightarrow> bool \<times> Job" where
  "job_confirmar job ip job_id = (case find (\<lambda>sal. o_ip sal = ip) (pendientes job) of
      None \<Rightarrow> (False, job)
    | Some sal \<Rightarrow> (True, job\<lparr>
        pendientes := remove_first (\<lambda>sal. o_ip sal = ip) (pendientes job),
        confirmadas := crear_allocation (o_tipo sal) (o_amount sal) REMOTE (o_ip sal) job_id RM_GRANTED (o_conn sal)
          # confirmadas job\<rparr>))"

text \<open>Writing through the pointer to the first job with an id.\<close>

definition update_job :: "TablaJobs \<Rightarrow> nat \<Rightarrow> int \<Rightarrow> (Job \<Rightarrow> Job) \<Rightarrow> TablaJobs" where
  "update_job t idx job_id f = t[idx := update_first (\<lambda>job. j_job_id job = job_id) f (t ! idx)]"

definition tabla_jobs_confirmar :: "TablaJobs \<Rightarrow> string \<Rightarrow> int \<Rightarrow> (bool \<times> TablaJobs) option" where
  "tabla_jobs_confirmar t ip job_id = (case job_idx job_id of
      None \<Rightarrow> None
    | Some idx \<Rightarrow> (case find (\<lambda>job. j_job_id job = job_id) (t ! idx) of
          None \<Rightarrow> Some (False, t)
        | Some nodo \<Rightarrow> (case find (\<lambda>sal. o_ip sal = ip) (pendientes nodo) of
              None \<Rightarrow> Some (False, t)
            | Some sal \<Rightarrow> Some (True, update_job t idx job_id (\<lambda>job. job\<lparr>
                pendientes := remove_first (\<lambda>sal. o_ip sal = ip) (pendientes job),
                confirmadas := crear_allocation (o_tipo sal) (o_amount sal) REMOTE (o_ip sal) job_id RM_GRANTED (o_conn sal)
                  # confirmadas job\<rparr>)))))"

definition job_complete :: "Job \<Rightarrow> bool" where
  "job_complete job \<longleftrightarrow> \<not> list_ex (\<lambda>s. a_type s = LOCAL \<and> a_result s = RM_QUEUED) (confirmadas job)
     \<and> pendientes job = []"

definition tabla_jobs_verificar :: "TablaJobs \<Rightarrow> int \<Rightarrow> bool option" where
  "tabla_jobs_verificar t job_id = (case job_idx job_id of
      None \<Rightarrow> None
    | Some idx \<Rightarrow> Some (case find (\<lambda>job. j_job_id job = job_id) (t ! idx) of
          None \<Rightarrow> False
        | Some job \<Rightarrow> job_complete job))"

text \<open>\<open>tabla_jobs_extract_by_remote_conn\<close>: step 1 and step 2 on one job.\<close>

definition drop_remote_allocs :: "conn_ptr \<Rightarrow> Job \<Rightarrow> Job" where
  "drop_remote_allocs conn job = job\<lparr>confirmadas :=
     filter (\<lambda>a. \<not> (a_type a = REMOTE \<and> a_conn a = conn)) (confirmadas job)\<rparr>"

definition job_affected :: "conn_ptr \<Rightarrow> Job \<Rightarrow> bool" where
  "job_affected conn job \<longleftrightarrow> j_conn job = conn \<or> list_ex (\<lambda>out. o_conn out = conn) (pendientes job)
     \<or> (confirmadas job = [] \<and> pendientes job = [])"

fun extract_loop :: "conn_ptr \<Rightarrow> Job list \<Rightarrow> Job list \<Rightarrow> Job list \<times> Job list" where
  "extract_loop conn [] extraidos = ([], extraidos)"
| "extract_loop conn (job # js) extraidos = (let job' = drop_remote_allocs conn job in
     if job_affected conn job' then extract_loop conn js (job' # extraidos)
     else (case extract_loop conn js extraidos of (js', ex) \<Rightarrow> (job' # js', ex)))"

fun extract_buckets :: "conn_ptr \<Rightarrow> TablaJobs \<Rightarrow> Job list \<Rightarrow> TablaJobs \<times> Job list" where
  "extract_buckets conn [] extraidos = ([], extraidos)"
| "extract_buckets conn (b # bs) extraidos = (case extract_loop conn b extraidos of (b', ex) \<Rightarrow>
     (case extract_buckets conn bs ex of (bs', ex') \<Rightarrow> (b' # bs', ex')))"

definition tabla_jobs_extract_by_remote_conn :: "TablaJobs \<Rightarrow> conn_ptr \<Rightarrow> Job list \<times> TablaJobs" where
  "tabla_jobs_extract_by_remote_conn t conn = prod.swap (extract_buckets conn t [])"

definition tabla_jobs_cambio_alloc :: "TablaJobs \<Rightarrow> int \<Rightarrow> conn_ptr \<Rightarrow> resource_t \<Rightarrow> TablaJobs option" where
  "tabla_jobs_cambio_alloc t job_id conn tipo = (case job_idx job_id of
      None \<Rightarrow> None
    | Some idx \<Rightarrow> Some (update_job t idx job_id (\<lambda>job. job\<lparr>confirmadas :=
        update_first (\<lambda>a. a_type a = LOCAL \<and> a_conn a = conn \<and> a_name a = tipo)
          (\<lambda>a. a\<lparr>a_result := RM_GRANTED\<rparr>) (confirmadas job)\<rparr>)))"

section \<open>The bucket of a job\<close>

lemma job_idx_less: "job_idx j = Some i \<Longrightarrow> i < TAM_TABLA"
  by (auto simp: job_idx_def Let_def split: if_splits)

lemma job_idx_nonneg: "0 \<le> j \<Longrightarrow> job_idx j = Some (nat (j mod 71))"
proof -
  assume "0 \<le> j"
  moreover have "j mod 71 < 71" "0 \<le> j mod 71" by simp_all
  ultimately show ?thesis by (simp add: job_idx_def c_rem_nonneg Let_def nat_less_iff)
qed

lemma job_idx_negative: "j < 0 \<Longrightarrow> \<not> 71 dvd j \<Longrightarrow> job_idx j = None"
proof -
  assume j: "j < 0" "\<not> 71 dvd j"
  have "\<bar>j\<bar> mod 71 \<noteq> 0" using j(2) by (simp add: mod_eq_0_iff_dvd)
  moreover have "0 \<le> \<bar>j\<bar> mod 71" "\<bar>j\<bar> mod 71 < 71" by simp_all
  ultimately have r: "c_rem j 71 < 0" "-71 < c_rem j 71"
    using j(1) by (simp_all add: c_rem_def)
  then have "c_rem j 71 mod 4294967296 = c_rem j 71 + 4294967296"
    using mod_pos_pos_trivial [of "c_rem j 71 + 4294967296" 4294967296] by simp
  with r show ?thesis by (simp add: job_idx_def Let_def)
qed

section \<open>The table as a map\<close>

definition job_valid :: "int \<Rightarrow> bool" where
  "job_valid j \<longleftrightarrow> job_idx j \<noteq> None"

definition job_bucket :: "int \<Rightarrow> nat" where
  "job_bucket j = the (job_idx j)"

definition jobs_ok :: "TablaJobs \<Rightarrow> bool" where
  "jobs_ok t \<longleftrightarrow> buckets_ok job_valid job_bucket j_job_id t \<and> (\<forall>b\<in>set t. distinct (map j_job_id b))"

definition jobs_map :: "TablaJobs \<Rightarrow> int \<rightharpoonup> Job" where
  "jobs_map t j = (if job_valid j then find (\<lambda>job. j_job_id job = j) (t ! job_bucket j) else None)"

interpretation jobs: chained_table job_valid job_bucket j_job_id
  by unfold_locales (auto simp: job_valid_def job_bucket_def intro: job_idx_less)

lemma job_valid_nonneg: "0 \<le> j \<Longrightarrow> job_valid j"
  by (simp add: job_valid_def job_idx_nonneg)

lemma job_idx_bucket: "job_valid j \<Longrightarrow> job_idx j = Some (job_bucket j)"
  by (auto simp: job_valid_def job_bucket_def)

lemma jobs_ok_length [simp]: "jobs_ok t \<Longrightarrow> length t = TAM_TABLA"
  by (simp add: jobs_ok_def buckets_ok_def)

lemma jobs_map_Some: "jobs_map t j = Some job \<Longrightarrow> j_job_id job = j \<and> job_valid j"
  by (auto simp: jobs_map_def dest: find_SomeD split: if_splits)

lemma find_distinct: "distinct (map f xs) \<Longrightarrow> x \<in> set xs \<Longrightarrow> find (\<lambda>y. f y = f x) xs = Some x"
  by (induction xs) (auto simp: rev_image_eqI)

lemma jobs_map_entries:
  assumes "jobs_ok t"
  shows "job \<in> set (entries t) \<longleftrightarrow> jobs_map t (j_job_id job) = Some job"
proof -
  have ok: "buckets_ok job_valid job_bucket j_job_id t" using assms by (simp add: jobs_ok_def)
  have d: "distinct (map j_job_id (t ! job_bucket (j_job_id job)))" if "job_valid (j_job_id job)"
    using assms jobs.idx_less [OF that] by (auto simp: jobs_ok_def)
  show ?thesis
    unfolding jobs.entry_bucket [OF ok] jobs_map_def
    using find_distinct [OF d] by (auto dest: find_SomeD)
qed

lemma jobs_ok_init: "jobs_ok tabla_jobs_init"
  by (auto simp: jobs_ok_def tabla_jobs_init_def jobs.empty_ok) (simp add: empty_buckets_def)

lemma jobs_map_init [simp]: "jobs_map tabla_jobs_init = Map.empty"
  by (auto simp: jobs_map_def tabla_jobs_init_def jobs.idx_less)

lemma buscar_map: "job_valid j \<Longrightarrow> tabla_jobs_buscar_por_id t j = Some (jobs_map t j)"
  by (simp add: tabla_jobs_buscar_por_id_def jobs_map_def job_idx_bucket)

lemma get_conn_map: "job_valid j \<Longrightarrow> tabla_jobs_get_conn t j = Some (map_option j_conn (jobs_map t j))"
  by (simp add: tabla_jobs_get_conn_def jobs_map_def job_idx_bucket)

lemma get_id_map: "job_valid j \<Longrightarrow> tabla_jobs_get_id t j = Some (jobs_map t j \<noteq> None)"
  by (auto simp: tabla_jobs_get_id_def jobs_map_def job_idx_bucket buscar_job_tabla_def list_ex_iff find_None_iff)

lemma verificar_map: "job_valid j \<Longrightarrow> tabla_jobs_verificar t j =
  Some (case jobs_map t j of None \<Rightarrow> False | Some job \<Rightarrow> job_complete job)"
  by (simp add: tabla_jobs_verificar_def jobs_map_def job_idx_bucket)

lemma update_bucket_distinct:
  assumes "\<forall>b\<in>set t. distinct (map key b)" "i < length t" "distinct (map key b)"
  shows "\<forall>b\<in>set (t[i := b]). distinct (map key b)"
  using assms set_update_subset_insert [of t i b] by blast

lemma insertar_map:
  assumes "jobs_ok t" "job_valid (j_job_id job)" "jobs_map t (j_job_id job) = None"
  shows "\<exists>t'. tabla_jobs_insertar_job t job = Some t' \<and> jobs_ok t'
    \<and> jobs_map t' = (jobs_map t)(j_job_id job \<mapsto> job)"
proof -
  let ?i = "job_bucket (j_job_id job)"
  let ?t = "t[?i := job # t ! ?i]"
  have ok: "buckets_ok job_valid job_bucket j_job_id t" using assms(1) by (simp add: jobs_ok_def)
  have i: "?i < length t" using jobs.idx_less [OF assms(2)] assms(1) by simp
  have "j_job_id job \<notin> set (map j_job_id (t ! ?i))"
    using assms(2,3) by (auto simp: jobs_map_def find_None_iff)
  moreover have "distinct (map j_job_id (t ! ?i))" using assms(1) i by (simp add: jobs_ok_def)
  ultimately have d: "distinct (map j_job_id (job # t ! ?i))" by simp
  have "jobs_ok ?t"
    using jobs.insert_ok [OF ok assms(2) refl] assms(1) update_bucket_distinct [OF _ i d]
    by (simp add: jobs_ok_def)
  moreover have "jobs_map ?t = (jobs_map t)(j_job_id job \<mapsto> job)"
    using jobs.find_insert [OF ok assms(2) refl] assms(2) by (auto simp: jobs_map_def)
  ultimately show ?thesis
    using assms(2) by (simp add: tabla_jobs_insertar_job_def job_idx_bucket)
qed

lemma find_remove_same: "distinct (map f xs) \<Longrightarrow> find (\<lambda>x. f x = k) (remove_first (\<lambda>x. f x = k) xs) = None"
  by (simp add: find_None_iff set_remove_first_distinct)

lemma distinct_remove_first: "distinct (map f xs) \<Longrightarrow> distinct (map f (remove_first P xs))"
  by (induction xs) (auto dest: in_remove_firstD)

lemma extract_map:
  assumes "jobs_ok t" "job_valid j"
  shows "\<exists>t'. tabla_jobs_extract_by_id t j = Some (jobs_map t j, t') \<and> jobs_ok t'
    \<and> jobs_map t' = (jobs_map t)(j := None)"
proof -
  let ?i = "job_bucket j" and ?P = "\<lambda>job. j_job_id job = j"
  let ?t = "t[?i := remove_first ?P (t ! ?i)]"
  have ok: "buckets_ok job_valid job_bucket j_job_id t" using assms(1) by (simp add: jobs_ok_def)
  have i: "?i < length t" using jobs.idx_less [OF assms(2)] assms(1) by simp
  have d: "distinct (map j_job_id (t ! ?i))" using assms(1) i by (simp add: jobs_ok_def)
  have "jobs_ok ?t"
    using jobs.remove_ok [OF ok] update_bucket_distinct [OF _ i distinct_remove_first [OF d]] assms(1)
    by (simp add: jobs_ok_def)
  moreover have "jobs_map ?t k = ((jobs_map t)(j := None)) k" for k
  proof (cases "k = j")
    case True
    then show ?thesis using find_remove_same [OF d] i by (simp add: jobs_map_def)
  next
    case False
    then show ?thesis
      using i jobs.find_remove_other [of k j] by (cases "job_bucket k = ?i") (auto simp: jobs_map_def)
  qed
  ultimately show ?thesis
    using assms(2) by (auto simp: tabla_jobs_extract_by_id_def job_idx_bucket jobs_map_def)
qed

lemma update_job_map:
  assumes "jobs_ok t" "job_valid j" "\<And>job. j_job_id (f job) = j_job_id job"
  shows "jobs_ok (update_job t (job_bucket j) j f)
    \<and> jobs_map (update_job t (job_bucket j) j f) = (jobs_map t)(j := map_option f (jobs_map t j))"
proof
  let ?i = "job_bucket j"
  have ok: "buckets_ok job_valid job_bucket j_job_id t" using assms(1) by (simp add: jobs_ok_def)
  have i: "?i < length t" using jobs.idx_less [OF assms(2)] assms(1) by simp
  have d: "distinct (map j_job_id (update_first (\<lambda>job. j_job_id job = j) f (t ! ?i)))"
    using assms i by (simp add: jobs_ok_def map_key_update_first)
  show "jobs_ok (update_job t ?i j f)"
    using jobs.update_ok [OF ok, of f, OF assms(3)] update_bucket_distinct [OF _ i d] assms(1)
    by (simp add: jobs_ok_def update_job_def)
  show "jobs_map (update_job t ?i j f) = (jobs_map t)(j := map_option f (jobs_map t j))"
  proof
    fix k
    show "jobs_map (update_job t ?i j f) k = ((jobs_map t)(j := map_option f (jobs_map t j))) k"
      using i jobs.find_update [of f k j "t ! ?i", OF assms(3)] assms(2)
      by (cases "job_bucket k = ?i") (auto simp: jobs_map_def update_job_def)
  qed
qed

section \<open>Extracting the jobs of a connection\<close>

lemma extract_loop_eq: "extract_loop conn js ex =
  (filter (\<lambda>j. \<not> job_affected conn j) (map (drop_remote_allocs conn) js),
   rev (filter (job_affected conn) (map (drop_remote_allocs conn) js)) @ ex)"
  by (induction js arbitrary: ex) (simp_all add: Let_def)

lemma extract_buckets_eq: "extract_buckets conn t ex =
  (map (\<lambda>b. filter (\<lambda>j. \<not> job_affected conn j) (map (drop_remote_allocs conn) b)) t,
   rev (filter (job_affected conn) (map (drop_remote_allocs conn) (concat t))) @ ex)"
  by (induction t arbitrary: ex) (simp_all add: extract_loop_eq)

lemma drop_remote_allocs_id [simp]:
  "j_job_id (drop_remote_allocs conn job) = j_job_id job" "j_conn (drop_remote_allocs conn job) = j_conn job"
  "pendientes (drop_remote_allocs conn job) = pendientes job"
  by (simp_all add: drop_remote_allocs_def)

lemma find_filter_map:
  "distinct (map f xs) \<Longrightarrow> (\<And>x. f (g x) = f x) \<Longrightarrow>
   find (\<lambda>x. f x = k) (filter P (map g xs))
     = (case find (\<lambda>x. f x = k) xs of None \<Rightarrow> None | Some x \<Rightarrow> if P (g x) then Some (g x) else None)"
proof (induction xs)
  case (Cons x xs)
  show ?case
  proof (cases "f x = k")
    case True
    then have "find (\<lambda>x. f x = k) xs = None" using Cons.prems(1) by (auto simp: find_None_iff image_iff)
    with True Cons show ?thesis by simp
  next
    case False
    with Cons show ?thesis by (simp split: option.splits)
  qed
qed simp

lemma extract_by_conn_ok:
  assumes "jobs_ok t" "tabla_jobs_extract_by_remote_conn t conn = (lista, t')"
  shows "jobs_ok t'"
proof -
  have t': "t' = map (\<lambda>b. filter (\<lambda>j. \<not> job_affected conn j) (map (drop_remote_allocs conn) b)) t"
    using assms(2) by (auto simp: tabla_jobs_extract_by_remote_conn_def extract_buckets_eq)
  have "buckets_ok job_valid job_bucket j_job_id t'"
    using assms(1) unfolding jobs_ok_def t' by (elim conjE jobs.shrink_ok) auto
  moreover have "distinct (map j_job_id (filter P (map (drop_remote_allocs conn) b)))"
    if "b \<in> set t" for b P
  proof -
    have "map j_job_id (map (drop_remote_allocs conn) b) = map j_job_id b" by simp
    with assms(1) that show ?thesis by (metis distinct_map_filter jobs_ok_def)
  qed
  ultimately show ?thesis by (auto simp: jobs_ok_def t')
qed

lemma extract_by_conn_map:
  assumes "jobs_ok t" "tabla_jobs_extract_by_remote_conn t conn = (lista, t')"
  shows "jobs_map t' j = (case jobs_map t j of None \<Rightarrow> None
    | Some job \<Rightarrow> if job_affected conn (drop_remote_allocs conn job) then None
                   else Some (drop_remote_allocs conn job))"
proof (cases "job_valid j")
  case True
  have t': "t' = map (\<lambda>b. filter (\<lambda>j. \<not> job_affected conn j) (map (drop_remote_allocs conn) b)) t"
    using assms(2) by (auto simp: tabla_jobs_extract_by_remote_conn_def extract_buckets_eq)
  have i: "job_bucket j < length t" using jobs.idx_less [OF True] assms(1) by simp
  then have "distinct (map j_job_id (t ! job_bucket j))" using assms(1) by (simp add: jobs_ok_def)
  from find_filter_map [OF this, of "drop_remote_allocs conn" j "\<lambda>j. \<not> job_affected conn j"] True i
  show ?thesis by (auto simp: jobs_map_def t' split: option.splits)
qed (simp add: jobs_map_def)

lemma extract_by_conn_lista:
  assumes "jobs_ok t" "tabla_jobs_extract_by_remote_conn t conn = (lista, t')"
  shows "set lista = {drop_remote_allocs conn job | job. jobs_map t (j_job_id job) = Some job
    \<and> job_affected conn (drop_remote_allocs conn job)}"
proof -
  have "lista = rev (filter (job_affected conn) (map (drop_remote_allocs conn) (entries t)))"
    using assms(2) by (simp add: tabla_jobs_extract_by_remote_conn_def extract_buckets_eq entries_def)
  then have "set lista = {job' \<in> drop_remote_allocs conn ` set (entries t). job_affected conn job'}"
    by (simp only: set_rev set_filter set_map)
  then show ?thesis using jobs_map_entries [OF assms(1)] by auto
qed

section \<open>A predicate of every job of the table\<close>

definition tabla_all :: "(Job \<Rightarrow> bool) \<Rightarrow> TablaJobs \<Rightarrow> bool" where
  "tabla_all P t \<longleftrightarrow> length t = TAM_TABLA \<and> list_all P (entries t)"

lemma tabla_all_init: "tabla_all P tabla_jobs_init"
  by (simp add: tabla_all_def tabla_jobs_init_def)

lemma tabla_all_bucket: "tabla_all P t \<Longrightarrow> job_idx j = Some i \<Longrightarrow> i < length t \<and> (\<forall>job\<in>set (t ! i). P job)"
  using entries_Un_bucket [of i t] job_idx_less [of j i] by (auto simp: tabla_all_def list_all_iff)

lemma tabla_all_set: "tabla_all P t \<Longrightarrow> i < length t \<Longrightarrow> \<forall>job\<in>set b. P job \<Longrightarrow> tabla_all P (t[i := b])"
  using set_entries_update [of i t b] by (auto simp: tabla_all_def list_all_iff)

lemma tabla_all_update:
  assumes "tabla_all P t" "job_idx j = Some i" "\<And>job. P job \<Longrightarrow> P (f job)"
  shows "tabla_all P (update_job t i j f)"
  unfolding update_job_def using tabla_all_bucket [OF assms(1,2)] assms(3)
  by (intro tabla_all_set [OF assms(1)]) (auto dest!: set_update_first)

lemma tabla_all_insert: "tabla_all P t \<Longrightarrow> P job \<Longrightarrow> tabla_jobs_insertar_job t job = Some t' \<Longrightarrow> tabla_all P t'"
  using tabla_all_bucket [of P t "j_job_id job"]
  by (auto simp: tabla_jobs_insertar_job_def intro!: tabla_all_set split: option.splits)

lemma tabla_all_find: "tabla_all P t \<Longrightarrow> tabla_jobs_buscar_por_id t j = Some (Some job) \<Longrightarrow> P job"
  using tabla_all_bucket [of P t j] by (auto simp: tabla_jobs_buscar_por_id_def dest: find_SomeD split: option.splits)

lemma tabla_all_extract:
  assumes "tabla_all P t" "tabla_jobs_extract_by_id t j = Some (res, t')"
  shows "tabla_all P t'" "res = Some job \<Longrightarrow> P job"
  using assms tabla_all_bucket [OF assms(1), of j]
  by (auto simp: tabla_jobs_extract_by_id_def dest: find_SomeD in_remove_firstD intro!: tabla_all_set split: option.splits)

lemma tabla_all_extract_conn:
  assumes "tabla_all P t" "tabla_jobs_extract_by_remote_conn t conn = (lista, t')" "\<And>job. P job \<Longrightarrow> P (drop_remote_allocs conn job)"
  shows "tabla_all P t'" "\<forall>job\<in>set lista. P job"
  using assms by (auto simp: tabla_jobs_extract_by_remote_conn_def extract_buckets_eq tabla_all_def list_all_iff entries_def)

lemma tabla_all_cambio_alloc:
  assumes "tabla_all P t" "tabla_jobs_cambio_alloc t j conn r = Some t'"
    and "\<And>job. P job \<Longrightarrow> P (job\<lparr>confirmadas := update_first (\<lambda>a. a_type a = LOCAL \<and> a_conn a = conn \<and> a_name a = r)
      (\<lambda>a. a\<lparr>a_result := RM_GRANTED\<rparr>) (confirmadas job)\<rparr>)"
  shows "tabla_all P t'"
  using assms tabla_all_update [OF assms(1)] by (auto simp: tabla_jobs_cambio_alloc_def split: option.splits)

section \<open>The connections a job refers to\<close>

definition job_refs :: "Job \<Rightarrow> conn_ptr set" where
  "job_refs job = insert (j_conn job) (a_conn ` set (confirmadas job) \<union> o_conn ` set (pendientes job))"

definition jobs_refs :: "TablaJobs \<Rightarrow> conn_ptr set" where
  "jobs_refs t = (\<Union>job\<in>ran (jobs_map t). job_refs job)"

text \<open>A local allocation belongs to the connection that asked for the job.\<close>

definition job_local_ok :: "Job \<Rightarrow> bool" where
  "job_local_ok job \<longleftrightarrow> (\<forall>a\<in>set (confirmadas job). a_type a = LOCAL \<longrightarrow> a_conn a = j_conn job)"

definition jobs_local_ok :: "TablaJobs \<Rightarrow> bool" where
  "jobs_local_ok t \<longleftrightarrow> (\<forall>job\<in>ran (jobs_map t). job_local_ok job)"

lemma job_refsI:
  "jobs_map t j = Some job \<Longrightarrow> j_conn job \<in> jobs_refs t"
  "jobs_map t j = Some job \<Longrightarrow> a \<in> set (confirmadas job) \<Longrightarrow> a_conn a \<in> jobs_refs t"
  "jobs_map t j = Some job \<Longrightarrow> out \<in> set (pendientes job) \<Longrightarrow> o_conn out \<in> jobs_refs t"
  by (auto simp: jobs_refs_def job_refs_def ran_def)

lemma jobs_refs_upd:
  "jobs_map t' = (jobs_map t)(j \<mapsto> job) \<Longrightarrow> jobs_refs t' \<subseteq> jobs_refs t \<union> job_refs job"
  by (auto simp: jobs_refs_def ran_def split: if_splits)

lemma jobs_refs_del: "jobs_map t' = (jobs_map t)(j := None) \<Longrightarrow> jobs_refs t' \<subseteq> jobs_refs t"
  by (auto simp: jobs_refs_def ran_def split: if_splits)

lemma jobs_local_upd:
  "jobs_map t' = (jobs_map t)(j \<mapsto> job) \<Longrightarrow> jobs_local_ok t \<Longrightarrow> job_local_ok job \<Longrightarrow> jobs_local_ok t'"
  by (auto simp: jobs_local_ok_def ran_def split: if_splits)

lemma jobs_local_del: "jobs_map t' = (jobs_map t)(j := None) \<Longrightarrow> jobs_local_ok t \<Longrightarrow> jobs_local_ok t'"
  by (auto simp: jobs_local_ok_def ran_def split: if_splits)

lemma drop_remote_allocs_refs: "job_refs (drop_remote_allocs conn job) \<subseteq> job_refs job"
  by (auto simp: job_refs_def drop_remote_allocs_def)

lemma drop_remote_allocs_local: "job_local_ok job \<Longrightarrow> job_local_ok (drop_remote_allocs conn job)"
  by (auto simp: job_local_ok_def drop_remote_allocs_def)

text \<open>After the extraction nothing in the table refers to the connection any more.\<close>

lemma extract_by_conn_refs:
  assumes "jobs_ok t" "jobs_local_ok t" "tabla_jobs_extract_by_remote_conn t conn = (lista, t')"
  shows "jobs_refs t' \<subseteq> jobs_refs t - {conn}" "jobs_local_ok t'"
    and "\<forall>job\<in>set lista. job_refs job \<subseteq> jobs_refs t \<and> job_local_ok job"
proof -
  note map = extract_by_conn_map [OF assms(1,3)]
  have step: "\<exists>job. jobs_map t j = Some job \<and> job' = drop_remote_allocs conn job \<and> \<not> job_affected conn job'"
    if "jobs_map t' j = Some job'" for j job'
    using that unfolding map by (auto split: option.splits if_splits)
  have safe: "conn \<notin> job_refs (drop_remote_allocs conn job)"
    if "job_local_ok job" "\<not> job_affected conn (drop_remote_allocs conn job)" for job
    using that by (auto simp: job_refs_def job_affected_def drop_remote_allocs_def job_local_ok_def list_ex_iff)
      (metis alloc_type_t.exhaust)+
  show "jobs_refs t' \<subseteq> jobs_refs t - {conn}"
  proof
    fix x
    assume "x \<in> jobs_refs t'"
    then obtain j job' where "jobs_map t' j = Some job'" and x: "x \<in> job_refs job'"
      by (auto simp: jobs_refs_def ran_def)
    then obtain job where job: "jobs_map t j = Some job" "job' = drop_remote_allocs conn job"
      "\<not> job_affected conn job'" using step by blast
    then have "job_local_ok job" using assms(2) by (auto simp: jobs_local_ok_def ran_def)
    then have "x \<noteq> conn" using safe x job by blast
    moreover have "x \<in> jobs_refs t"
      using x job drop_remote_allocs_refs by (fastforce simp: jobs_refs_def ran_def)
    ultimately show "x \<in> jobs_refs t - {conn}" by simp
  qed
  show "jobs_local_ok t'"
    using step assms(2) drop_remote_allocs_local by (fastforce simp: jobs_local_ok_def ran_def)
  show "\<forall>job\<in>set lista. job_refs job \<subseteq> jobs_refs t \<and> job_local_ok job"
    unfolding extract_by_conn_lista [OF assms(1,3)]
    using assms(2) drop_remote_allocs_local drop_remote_allocs_refs
    by (fastforce simp: jobs_refs_def jobs_local_ok_def ran_def)
qed

lemma pendientes_by_conn_mem:
  assumes "jobs_ok t" "req \<in> set (tabla_jobs_get_pendientes_by_conn t conn)"
  shows "\<exists>j job out. jobs_map t j = Some job \<and> out \<in> set (pendientes job) \<and> o_conn out = conn
    \<and> req = copy_outrequest out"
proof -
  from assms(2) obtain job out where "job \<in> set (entries t)" "out \<in> set (pendientes job)"
    "o_conn out = conn" "req = copy_outrequest out"
    by (auto simp: tabla_jobs_get_pendientes_by_conn_def entries_def)
  then show ?thesis using jobs_map_entries [OF assms(1)] by blast
qed

interpretation js: keyed_store jobs_ok job_valid j_job_id jobs_map
  tabla_jobs_insertar_job tabla_jobs_extract_by_id
  using insertar_map extract_map by unfold_locales blast+

section \<open>Properties\<close>

text \<open>
  A job inserted under a new id is the job extracted under that id, the table is
  then what it was, and extracting the id a second time finds nothing: a repeated release
  cannot free a job twice.
\<close>

theorem jobs_insert_extract:
  assumes "jobs_ok t" "0 \<le> j_job_id job" "jobs_map t (j_job_id job) = None"
  shows "\<exists>t1 t2 t3. tabla_jobs_insertar_job t job = Some t1
    \<and> tabla_jobs_extract_by_id t1 (j_job_id job) = Some (Some job, t2)
    \<and> jobs_map t2 = jobs_map t \<and> tabla_jobs_extract_by_id t2 (j_job_id job) = Some (None, t3)"
proof -
  have v: "job_valid (j_job_id job)" using assms(2) by (rule job_valid_nonneg)
  obtain t1 t2 where t: "tabla_jobs_insertar_job t job = Some t1"
    "tabla_jobs_extract_by_id t1 (j_job_id job) = Some (Some job, t2)" "jobs_ok t2" "jobs_map t2 = jobs_map t"
    using js.insert_extract [OF assms(1) v assms(3)] by blast
  then show ?thesis using js.extract_law [OF t(3) v] assms(3) by auto
qed

abbreviation ej_job :: "int \<Rightarrow> Job" where
  "ej_job j \<equiv> \<lparr>j_job_id = j, j_conn = 3, confirmadas = [], pendientes = []\<rparr>"

theorem jobs_insert_extract_witness:
  "jobs_ok tabla_jobs_init \<and> 0 \<le> j_job_id (ej_job 72) \<and> jobs_map tabla_jobs_init 72 = None
   \<and> (\<exists>t1 t2. tabla_jobs_insertar_job tabla_jobs_init (ej_job 72) = Some t1
        \<and> tabla_jobs_extract_by_id t1 72 = Some (Some (ej_job 72), t2))"
  using jobs_insert_extract [OF jobs_ok_init, of "ej_job 72"] jobs_ok_init by auto

text \<open>
  \<open>C38\<close>. Ids that are not negative are always in range, but a negative id that is not a
  multiple of 71 indexes beyond the array of buckets in every operation of the table.
\<close>

theorem negative_job_id_out_of_bounds:
  "(0 \<le> j \<longrightarrow> tabla_jobs_buscar_por_id t j \<noteq> None \<and> tabla_jobs_extract_by_id t j \<noteq> None
      \<and> tabla_jobs_verificar t j \<noteq> None \<and> tabla_jobs_get_conn t j \<noteq> None)
   \<and> (j < 0 \<and> \<not> 71 dvd j \<longrightarrow> tabla_jobs_buscar_por_id t j = None \<and> tabla_jobs_extract_by_id t j = None
      \<and> tabla_jobs_verificar t j = None \<and> tabla_jobs_get_conn t j = None)"
  using job_idx_negative [of j]
  by (auto simp: job_idx_nonneg tabla_jobs_buscar_por_id_def tabla_jobs_extract_by_id_def
      tabla_jobs_verificar_def tabla_jobs_get_conn_def)

theorem negative_job_id_out_of_bounds_witness:
  "tabla_jobs_get_conn tabla_jobs_init (-1) = None \<and> tabla_jobs_get_conn tabla_jobs_init 1 \<noteq> None"
  using negative_job_id_out_of_bounds [of 1 tabla_jobs_init] negative_job_id_out_of_bounds [of "-1" tabla_jobs_init]
  by simp





text \<open>
  The address of a pending request loses its fifteenth character, so that the
  requests to two different hosts can carry the same address; shorter addresses are kept.
\<close>

theorem outrequest_ip_truncated:
  "(length ip \<le> 14 \<longrightarrow> o_ip (crear_outrequest ip conn r n msg) = ip)
   \<and> o_ip (crear_outrequest ''192.168.100.200'' conn r n msg) = o_ip (crear_outrequest ''192.168.100.20'' conn r n msg)
   \<and> a_ip (crear_allocation r n REMOTE ''192.168.100.200'' 1 RM_GRANTED conn) = ''192.168.100.200''"
  by (simp add: crear_outrequest_def crear_allocation_def strncpy_field_def)

theorem outrequest_ip_truncated_witness:
  "o_ip (crear_outrequest ''10.0.0.1'' 3 RESOURCE_CPU 2 None) = ''10.0.0.1''"
  using outrequest_ip_truncated [of "''10.0.0.1''" 3 RESOURCE_CPU 2 None] by simp


end
