(* ===== verification/Agent_State.thy ===== *)
theory Agent_State
  imports Tabla_Jobs Pending_Queue
begin

text \<open>
  The state of the agent process: the static variables of
  \<^verbatim>\<open>agente_c/src/resource_manager.c\<close> (\<open>manager\<close>, \<open>conns\<close>, \<open>g_epfd\<close>, \<open>g_ip\<close>), the table
  \<open>tabla_nodos\<close> and the heap of \<open>connection_t\<close> objects. An operation that follows a pointer
  to a connection that was freed has the result \<open>None\<close>. Here are also the operations that
  only send or only clean the queues, and what they leave alone.
\<close>

section \<open>State\<close>

record Recurso =
  available_amount :: int
  total_amount :: int
  cola :: ColaPendingRequest

datatype dest_t = DEST_ERLANG_LOCAL | DEST_AGENTE_REMOTO

text \<open>\<open>tx\<close> is the sequence of messages the agent reports as sent on its standard output.\<close>

record agent =
  recursos :: "resource_t \<Rightarrow> Recurso"
  tabla :: TablaJobs
  conns :: TablaConns
  tabla_nodos :: TablaNodos
  g_ip :: string
  g_epfd :: epoll
  heap :: "conn_ptr \<rightharpoonup> connection_t"
  tx :: "(dest_t \<times> conn_ptr \<times> string) list"

definition upd_recurso :: "resource_t \<Rightarrow> (Recurso \<Rightarrow> Recurso) \<Rightarrow> agent \<Rightarrow> agent" where
  "upd_recurso tipo f s = s\<lparr>recursos := (recursos s)(tipo := f (recursos s tipo))\<rparr>"

abbreviation queue :: "agent \<Rightarrow> resource_t \<Rightarrow> PendingRequest list" where
  "queue s r \<equiv> items (cola (recursos s r))"

section \<open>Operations\<close>

definition manager_set_epoll :: "epoll \<Rightarrow> agent \<Rightarrow> agent" where
  "manager_set_epoll epfd s = s\<lparr>g_epfd := epfd\<rparr>"

definition manager_set_ip :: "string \<Rightarrow> agent \<Rightarrow> agent" where
  "manager_set_ip ip s = s\<lparr>g_ip := strncpy_field 16 ip\<rparr>"

definition limpiar_colas_por_id :: "int \<Rightarrow> agent \<Rightarrow> agent" where
  "limpiar_colas_por_id job_id s = (let del = (\<lambda>r. r\<lparr>cola := queue_delete_by_job_id (cola r) job_id\<rparr>) in
     upd_recurso RESOURCE_GPU del (upd_recurso RESOURCE_MEM del (upd_recurso RESOURCE_CPU del s)))"

definition limpiar_colas_por_conn :: "conn_ptr \<Rightarrow> agent \<Rightarrow> agent" where
  "limpiar_colas_por_conn conn s = (let del = (\<lambda>r. r\<lparr>cola := queue_delete_by_conn (cola r) conn\<rparr>) in
     upd_recurso RESOURCE_GPU del (upd_recurso RESOURCE_MEM del (upd_recurso RESOURCE_CPU del s)))"

definition send_message :: "conn_ptr \<Rightarrow> dest_t \<Rightarrow> string \<Rightarrow> agent \<Rightarrow> agent option" where
  "send_message conn dest text s = (case heap s conn of
      None \<Rightarrow> None
    | Some c \<Rightarrow> (let buf = snprintf BUFF_SIZE text in
        Some (s\<lparr>tx := tx s @ [(dest, conn, buf)],
                heap := (heap s)(conn \<mapsto> enqueue_write (g_epfd s) c buf)\<rparr>)))"

definition manager_init :: "int \<Rightarrow> int \<Rightarrow> int \<Rightarrow> agent \<Rightarrow> agent" where
  "manager_init cpu mem gpu s = s\<lparr>
     recursos := (\<lambda>r. let n = (case r of RESOURCE_CPU \<Rightarrow> cpu | RESOURCE_MEM \<Rightarrow> mem | RESOURCE_GPU \<Rightarrow> gpu) in
       \<lparr>available_amount = n, total_amount = n, cola = queue_init\<rparr>),
     tabla := tabla_jobs_init, conns := tabla_conns_init, tabla_nodos := tabla_nodos_init\<rparr>"

definition manager_destroy :: "agent \<Rightarrow> agent" where
  "manager_destroy s = s\<lparr>
     recursos := (\<lambda>r. (recursos s r)\<lparr>cola := queue_destroy (cola (recursos s r))\<rparr>),
     tabla := tabla_jobs_destroy (tabla s), conns := tabla_conns_destroy (conns s),
     tabla_nodos := tabla_nodos_destroy (tabla_nodos s)\<rparr>"

text \<open>The static variables before \<open>main\<close> runs, with the epoll instance \<open>ep\<close>.\<close>

definition agent_start :: "epoll \<Rightarrow> agent" where
  "agent_start ep = \<lparr>recursos = (\<lambda>_. \<lparr>available_amount = 0, total_amount = 0, cola = queue_init\<rparr>),
     tabla = tabla_jobs_init, conns = tabla_conns_init, tabla_nodos = tabla_nodos_init,
     g_ip = [], g_epfd = ep, heap = Map.empty, tx = []\<rparr>"

section \<open>What the operations leave alone\<close>

lemma upd_recurso_frame [simp, frame_simps]:
  "tabla (upd_recurso r f s) = tabla s" "conns (upd_recurso r f s) = conns s"
  "tabla_nodos (upd_recurso r f s) = tabla_nodos s" "g_ip (upd_recurso r f s) = g_ip s"
  "g_epfd (upd_recurso r f s) = g_epfd s" "heap (upd_recurso r f s) = heap s"
  "tx (upd_recurso r f s) = tx s"
  by (simp_all add: upd_recurso_def)

lemma recursos_upd_recurso [simp]:
  "recursos (upd_recurso r f s) = (recursos s)(r := f (recursos s r))"
  by (simp add: upd_recurso_def)

lemma recursos_limpiar:
  "recursos (limpiar_colas_por_id j s) = (\<lambda>r. (recursos s r)\<lparr>cola := queue_delete_by_job_id (cola (recursos s r)) j\<rparr>)"
  "recursos (limpiar_colas_por_conn c s) = (\<lambda>r. (recursos s r)\<lparr>cola := queue_delete_by_conn (cola (recursos s r)) c\<rparr>)"
  by (auto simp: limpiar_colas_por_id_def limpiar_colas_por_conn_def Let_def fun_eq_iff all_resource_t)

lemma limpiar_frame [simp, frame_simps]:
  "tabla (limpiar_colas_por_id j s) = tabla s" "conns (limpiar_colas_por_id j s) = conns s"
  "tabla_nodos (limpiar_colas_por_id j s) = tabla_nodos s" "g_ip (limpiar_colas_por_id j s) = g_ip s"
  "g_epfd (limpiar_colas_por_id j s) = g_epfd s" "heap (limpiar_colas_por_id j s) = heap s"
  "tx (limpiar_colas_por_id j s) = tx s"
  "tabla (limpiar_colas_por_conn c s) = tabla s" "conns (limpiar_colas_por_conn c s) = conns s"
  "tabla_nodos (limpiar_colas_por_conn c s) = tabla_nodos s" "g_ip (limpiar_colas_por_conn c s) = g_ip s"
  "g_epfd (limpiar_colas_por_conn c s) = g_epfd s" "heap (limpiar_colas_por_conn c s) = heap s"
  "tx (limpiar_colas_por_conn c s) = tx s"
  by (simp_all add: limpiar_colas_por_id_def limpiar_colas_por_conn_def Let_def)

lemma limpiar_recursos [simp]:
  "available_amount (recursos (limpiar_colas_por_id j s) r) = available_amount (recursos s r)"
  "total_amount (recursos (limpiar_colas_por_id j s) r) = total_amount (recursos s r)"
  "queue (limpiar_colas_por_id j s) r = filter (\<lambda>p. pr_job_id p \<noteq> j) (queue s r)"
  "available_amount (recursos (limpiar_colas_por_conn c s) r) = available_amount (recursos s r)"
  "total_amount (recursos (limpiar_colas_por_conn c s) r) = total_amount (recursos s r)"
  "queue (limpiar_colas_por_conn c s) r = filter (\<lambda>p. owner_conn p \<noteq> c) (queue s r)"
  by (simp_all add: recursos_limpiar)

lemma send_message_frame [frame_simps]:
  assumes "send_message conn dest text s = Some s'"
  shows "recursos s' = recursos s" "tabla s' = tabla s" "conns s' = conns s" "tabla_nodos s' = tabla_nodos s"
    "g_ip s' = g_ip s" "g_epfd s' = g_epfd s" "dom (heap s') = dom (heap s)"
    "tx s' = tx s @ [(dest, conn, snprintf BUFF_SIZE text)]"
  using assms by (auto simp: send_message_def Let_def split: option.splits if_splits)

lemma send_message_live [conn_live]:
  "conn \<in> dom (heap s) \<Longrightarrow> \<exists>s'. send_message conn dest text s = Some s'"
  by (auto simp: send_message_def Let_def)

end
