(* ===== verification/Recursos.thy ===== *)
theory Recursos
  imports Agent_State
begin

text \<open>
  The functions of \<^verbatim>\<open>resource_manager.c\<close> on one resource, \<open>reserve_resource\<close> and
  \<open>release_resource\<close>, and \<open>tabla_jobs_remove\<close> of \<^verbatim>\<open>tabla_jobs.c\<close>, which calls the
  latter back. The additions and subtractions of amounts wrap at 32 bits.
\<close>

section \<open>Operations\<close>

definition reserve_resource ::
  "resource_t \<Rightarrow> int \<Rightarrow> int \<Rightarrow> conn_ptr \<Rightarrow> origin_t \<Rightarrow> agent \<Rightarrow> result_t \<times> agent" where
  "reserve_resource tipo am job_id conn orig s = (let r = recursos s tipo in
     if available_amount r \<ge> am
     then (RM_GRANTED, upd_recurso tipo (\<lambda>r. r\<lparr>available_amount := s32 (available_amount r - am)\<rparr>) s)
     else if total_amount r < am then (RM_DENIED, s)
     else (case queue_enqueue (cola r) job_id am conn (total_amount r) orig of (encolado, c) \<Rightarrow>
       (if encolado then RM_QUEUED else RM_DENIED, upd_recurso tipo (\<lambda>r. r\<lparr>cola := c\<rparr>) s)))"

text \<open>The body of the loop of \<open>release_resource\<close> once \<open>pending\<close> is out of the queue.\<close>

definition grant_pending :: "resource_t \<Rightarrow> PendingRequest \<Rightarrow> agent \<Rightarrow> agent option" where
  "grant_pending tipo pending s = do {
     let s = upd_recurso tipo (\<lambda>r. r\<lparr>available_amount := s32 (available_amount r - pr_amount pending)\<rparr>) s;
     t \<leftarrow> tabla_jobs_cambio_alloc (tabla s) (pr_job_id pending) (owner_conn pending) tipo;
     let s = s\<lparr>tabla := t\<rparr>;
     if origen pending = ORIGIN_REMOTE
     then send_message (owner_conn pending) DEST_AGENTE_REMOTO
            (msg_granted \<lparr>gm_job_id = pr_job_id pending\<rparr> @ [NL]) s
     else do {
       listo \<leftarrow> tabla_jobs_verificar (tabla s) (pr_job_id pending);
       if listo then send_message (owner_conn pending) DEST_ERLANG_LOCAL
            (msg_job_granted (pr_job_id pending) @ [NL]) s
       else Some s
     }
   }"

lemma grant_pending_recursos:
  assumes "grant_pending tipo p s = Some s'"
  shows "recursos s' = (recursos s)(tipo := (recursos s tipo)\<lparr>available_amount := s32 (available_amount (recursos s tipo) - pr_amount p)\<rparr>)"
  using assms
  by (auto simp: grant_pending_def Let_def bind_eq_Some_conv dest!: send_message_frame(1) split: if_splits)

function release_loop :: "resource_t \<Rightarrow> agent \<Rightarrow> agent option" where
  "release_loop tipo s = (let r = recursos s tipo in
     (case queue_dequeue (cola r) of
        (None, _) \<Rightarrow> Some s
      | (Some pending, resto) \<Rightarrow>
          if available_amount r \<ge> pr_amount pending then do {
            s' \<leftarrow> grant_pending tipo pending (upd_recurso tipo (\<lambda>r. r\<lparr>cola := resto\<rparr>) s);
            release_loop tipo s'
          } else Some s))"
  by pat_completeness auto
termination
  by (relation "measure (\<lambda>(tipo, s). length (queue s tipo))")
    (auto simp: queue_dequeue_def dest!: grant_pending_recursos split: list.splits)

declare release_loop.simps [simp del]

definition release_resource :: "resource_t \<Rightarrow> int \<Rightarrow> agent \<Rightarrow> agent option" where
  "release_resource tipo am s = (let r = recursos s tipo in
     if am \<ge> 0 \<and> s32 (available_amount r + am) \<le> total_amount r
     then release_loop tipo (upd_recurso tipo (\<lambda>r. r\<lparr>available_amount := s32 (available_amount r + am)\<rparr>) s)
     else Some s)"

text \<open>
  The loop that gives back the allocations of a job: the one of \<open>tabla_jobs_remove\<close>, of
  \<open>process_disconnect\<close>, of \<open>process_connection_failed\<close> and of the two abort paths of
  JOB_REQUEST, where \<open>job_id\<close> is the id the RELEASE message carries.
\<close>

fun release_allocs :: "int \<Rightarrow> Allocation list \<Rightarrow> agent \<Rightarrow> agent option" where
  "release_allocs job_id [] s = Some s"
| "release_allocs job_id (all # sig) s = do {
     s \<leftarrow> (if a_type all = LOCAL \<and> a_result all = RM_GRANTED then release_resource (a_name all) (a_amount all) s
            else if a_type all = REMOTE then (case tabla_conns_lookup (conns s) (a_ip all) of
                Some remote \<Rightarrow> send_message remote DEST_AGENTE_REMOTO
                  (msg_release \<lparr>rm_job_id = job_id, rm_type = a_name all, rm_amount = a_amount all\<rparr> @ [NL]) s
              | None \<Rightarrow> Some s)
            else Some s);
     release_allocs job_id sig s
   }"

definition tabla_jobs_remove :: "int \<Rightarrow> agent \<Rightarrow> agent option" where
  "tabla_jobs_remove job_id s = do {
     (encontrado, t) \<leftarrow> tabla_jobs_extract_by_id (tabla s) job_id;
     let s = s\<lparr>tabla := t\<rparr>;
     (case encontrado of
         None \<Rightarrow> Some s
       | Some job \<Rightarrow> release_allocs job_id (confirmadas job) s)
   }"

end
