(* ===== verification/Resource_Manager.thy ===== *)
theory Resource_Manager
  imports Recursos
begin

text \<open>
  The message handlers of \<^verbatim>\<open>agente_c/src/resource_manager.c\<close>: one definition for each
  branch of \<open>process_message\<close>, and the other entry points the server calls. They run to
  completion one at a time (the locks of the code are in \<open>Tasks\<close> and \<open>Agent_Locks\<close>). The outcome of the
  system calls of \<open>connect_remote_node\<close> is an argument, \<open>red\<close>.
\<close>

section \<open>Outgoing connections\<close>

text \<open>
  What the calls of \<open>connect_remote_node\<close> return: an error of \<open>socket\<close>, \<open>connect\<close>,
  \<open>malloc\<close> or \<open>epoll_ctl\<close>, or the address of the new object and its descriptor. It may
  depend on the objects already allocated.
\<close>

datatype connect_result = SocketError | ConnectError | MallocError | EpollError | Connected conn_ptr int

type_synonym red = "(conn_ptr \<rightharpoonup> connection_t) \<Rightarrow> string \<Rightarrow> int \<Rightarrow> connect_result"

definition connect_remote_node :: "red \<Rightarrow> string \<Rightarrow> int \<Rightarrow> agent \<Rightarrow> conn_ptr option \<times> agent" where
  "connect_remote_node red ip port s = (case red (heap s) ip port of
      Connected conn sockfd \<Rightarrow> (Some conn, s\<lparr>heap := (heap s)(conn \<mapsto>
        new_connection sockfd CONN_TCP_OUTGOING \<lparr>want_in = False, want_out = True\<rparr>)\<rparr>)
    | _ \<Rightarrow> (None, s))"

section \<open>Messages between agents\<close>

definition on_reserve :: "conn_ptr \<Rightarrow> string \<Rightarrow> agent \<Rightarrow> agent option" where
  "on_reserve conn msg s = (case parse_reserve msg of
      Invalido \<Rightarrow> Some s
    | Valido m \<Rightarrow> (case reserve_resource (rm_type m) (rm_amount m) (rm_job_id m) conn ORIGIN_REMOTE s of
        (RM_DENIED, s) \<Rightarrow> send_message conn DEST_AGENTE_REMOTO (msg_denied \<lparr>gm_job_id = rm_job_id m\<rparr> @ [NL]) s
      | (RM_GRANTED, s) \<Rightarrow> send_message conn DEST_AGENTE_REMOTO (msg_granted \<lparr>gm_job_id = rm_job_id m\<rparr> @ [NL]) s
      | (RM_QUEUED, s) \<Rightarrow> Some s))"

definition on_release :: "string \<Rightarrow> agent \<Rightarrow> agent option" where
  "on_release msg s = (case parse_release msg of
      Invalido \<Rightarrow> Some s
    | Valido m \<Rightarrow> do {
        s \<leftarrow> (if rm_amount m \<noteq> 0 then release_resource (rm_type m) (rm_amount m) s else Some s);
        s \<leftarrow> tabla_jobs_remove (rm_job_id m) s;
        Some (limpiar_colas_por_id (rm_job_id m) s)
      })"

definition send_release :: "conn_ptr \<Rightarrow> int \<Rightarrow> resource_t \<Rightarrow> int \<Rightarrow> agent \<Rightarrow> agent option" where
  "send_release conn job_id tipo am =
     send_message conn DEST_AGENTE_REMOTO (msg_release \<lparr>rm_job_id = job_id, rm_type = tipo, rm_amount = am\<rparr> @ [NL])"

definition on_granted :: "conn_ptr \<Rightarrow> string \<Rightarrow> agent \<Rightarrow> agent option" where
  "on_granted conn msg s = (case parse_granted msg of
      Invalido \<Rightarrow> Some s
    | Valido m \<Rightarrow> (case tabla_conns_get_ip_by_conn (conns s) conn of
        None \<Rightarrow> Some s
      | Some ip_remoto \<Rightarrow> do {
          check \<leftarrow> tabla_jobs_buscar_por_id (tabla s) (gm_job_id m);
          (case check of
             None \<Rightarrow> do {
               s \<leftarrow> send_release conn (gm_job_id m) RESOURCE_CPU 0 s;
               s \<leftarrow> send_release conn (gm_job_id m) RESOURCE_MEM 0 s;
               send_release conn (gm_job_id m) RESOURCE_GPU 0 s
             }
           | Some job \<Rightarrow> (case job_confirmar job ip_remoto (gm_job_id m) of (confirmado, job') \<Rightarrow> do {
               idx \<leftarrow> job_idx (gm_job_id m);
               let s = s\<lparr>tabla := update_job (tabla s) idx (gm_job_id m)
                 (\<lambda>job. snd (job_confirmar job ip_remoto (gm_job_id m)))\<rparr>;
               if \<not> confirmado then Some s
               else do {
                 listo \<leftarrow> tabla_jobs_verificar (tabla s) (gm_job_id m);
                 if listo then send_message (j_conn job') DEST_ERLANG_LOCAL (msg_job_granted (gm_job_id m) @ [NL]) s
                 else Some s
               }
             }))
        }))"

definition on_denied :: "string \<Rightarrow> agent \<Rightarrow> agent option" where
  "on_denied msg s = (case parse_denied msg of
      Invalido \<Rightarrow> Some s
    | Valido m \<Rightarrow> do {
        owner \<leftarrow> tabla_jobs_get_conn (tabla s) (gm_job_id m);
        s \<leftarrow> (case owner of
            None \<Rightarrow> Some s
          | Some conn \<Rightarrow> do {
              s \<leftarrow> tabla_jobs_remove (gm_job_id m) s;
              send_message conn DEST_ERLANG_LOCAL (msg_job_denied m @ [NL]) s
            });
        Some (limpiar_colas_por_id (gm_job_id m) s)
      })"

section \<open>Messages of the planner\<close>

text \<open>
  The two abort paths of JOB_REQUEST: the queues are cleaned, the allocations of the new
  job given back, its lists freed, and the planner told.
\<close>

definition abort_job :: "int \<Rightarrow> conn_ptr \<Rightarrow> Job \<Rightarrow> agent \<Rightarrow> agent option" where
  "abort_job job_id conn nuevo_job s = do {
     s \<leftarrow> release_allocs job_id (confirmadas nuevo_job) (limpiar_colas_por_id job_id s);
     send_message conn DEST_ERLANG_LOCAL (msg_job_denied \<lparr>gm_job_id = job_id\<rparr> @ [NL]) s
   }"

text \<open>The loop over the requests; no job in the result is the return after an abort.\<close>

fun job_request_loop ::
  "red \<Rightarrow> int \<Rightarrow> conn_ptr \<Rightarrow> resource_request_t list \<Rightarrow> Job \<Rightarrow> agent \<Rightarrow> (Job option \<times> agent) option" where
  "job_request_loop red job_id conn [] nuevo_job s = Some (Some nuevo_job, s)"
| "job_request_loop red job_id conn (head # next) nuevo_job s =
     (if rq_ip head = g_ip s
      then (case reserve_resource (rq_type head) (rq_amount head) job_id conn ORIGIN_LOCAL s of (r, s) \<Rightarrow>
        if r = RM_GRANTED \<or> r = RM_QUEUED
        then job_request_loop red job_id conn next (nuevo_job\<lparr>confirmadas :=
               crear_allocation (rq_type head) (rq_amount head) LOCAL (g_ip s) job_id r conn
                 # confirmadas nuevo_job\<rparr>) s
        else do { s \<leftarrow> abort_job job_id conn nuevo_job s; Some (None, s) })
      else (case tabla_conns_lookup (conns s) (rq_ip head) of
        Some remote \<Rightarrow> do {
          s \<leftarrow> send_message remote DEST_AGENTE_REMOTO
            (msg_reserve \<lparr>rm_job_id = job_id, rm_type = rq_type head, rm_amount = rq_amount head\<rparr> @ [NL]) s;
          job_request_loop red job_id conn next (nuevo_job\<lparr>pendientes :=
            crear_outrequest (rq_ip head) remote (rq_type head) (rq_amount head) None # pendientes nuevo_job\<rparr>) s
        }
      | None \<Rightarrow> (let port = tabla_nodos_get_puerto (tabla_nodos s) (rq_ip head) in
          case (if port \<noteq> -1 then connect_remote_node red (rq_ip head) port s else (None, s)) of
            (None, s) \<Rightarrow> do { s \<leftarrow> abort_job job_id conn nuevo_job s; Some (None, s) }
          | (Some intento, s) \<Rightarrow> (let respuesta = snprintf BUFF_SIZE
                (msg_reserve \<lparr>rm_job_id = job_id, rm_type = rq_type head, rm_amount = rq_amount head\<rparr> @ [NL]) in
              job_request_loop red job_id conn next (nuevo_job\<lparr>pendientes :=
                crear_outrequest (rq_ip head) intento (rq_type head) (rq_amount head) (Some respuesta)
                  # pendientes nuevo_job\<rparr>) s))))"

definition on_job_request :: "red \<Rightarrow> conn_ptr \<Rightarrow> string \<Rightarrow> agent \<Rightarrow> agent option" where
  "on_job_request red conn msg s = do {
     result \<leftarrow> parse_job_request msg;
     (case result of
        Invalido \<Rightarrow> Some s
      | Valido m \<Rightarrow> do {
          existe \<leftarrow> tabla_jobs_buscar_por_id (tabla s) (jr_job_id m);
          if existe \<noteq> None then Some s
          else do {
            (nuevo_job, s) \<leftarrow> job_request_loop red (jr_job_id m) conn (request_list m)
              \<lparr>j_job_id = jr_job_id m, j_conn = conn, confirmadas = [], pendientes = []\<rparr> s;
            (case nuevo_job of
               None \<Rightarrow> Some s
             | Some job \<Rightarrow> do {
                 t \<leftarrow> tabla_jobs_insertar_job (tabla s) job;
                 let s = s\<lparr>tabla := t\<rparr>;
                 listo \<leftarrow> tabla_jobs_verificar (tabla s) (jr_job_id m);
                 if listo then send_message conn DEST_ERLANG_LOCAL (msg_job_granted (jr_job_id m) @ [NL]) s
                 else Some s
               })
          }
        })
   }"

text \<open>GET_NODES: every entry is appended if it fits, and the last semicolon made a newline.\<close>

definition node_text :: "NodeEntry \<Rightarrow> string" where
  "node_text e = snprintf 128 (ne_ip e @ '':'' @ show_int (puerto e) @ '':cpu:'' @ show_int (cpu_disp e)
     @ '':mem:'' @ show_int (mem_disp e) @ '':gpu:'' @ show_int (gpu_disp e) @ '';'')"

definition nodes_append :: "string \<Rightarrow> NodeEntry \<Rightarrow> string" where
  "nodes_append buf e = (let tmp = node_text e in
     if length buf + length tmp < BUFF_SIZE - 2 then buf @ tmp else buf)"

definition nodes_reply :: "TablaNodos \<Rightarrow> string" where
  "nodes_reply t = (let buf = foldl nodes_append ''NODES '' (concat t) in
     if 6 < length buf \<and> last buf = CHR '';'' then butlast buf @ [NL] else buf @ [NL])"

definition on_get_nodes :: "conn_ptr \<Rightarrow> agent \<Rightarrow> agent option" where
  "on_get_nodes conn s = do {
     texto \<leftarrow> format_no_args (nodes_reply (tabla_nodos s));
     send_message conn DEST_ERLANG_LOCAL texto s
   }"

fun job_release_loop :: "Allocation list \<Rightarrow> agent \<Rightarrow> agent option" where
  "job_release_loop [] s = Some s"
| "job_release_loop (alloc # next) s = do {
     s \<leftarrow> (if a_type alloc = LOCAL \<and> a_result alloc = RM_GRANTED
            then release_resource (a_name alloc) (a_amount alloc) s
            else Some (limpiar_colas_por_id (a_job_id alloc) s));
     s \<leftarrow> (if a_type alloc = REMOTE
            then send_release (a_conn alloc) (a_job_id alloc) (a_name alloc) (a_amount alloc) s
            else Some s);
     job_release_loop next s
   }"

definition on_job_release :: "string \<Rightarrow> agent \<Rightarrow> agent option" where
  "on_job_release msg s = (case parse_job_release msg of
      Invalido \<Rightarrow> Some s
    | Valido m \<Rightarrow> do {
        (eliminar_job, t) \<leftarrow> tabla_jobs_extract_by_id (tabla s) (gm_job_id m);
        let s = s\<lparr>tabla := t\<rparr>;
        (case eliminar_job of
           None \<Rightarrow> Some s
         | Some job \<Rightarrow> do {
             s \<leftarrow> job_release_loop (confirmadas job) s;
             Some (limpiar_colas_por_id (gm_job_id m) s)
           })
      })"

definition on_job_status :: "conn_ptr \<Rightarrow> string \<Rightarrow> agent \<Rightarrow> agent option" where
  "on_job_status conn msg s = (case parse_job_status msg of
      Invalido \<Rightarrow> Some s
    | Valido m \<Rightarrow> do {
        owner \<leftarrow> tabla_jobs_get_conn (tabla s) (gm_job_id m);
        send_message conn DEST_ERLANG_LOCAL
          (msg_job_status (gm_job_id m) (if owner \<noteq> None then ''ACTIVE'' else ''UNKNOWN'') @ [NL]) s
      })"

definition on_job_timeout :: "string \<Rightarrow> agent \<Rightarrow> agent option" where
  "on_job_timeout msg s = (case parse_job_timeout msg of
      Invalido \<Rightarrow> Some s
    | Valido m \<Rightarrow> do {
        s \<leftarrow> tabla_jobs_remove (gm_job_id m) s;
        Some (limpiar_colas_por_id (gm_job_id m) s)
      })"

section \<open>Entry points\<close>

definition strncmp_eq :: "string \<Rightarrow> string \<Rightarrow> bool" where
  "strncmp_eq msg word \<longleftrightarrow> take (length word) msg = word"

definition process_message :: "red \<Rightarrow> conn_ptr \<Rightarrow> string \<Rightarrow> agent \<Rightarrow> agent option" where
  "process_message red conn msg s =
     (if heap s conn = None then None
      else if strncmp_eq msg ''RESERVE'' then on_reserve conn msg s
      else if strncmp_eq msg ''RELEASE'' then on_release msg s
      else if strncmp_eq msg ''GRANTED'' then on_granted conn msg s
      else if strncmp_eq msg ''DENIED'' then on_denied msg s
      else if strncmp_eq msg ''JOB_REQUEST'' then on_job_request red conn msg s
      else if strncmp_eq msg ''GET_NODES'' then on_get_nodes conn s
      else if strncmp_eq msg ''ANNOUNCE'' then Some s
      else if strncmp_eq msg ''JOB_RELEASE'' then on_job_release msg s
      else if strncmp_eq msg ''JOB_STATUS'' then on_job_status conn msg s
      else if strncmp_eq msg ''JOB_TIMEOUT'' then on_job_timeout msg s
      else Some s)"

definition process_announce :: "int \<Rightarrow> string \<Rightarrow> string \<Rightarrow> agent \<Rightarrow> agent" where
  "process_announce now ip_sender msg s = (case parse_announce msg of
      Valido m \<Rightarrow> s\<lparr>tabla_nodos := tabla_nodos_insert_or_update now ip_sender
        (an_puerto m) (an_cpu m) (an_mem m) (an_gpu m) (tabla_nodos s)\<rparr>
    | Invalido \<Rightarrow> s)"

fun release_jobs :: "Job list \<Rightarrow> agent \<Rightarrow> agent option" where
  "release_jobs [] s = Some s"
| "release_jobs (job # sig) s = do {
     s \<leftarrow> release_allocs (j_job_id job) (confirmadas job) (limpiar_colas_por_id (j_job_id job) s);
     release_jobs sig s
   }"

definition process_disconnect :: "conn_ptr \<Rightarrow> agent \<Rightarrow> agent option" where
  "process_disconnect conn s = (let s = limpiar_colas_por_conn conn s in
     case tabla_jobs_extract_by_remote_conn (tabla s) conn of (lista, t) \<Rightarrow> do {
       s \<leftarrow> release_jobs lista (s\<lparr>tabla := t\<rparr>);
       Some (s\<lparr>conns := tabla_conns_delete_by_conn (conns s) conn\<rparr>)
     })"

fun ready_loop :: "conn_ptr \<Rightarrow> OutRequest list \<Rightarrow> agent \<Rightarrow> agent option" where
  "ready_loop conn [] s = Some s"
| "ready_loop conn (req # next) s = do {
     let s = s\<lparr>conns := tabla_conns_insert (conns s) (o_ip req) conn\<rparr>;
     msg \<leftarrow> o_msg req;
     texto \<leftarrow> format_no_args msg;
     s \<leftarrow> send_message conn DEST_AGENTE_REMOTO texto s;
     ready_loop conn next s
   }"

definition process_connection_ready :: "conn_ptr \<Rightarrow> agent \<Rightarrow> agent option" where
  "process_connection_ready conn s = ready_loop conn (tabla_jobs_get_pendientes_by_conn (tabla s) conn) s"

definition process_connection_failed :: "conn_ptr \<Rightarrow> agent \<Rightarrow> agent option" where
  "process_connection_failed conn s = (case tabla_jobs_extract_by_remote_conn (tabla s) conn of
     (lista, t) \<Rightarrow> release_jobs lista (s\<lparr>tabla := t\<rparr>))"

end
