(* ===== verification/Agent_Invariant.thy ===== *)
theory Agent_Invariant
  imports Resource_Manager
begin

text \<open>
  The invariant \<open>agent_ok\<close> of the agent between two events, and the relation \<open>settles\<close>
  between the states before and after work that only answers, releases or cleans: it adds
  no reference to a connection and no object, so it keeps the invariant. The operations of
  \<open>Recursos\<close> are shown to run without a fault and to be such work.
\<close>

section \<open>The invariant\<close>

definition plain :: "string \<Rightarrow> bool" where
  "plain m \<longleftrightarrow> CHR ''%'' \<notin> set m"

definition queue_refs :: "agent \<Rightarrow> conn_ptr set" where
  "queue_refs s = (\<Union>r. owner_conn ` set (queue s r))"

lemma queue_refs_frame [simp]:
  "queue_refs (s\<lparr>tabla := t\<rparr>) = queue_refs s" "queue_refs (s\<lparr>conns := cs\<rparr>) = queue_refs s"
  "queue_refs (s\<lparr>heap := h\<rparr>) = queue_refs s" "queue_refs (s\<lparr>tabla_nodos := n\<rparr>) = queue_refs s"
  by (simp_all add: queue_refs_def)

text \<open>Every pointer to a connection the manager keeps.\<close>

definition refs :: "agent \<Rightarrow> conn_ptr set" where
  "refs s = queue_refs s \<union> jobs_refs (tabla s) \<union> conns_refs (conns s)"

definition connecting :: "agent \<Rightarrow> conn_ptr \<Rightarrow> bool" where
  "connecting s c \<longleftrightarrow> (\<exists>k. heap s c = Some k \<and> ctype k = CONN_TCP_OUTGOING)"

text \<open>
  What the table of jobs may say of a connection that is still being established: it is
  the target of at most one request, which has its message ready, and owns no job.
\<close>

definition asked_once :: "conn_ptr \<Rightarrow> Job \<Rightarrow> bool" where
  "asked_once c job \<longleftrightarrow> j_conn job \<noteq> c \<and> length (filter (\<lambda>req. o_conn req = c) (pendientes job)) \<le> 1
     \<and> (\<forall>req\<in>set (pendientes job). o_conn req = c \<longrightarrow> (\<exists>m. o_msg req = Some m \<and> plain m))"

definition asks :: "conn_ptr \<Rightarrow> Job \<Rightarrow> bool" where
  "asks c job \<longleftrightarrow> (\<exists>req\<in>set (pendientes job). o_conn req = c)"

definition connecting_ok :: "(int \<rightharpoonup> Job) \<Rightarrow> conn_ptr \<Rightarrow> bool" where
  "connecting_ok M c \<longleftrightarrow> (\<forall>j job. M j = Some job \<longrightarrow> asked_once c job)
     \<and> (\<forall>j j' job job'. M j = Some job \<and> M j' = Some job' \<and> asks c job \<and> asks c job' \<longrightarrow> j = j')"

definition heap_ok :: "agent \<Rightarrow> bool" where
  "heap_ok s \<longleftrightarrow> (\<forall>c k. heap s c = Some k \<longrightarrow> conn_fit (g_epfd s) k)"

definition queues_ok :: "agent \<Rightarrow> bool" where
  "queues_ok s \<longleftrightarrow> (\<forall>r. \<forall>p\<in>set (queue s r). job_valid (pr_job_id p))"

text \<open>An address of a pending request fits its field; those of the announced nodes too.\<close>

definition nodos_text_ok :: "TablaNodos \<Rightarrow> bool" where
  "nodos_text_ok t \<longleftrightarrow> (\<forall>e\<in>set (entries t). plain (ne_ip e))"

definition tables_ok :: "agent \<Rightarrow> bool" where
  "tables_ok s \<longleftrightarrow> jobs_ok (tabla s) \<and> jobs_local_ok (tabla s) \<and> conns_ok (conns s)
     \<and> conns_distinct (conns s) \<and> nodos_ok (tabla_nodos s) \<and> nodos_text_ok (tabla_nodos s)"

definition connecting_free :: "agent \<Rightarrow> bool" where
  "connecting_free s \<longleftrightarrow> (\<forall>c. connecting s c \<longrightarrow>
     c \<notin> queue_refs s \<and> c \<notin> conns_refs (conns s) \<and> connecting_ok (jobs_map (tabla s)) c)"

definition agent_ok :: "agent \<Rightarrow> bool" where
  "agent_ok s \<longleftrightarrow> tables_ok s \<and> heap_ok s \<and> queues_ok s \<and> refs s \<subseteq> dom (heap s) \<and> connecting_free s"

lemma agent_okD:
  assumes "agent_ok s"
  shows "jobs_ok (tabla s)" "jobs_local_ok (tabla s)" "conns_ok (conns s)" "conns_distinct (conns s)"
    "nodos_ok (tabla_nodos s)" "nodos_text_ok (tabla_nodos s)" "heap_ok s" "queues_ok s"
    "refs s \<subseteq> dom (heap s)" "connecting_free s"
  using assms by (simp_all add: agent_ok_def tables_ok_def)

lemma live_refs:
  assumes "agent_ok s"
  shows "p \<in> set (queue s r) \<Longrightarrow> owner_conn p \<in> dom (heap s)"
    and "jobs_map (tabla s) j = Some job \<Longrightarrow> j_conn job \<in> dom (heap s)"
    and "jobs_map (tabla s) j = Some job \<Longrightarrow> a \<in> set (confirmadas job) \<Longrightarrow> a_conn a \<in> dom (heap s)"
    and "tabla_conns_lookup (conns s) ip = Some c \<Longrightarrow> c \<in> dom (heap s)"
proof -
  have sub: "c \<in> dom (heap s)" if "c \<in> refs s" for c using agent_okD(9) [OF assms] that by blast
  show "p \<in> set (queue s r) \<Longrightarrow> owner_conn p \<in> dom (heap s)"
    by (rule sub) (auto simp: refs_def queue_refs_def)
  show "jobs_map (tabla s) j = Some job \<Longrightarrow> j_conn job \<in> dom (heap s)"
    by (rule sub) (simp add: refs_def job_refsI(1))
  show "jobs_map (tabla s) j = Some job \<Longrightarrow> a \<in> set (confirmadas job) \<Longrightarrow> a_conn a \<in> dom (heap s)"
    by (rule sub) (simp add: refs_def job_refsI(2))
  show "tabla_conns_lookup (conns s) ip = Some c \<Longrightarrow> c \<in> dom (heap s)"
    by (rule sub) (simp add: refs_def lookup_in_refs [OF agent_okD(3) [OF assms]])
qed

section \<open>Work that adds nothing\<close>

text \<open>What no message handler changes of a connection.\<close>

definition conn_key :: "connection_t \<Rightarrow> int \<times> connection_type_t \<times> string \<times> bool" where
  "conn_key k = (fd k, ctype k, read_buf k, in_handler k)"

text \<open>The part of an allocation that refers to a connection.\<close>

definition alloc_key :: "Allocation \<Rightarrow> alloc_type_t \<times> conn_ptr" where
  "alloc_key a = (a_type a, a_conn a)"

definition job_le :: "Job \<Rightarrow> Job \<Rightarrow> bool" where
  "job_le job' job \<longleftrightarrow> j_conn job' = j_conn job \<and> pendientes job' = pendientes job
     \<and> alloc_key ` set (confirmadas job') \<subseteq> alloc_key ` set (confirmadas job)"

definition jobs_le :: "(int \<rightharpoonup> Job) \<Rightarrow> (int \<rightharpoonup> Job) \<Rightarrow> bool" where
  "jobs_le M' M \<longleftrightarrow> (\<forall>j job'. M' j = Some job' \<longrightarrow> (\<exists>job. M j = Some job \<and> job_le job' job))"

definition settles :: "agent \<Rightarrow> agent \<Rightarrow> bool" where
  "settles s s' \<longleftrightarrow> conns s' = conns s \<and> tabla_nodos s' = tabla_nodos s \<and> g_ip s' = g_ip s \<and> g_epfd s' = g_epfd s
     \<and> (\<forall>c. map_option conn_key (heap s' c) = map_option conn_key (heap s c))
     \<and> (heap_ok s \<longrightarrow> heap_ok s')
     \<and> (\<forall>r. set (queue s' r) \<subseteq> set (queue s r) \<and> total_amount (recursos s' r) = total_amount (recursos s r))
     \<and> (jobs_ok (tabla s) \<longrightarrow> jobs_ok (tabla s')) \<and> jobs_le (jobs_map (tabla s')) (jobs_map (tabla s))"

lemma job_le_refl [simp]: "job_le job job"
  by (simp add: job_le_def)

lemma job_le_trans: "job_le a b \<Longrightarrow> job_le b c \<Longrightarrow> job_le a c"
  by (auto simp: job_le_def)

lemma jobs_le_refl [simp]: "jobs_le M M"
  by (simp add: jobs_le_def)

lemma jobs_le_trans: "jobs_le A B \<Longrightarrow> jobs_le B C \<Longrightarrow> jobs_le A C"
  unfolding jobs_le_def using job_le_trans by blast

lemma settles_refl [simp]: "settles s s"
  by (simp add: settles_def)

lemma settles_trans: "settles s s' \<Longrightarrow> settles s' s'' \<Longrightarrow> settles s s''"
  unfolding settles_def using jobs_le_trans by (simp add: subset_iff) blast

lemma settles_dom:
  assumes "settles s s'"
  shows "dom (heap s') = dom (heap s)"
proof -
  have "heap s' c = None \<longleftrightarrow> heap s c = None" for c
    using assms unfolding settles_def by (metis map_option_is_None)
  then show ?thesis by (auto simp: dom_def)
qed

lemma settles_connecting: "settles s s' \<Longrightarrow> connecting s' c \<longleftrightarrow> connecting s c"
proof -
  assume "settles s s'"
  then have "map_option conn_key (heap s' c) = map_option conn_key (heap s c)" by (simp add: settles_def)
  then show ?thesis unfolding connecting_def
    by (cases "heap s c"; cases "heap s' c") (auto simp: conn_key_def)
qed

lemma jobs_le_refs: "jobs_le (jobs_map t') (jobs_map t) \<Longrightarrow> jobs_refs t' \<subseteq> jobs_refs t"
proof
  fix c
  assume le: "jobs_le (jobs_map t') (jobs_map t)" and "c \<in> jobs_refs t'"
  then obtain j job' where job': "jobs_map t' j = Some job'" "c \<in> job_refs job'"
    by (auto simp: jobs_refs_def ran_def)
  with le obtain job where job: "jobs_map t j = Some job" "job_le job' job" by (auto simp: jobs_le_def)
  have "a_conn ` set (confirmadas job') \<subseteq> a_conn ` set (confirmadas job)"
    using job(2) by (fastforce simp: job_le_def alloc_key_def)
  then have "job_refs job' \<subseteq> job_refs job" using job(2) by (auto simp: job_le_def job_refs_def)
  then show "c \<in> jobs_refs t" using job' job(1) by (auto simp: jobs_refs_def ran_def)
qed

lemma jobs_le_local: "jobs_le (jobs_map t') (jobs_map t) \<Longrightarrow> jobs_local_ok t \<Longrightarrow> jobs_local_ok t'"
  unfolding jobs_local_ok_def job_local_ok_def jobs_le_def job_le_def alloc_key_def ran_def
  by (fastforce simp: image_subset_iff)

lemma jobs_le_connecting: "jobs_le M' M \<Longrightarrow> connecting_ok M c \<Longrightarrow> connecting_ok M' c"
proof -
  assume le: "jobs_le M' M" and ok: "connecting_ok M c"
  have old: "\<exists>job. M j = Some job \<and> asked_once c job \<and> asks c job = asks c job' \<and> asked_once c job'"
    if m: "M' j = Some job'" for j job'
  proof -
    obtain job where "M j = Some job" "job_le job' job" using le m by (auto simp: jobs_le_def)
    moreover from this have "asked_once c job" using ok by (simp add: connecting_ok_def)
    ultimately show ?thesis by (auto simp: job_le_def asked_once_def asks_def)
  qed
  show ?thesis unfolding connecting_ok_def
  proof (intro conjI allI impI)
    show "asked_once c job'" if "M' j = Some job'" for j job' using old [OF that] by blast
    show "i = j" if "M' i = Some a \<and> M' j = Some b \<and> asks c a \<and> asks c b" for i j a b
      using that old [of i a] old [of j b] ok unfolding connecting_ok_def by blast
  qed
qed

lemma settles_refs:
  assumes "settles s s'"
  shows "queue_refs s' \<subseteq> queue_refs s" "jobs_refs (tabla s') \<subseteq> jobs_refs (tabla s)"
    "conns_refs (conns s') = conns_refs (conns s)"
proof -
  show "queue_refs s' \<subseteq> queue_refs s" using assms by (fastforce simp: settles_def queue_refs_def)
  show "jobs_refs (tabla s') \<subseteq> jobs_refs (tabla s)" "conns_refs (conns s') = conns_refs (conns s)"
    using assms jobs_le_refs by (simp_all add: settles_def)
qed

lemma settles_ok:
  assumes "settles s s'" "agent_ok s"
  shows "agent_ok s'"
proof -
  note d = agent_okD [OF assms(2)]
  have le: "jobs_le (jobs_map (tabla s')) (jobs_map (tabla s))" using assms(1) by (simp add: settles_def)
  note q = settles_refs(1) [OF assms(1)]
  have "tables_ok s'"
    using assms(1) d jobs_le_local [OF le] by (simp add: tables_ok_def settles_def)
  moreover have "heap_ok s'" using assms(1) d by (simp add: settles_def)
  moreover have "queues_ok s'" using assms(1) d(8) unfolding settles_def queues_ok_def by blast
  moreover have "refs s' \<subseteq> dom (heap s')"
    using q jobs_le_refs [OF le] d(9) assms(1) settles_dom [OF assms(1)] by (auto simp: refs_def settles_def)
  moreover have "connecting_free s'"
    using d(10) q jobs_le_connecting [OF le] assms(1) settles_connecting [OF assms(1)]
    by (auto simp: connecting_free_def settles_def)
  ultimately show ?thesis by (simp add: agent_ok_def)
qed

section \<open>Running without a fault\<close>

definition runs :: "agent \<Rightarrow> agent option \<Rightarrow> bool" where
  "runs s r \<longleftrightarrow> (\<exists>s'. r = Some s' \<and> settles s s')"

lemma runs_Some [simp]: "runs s (Some s') \<longleftrightarrow> settles s s'"
  by (simp add: runs_def)

lemma runs_bind:
  "runs s r \<Longrightarrow> (\<And>s'. r = Some s' \<Longrightarrow> settles s s' \<Longrightarrow> runs s' (f s')) \<Longrightarrow> runs s (Option.bind r f)"
  unfolding runs_def using settles_trans by fastforce

lemma runs_mono: "settles s s' \<Longrightarrow> runs s' r \<Longrightarrow> runs s r"
  unfolding runs_def using settles_trans by blast

lemma runs_ok: "runs s r \<Longrightarrow> agent_ok s \<Longrightarrow> \<exists>s'. r = Some s' \<and> settles s s' \<and> agent_ok s'"
  unfolding runs_def using settles_ok by blast

lemma conn_key_enqueue_write [simp]: "conn_key (enqueue_write ep c msg) = conn_key c"
  by (simp add: conn_key_def)

lemma send_message_runs:
  assumes "conn \<in> dom (heap s)"
  shows "runs s (send_message conn dest text s)"
proof -
  obtain k where k: "heap s conn = Some k" using assms by auto
  have "heap_ok s \<Longrightarrow> conn_fit (g_epfd s) (enqueue_write (g_epfd s) k buf)" for buf
    using k enqueue_write_fit by (simp add: heap_ok_def)
  with k show ?thesis by (simp add: send_message_def Let_def settles_def heap_ok_def)
qed

lemma limpiar_settles [simp]:
  "settles s (limpiar_colas_por_id j s)" "settles s (limpiar_colas_por_conn c s)"
  by (auto simp: settles_def heap_ok_def)

lemma settles_upd_recurso:
  "set (items (cola (f (recursos s r)))) \<subseteq> set (queue s r) \<Longrightarrow> total_amount (f (recursos s r)) = total_amount (recursos s r)
   \<Longrightarrow> settles s (upd_recurso r f s)"
  by (auto simp: settles_def heap_ok_def)

lemma settles_tabla:
  assumes "jobs_ok t'" "jobs_le (jobs_map t') (jobs_map (tabla s))"
  shows "settles s (s\<lparr>tabla := t'\<rparr>)"
  using assms by (simp add: settles_def heap_ok_def)

end
