(* ===== verification/Recursos_Safety.thy ===== *)
theory Recursos_Safety
  imports Agent_Invariant
begin

text \<open>
  From a state that satisfies the invariant the operations of \<open>Recursos\<close>, and the loops of
  the handlers that give resources back, run without a fault and only settle.
\<close>

lemma alloc_key_granted [simp]:
  "alloc_key ` set (update_first P (\<lambda>a. a\<lparr>a_result := r\<rparr>) xs) = alloc_key ` set xs"
  by (induction xs) (auto simp: alloc_key_def)

lemma cambio_alloc_map:
  assumes "jobs_ok t" "job_valid j"
  shows "\<exists>t'. tabla_jobs_cambio_alloc t j conn tipo = Some t' \<and> jobs_ok t'
    \<and> jobs_map t' = (jobs_map t)(j := map_option (\<lambda>job. job\<lparr>confirmadas :=
        update_first (\<lambda>a. a_type a = LOCAL \<and> a_conn a = conn \<and> a_name a = tipo)
          (\<lambda>a. a\<lparr>a_result := RM_GRANTED\<rparr>) (confirmadas job)\<rparr>) (jobs_map t j))"
  using update_job_map [OF assms, of "\<lambda>job. job\<lparr>confirmadas :=
        update_first (\<lambda>a. a_type a = LOCAL \<and> a_conn a = conn \<and> a_name a = tipo)
          (\<lambda>a. a\<lparr>a_result := RM_GRANTED\<rparr>) (confirmadas job)\<rparr>"]
  by (auto simp: tabla_jobs_cambio_alloc_def job_idx_bucket [OF assms(2)])

lemma jobs_le_upd: "(\<And>job. job_le (f job) job) \<Longrightarrow> jobs_le (M(j := map_option f (M j))) M"
  by (auto simp: jobs_le_def)

lemma jobs_le_del: "jobs_le (M(j := None)) M"
  by (auto simp: jobs_le_def)

lemma cambio_alloc_settles:
  assumes "jobs_ok (tabla s)" "job_valid j"
  shows "\<exists>t. tabla_jobs_cambio_alloc (tabla s) j conn tipo = Some t \<and> jobs_ok t \<and> settles s (s\<lparr>tabla := t\<rparr>)"
proof -
  obtain t where t: "tabla_jobs_cambio_alloc (tabla s) j conn tipo = Some t" "jobs_ok t"
    "jobs_map t = (jobs_map (tabla s))(j := map_option (\<lambda>job. job\<lparr>confirmadas :=
        update_first (\<lambda>a. a_type a = LOCAL \<and> a_conn a = conn \<and> a_name a = tipo)
          (\<lambda>a. a\<lparr>a_result := RM_GRANTED\<rparr>) (confirmadas job)\<rparr>) (jobs_map (tabla s) j))"
    using cambio_alloc_map [OF assms] by blast
  have "jobs_le (jobs_map t) (jobs_map (tabla s))"
    unfolding t(3) by (rule jobs_le_upd) (simp add: job_le_def)
  with t show ?thesis using settles_tabla by blast
qed

lemma grant_pending_runs:
  assumes "jobs_ok (tabla s)" "job_valid (pr_job_id p)" "owner_conn p \<in> dom (heap s)"
  shows "runs s (grant_pending tipo p s)"
proof -
  let ?s = "upd_recurso tipo (\<lambda>r. r\<lparr>available_amount := s32 (available_amount r - pr_amount p)\<rparr>) s"
  have 1: "settles s ?s" by (rule settles_upd_recurso) simp_all
  obtain t where t: "tabla_jobs_cambio_alloc (tabla ?s) (pr_job_id p) (owner_conn p) tipo = Some t"
    and 2: "settles ?s (?s\<lparr>tabla := t\<rparr>)"
    using cambio_alloc_settles [of ?s "pr_job_id p" "owner_conn p" tipo] assms(1,2) by auto
  have send: "runs (?s\<lparr>tabla := t\<rparr>) (send_message (owner_conn p) d m (?s\<lparr>tabla := t\<rparr>))" for d m
    by (rule send_message_runs) (use assms(3) in simp)
  have "runs (?s\<lparr>tabla := t\<rparr>) (grant_pending tipo p s)"
    using t send verificar_map [OF assms(2), of t] by (simp add: grant_pending_def Let_def)
  then show ?thesis using runs_mono [OF settles_trans [OF 1 2]] by blast
qed

lemma release_loop_runs: "agent_ok s \<Longrightarrow> runs s (release_loop tipo s)"
proof (induction tipo s rule: release_loop.induct)
  case (1 tipo s)
  let ?q = "cola (recursos s tipo)"
  show ?case
  proof (cases "items ?q")
    case Nil
    then show ?thesis by (simp add: release_loop.simps queue_dequeue_def Let_def)
  next
    case (Cons p ps)
    let ?c = "?q\<lparr>items := ps, q_amount := s32 (q_amount ?q - pr_amount p)\<rparr>"
    let ?s = "upd_recurso tipo (\<lambda>r. r\<lparr>cola := ?c\<rparr>) s"
    have deq: "queue_dequeue ?q = (Some p, ?c)" using Cons by (simp add: queue_dequeue_def)
    have st: "settles s ?s" by (rule settles_upd_recurso) (use Cons in auto)
    have p: "p \<in> set (queue s tipo)" using Cons by simp
    have ok: "agent_ok ?s" by (rule settles_ok [OF st 1(2)])
    have g: "runs ?s (grant_pending tipo p ?s)"
      using grant_pending_runs [of ?s p] agent_okD [OF 1(2)] live_refs(1) [OF 1(2) p] p
      by (simp add: queues_ok_def)
    show ?thesis
    proof (cases "pr_amount p \<le> available_amount (recursos s tipo)")
      case True
      have "runs ?s (grant_pending tipo p ?s \<bind> release_loop tipo)"
      proof (rule runs_bind [OF g])
        fix s'
        assume s': "grant_pending tipo p ?s = Some s'" "settles ?s s'"
        show "runs s' (release_loop tipo s')"
          using "1.IH" [OF refl deq [symmetric] refl True s'(1)] settles_ok [OF s'(2) ok] by simp
      qed
      then show ?thesis using True deq runs_mono [OF st] by (subst release_loop.simps) (simp add: Let_def)
    next
      case False
      then show ?thesis using deq by (subst release_loop.simps) (simp add: Let_def)
    qed
  qed
qed

lemma release_resource_runs: "agent_ok s \<Longrightarrow> runs s (release_resource tipo am s)"
proof -
  let ?s = "upd_recurso tipo (\<lambda>r. r\<lparr>available_amount := s32 (available_amount r + am)\<rparr>) s"
  assume ok: "agent_ok s"
  have st: "settles s ?s" by (rule settles_upd_recurso) simp_all
  have "runs s (release_loop tipo ?s)"
    using runs_mono [OF st release_loop_runs [OF settles_ok [OF st ok]]] .
  then show ?thesis by (simp add: release_resource_def Let_def)
qed

lemma release_allocs_runs: "agent_ok s \<Longrightarrow> runs s (release_allocs j as s)"
proof (induction as arbitrary: s)
  case (Cons a as)
  show ?case unfolding release_allocs.simps
  proof (rule runs_bind)
    show "runs s (if a_type a = LOCAL \<and> a_result a = RM_GRANTED then release_resource (a_name a) (a_amount a) s
        else if a_type a = REMOTE then (case tabla_conns_lookup (conns s) (a_ip a) of
            Some remote \<Rightarrow> send_message remote DEST_AGENTE_REMOTO
              (msg_release \<lparr>rm_job_id = j, rm_type = a_name a, rm_amount = a_amount a\<rparr> @ [NL]) s
          | None \<Rightarrow> Some s)
        else Some s)"
      using release_resource_runs [OF Cons.prems] live_refs(4) [OF Cons.prems]
      by (simp add: send_message_runs split: option.split)
    show "runs s' (release_allocs j as s')" if "settles s s'" for s'
      using Cons.IH settles_ok [OF that Cons.prems] by blast
  qed
qed simp

lemma extract_settles:
  assumes "jobs_ok (tabla s)" "job_valid j"
  shows "\<exists>t. tabla_jobs_extract_by_id (tabla s) j = Some (jobs_map (tabla s) j, t) \<and> settles s (s\<lparr>tabla := t\<rparr>)"
  using extract_map [OF assms] settles_tabla [of _ s] jobs_le_del by fastforce

lemma tabla_jobs_remove_runs:
  assumes "agent_ok s" "job_valid j"
  shows "runs s (tabla_jobs_remove j s)"
proof -
  obtain t where t: "tabla_jobs_extract_by_id (tabla s) j = Some (jobs_map (tabla s) j, t)"
    "settles s (s\<lparr>tabla := t\<rparr>)" using extract_settles [OF agent_okD(1) [OF assms(1)] assms(2)] by blast
  have "runs (s\<lparr>tabla := t\<rparr>) (release_allocs j as (s\<lparr>tabla := t\<rparr>))" for as
    by (rule release_allocs_runs [OF settles_ok [OF t(2) assms(1)]])
  then show ?thesis
    using t runs_mono [OF t(2)] by (auto simp: tabla_jobs_remove_def Let_def split: option.split)
qed

lemma release_jobs_runs: "agent_ok s \<Longrightarrow> runs s (release_jobs js s)"
proof (induction js arbitrary: s)
  case (Cons job js)
  let ?s = "limpiar_colas_por_id (j_job_id job) s"
  have "runs s (release_allocs (j_job_id job) (confirmadas job) ?s)"
    using runs_mono [OF limpiar_settles(1) release_allocs_runs] settles_ok [OF limpiar_settles(1) Cons.prems] .
  then show ?case unfolding release_jobs.simps
    by (rule runs_bind) (use Cons.IH settles_ok [OF _ Cons.prems] in blast)
qed simp

lemma job_release_loop_runs:
  "agent_ok s \<Longrightarrow> a_conn ` set as \<subseteq> dom (heap s) \<Longrightarrow> runs s (job_release_loop as s)"
proof (induction as arbitrary: s)
  case (Cons a as)
  show ?case unfolding job_release_loop.simps
  proof (rule runs_bind)
    show "runs s (if a_type a = LOCAL \<and> a_result a = RM_GRANTED then release_resource (a_name a) (a_amount a) s
        else Some (limpiar_colas_por_id (a_job_id a) s))"
      using release_resource_runs [OF Cons.prems(1)] by simp
    fix s'
    assume s': "settles s s'"
    have live: "a_conn ` set (a # as) \<subseteq> dom (heap s')" using Cons.prems(2) settles_dom [OF s'] by simp
    show "runs s' ((if a_type a = REMOTE
        then send_release (a_conn a) (a_job_id a) (a_name a) (a_amount a) s' else Some s') \<bind> job_release_loop as)"
    proof (rule runs_bind)
      show "runs s' (if a_type a = REMOTE
          then send_release (a_conn a) (a_job_id a) (a_name a) (a_amount a) s' else Some s')"
        using live by (simp add: send_release_def send_message_runs)
      show "runs s'' (job_release_loop as s'')" if "settles s' s''" for s''
        using Cons.IH settles_ok [OF settles_trans [OF s' that] Cons.prems(1)] live settles_dom [OF that] by simp
    qed
  qed
qed simp

end
