(* ===== verification/Manager_Safety.thy ===== *)
theory Manager_Safety
  imports Recursos_Safety
begin

text \<open>
  Every entry point of the manager, called as the server calls it, runs without a fault and
  keeps the invariant. The messages must carry job ids whose bucket exists
  (\<open>message_ok\<close>), and \<open>malloc\<close> must return memory that is not in use (\<open>malloc_fresh\<close>).
\<close>

section \<open>What is assumed of messages and of the allocator\<close>

definition parsed_ok :: "('a \<Rightarrow> bool) \<Rightarrow> 'a parsed \<Rightarrow> bool" where
  "parsed_ok P r = (case r of Valido m \<Rightarrow> P m | Invalido \<Rightarrow> True)"

definition message_ok :: "string \<Rightarrow> bool" where
  "message_ok msg \<longleftrightarrow> parsed_ok (\<lambda>m. job_valid (rm_job_id m)) (parse_reserve msg)
     \<and> parsed_ok (\<lambda>m. job_valid (rm_job_id m)) (parse_release msg)
     \<and> parsed_ok (\<lambda>m. job_valid (gm_job_id m)) (parse_granted msg)
     \<and> parsed_ok (\<lambda>m. job_valid (gm_job_id m)) (parse_denied msg)
     \<and> parsed_ok (\<lambda>m. job_valid (gm_job_id m)) (parse_job_release msg)
     \<and> parsed_ok (\<lambda>m. job_valid (gm_job_id m)) (parse_job_status msg)
     \<and> parsed_ok (\<lambda>m. job_valid (gm_job_id m)) (parse_job_timeout msg)
     \<and> (case parse_job_request msg of None \<Rightarrow> False | Some r \<Rightarrow> parsed_ok (\<lambda>m. job_valid (jr_job_id m)) r)"

definition malloc_fresh :: "red \<Rightarrow> bool" where
  "malloc_fresh red \<longleftrightarrow> (\<forall>h ip port c f. red h ip port = Connected c f \<longrightarrow> h c = None)"

section \<open>Safe calls\<close>

definition keeps_conns :: "agent \<Rightarrow> agent \<Rightarrow> bool" where
  "keeps_conns s s' \<longleftrightarrow> (\<forall>c k. heap s c = Some k \<longrightarrow> (\<exists>k'. heap s' c = Some k' \<and> conn_key k' = conn_key k))"

definition safe :: "agent \<Rightarrow> agent option \<Rightarrow> bool" where
  "safe s r \<longleftrightarrow> (\<exists>s'. r = Some s' \<and> agent_ok s' \<and> keeps_conns s s')"

lemma keeps_conns_refl [simp]: "keeps_conns s s"
  by (simp add: keeps_conns_def)

lemma keeps_conns_trans: "keeps_conns s s' \<Longrightarrow> keeps_conns s' s'' \<Longrightarrow> keeps_conns s s''"
  unfolding keeps_conns_def by metis

lemma settles_keeps: "settles s s' \<Longrightarrow> keeps_conns s s'"
  unfolding settles_def keeps_conns_def by (metis map_option_eq_Some option.simps(9))

lemma keeps_conns_heap [simp]: "heap s' = heap s \<Longrightarrow> keeps_conns s s'"
  by (simp add: keeps_conns_def)

lemma keeps_dom: "keeps_conns s s' \<Longrightarrow> c \<in> dom (heap s) \<Longrightarrow> c \<in> dom (heap s')"
  by (fastforce simp: keeps_conns_def)

lemma keeps_not_connecting:
  "keeps_conns s s' \<Longrightarrow> c \<in> dom (heap s) \<Longrightarrow> \<not> connecting s c \<Longrightarrow> \<not> connecting s' c"
  unfolding keeps_conns_def connecting_def conn_key_def by fastforce

lemma runs_safe: "agent_ok s \<Longrightarrow> runs s r \<Longrightarrow> safe s r"
  unfolding safe_def using runs_ok settles_keeps by blast

lemma safe_Some [simp]: "safe s (Some s') \<longleftrightarrow> agent_ok s' \<and> keeps_conns s s'"
  by (auto simp: safe_def)

lemma safe_bind: "safe s r \<Longrightarrow> (\<And>s'. r = Some s' \<Longrightarrow> agent_ok s' \<Longrightarrow> keeps_conns s s' \<Longrightarrow> safe s' (f s'))
  \<Longrightarrow> safe s (Option.bind r f)"
  unfolding safe_def using keeps_conns_trans by fastforce

lemma safe_trans: "keeps_conns s s' \<Longrightarrow> safe s' r \<Longrightarrow> safe s r"
  unfolding safe_def using keeps_conns_trans by blast

lemma send_message_safe: "agent_ok s \<Longrightarrow> conn \<in> dom (heap s) \<Longrightarrow> safe s (send_message conn d m s)"
  by (simp add: runs_safe send_message_runs)

lemma limpiar_safe: "agent_ok s \<Longrightarrow> agent_ok (limpiar_colas_por_id j s)"
  by (rule settles_ok [OF limpiar_settles(1)])

section \<open>Changes of the state that keep the invariant\<close>

lemma enqueue_ok:
  assumes "agent_ok s" "conn \<in> dom (heap s)" "\<not> connecting s conn" "job_valid j"
  shows "agent_ok (upd_recurso r (\<lambda>x. x\<lparr>cola := snd (queue_enqueue (cola x) j am conn m orig)\<rparr>) s)"
    (is "agent_ok ?s")
proof -
  note d = agent_okD [OF assms(1)]
  let ?p = "\<lparr>pr_job_id = j, pr_amount = am, owner_conn = conn, origen = orig\<rparr>"
  have qs: "set (queue ?s r') \<subseteq> insert ?p (set (queue s r'))" for r'
    by (auto simp: queue_enqueue_def)
  have q: "queue_refs ?s \<subseteq> insert conn (queue_refs s)"
    unfolding queue_refs_def using qs by (fastforce simp del: recursos_upd_recurso)
  have "refs ?s \<subseteq> dom (heap ?s)" using d(9) q assms(2) by (auto simp: refs_def)
  moreover have "queues_ok ?s"
    unfolding queues_ok_def using qs d(8) assms(4)
    by (fastforce simp: queues_ok_def simp del: recursos_upd_recurso)
  moreover have "connecting_free ?s"
    using d(10) assms(3) q by (auto simp: connecting_free_def connecting_def simp del: recursos_upd_recurso)
  ultimately show ?thesis using d by (simp add: agent_ok_def tables_ok_def heap_ok_def)
qed

lemma reserve_resource_ok:
  assumes "agent_ok s" "conn \<in> dom (heap s)" "\<not> connecting s conn" "job_valid j"
    and "reserve_resource r am j conn orig s = (res, s')"
  shows "agent_ok s' \<and> heap s' = heap s \<and> tabla s' = tabla s \<and> conns s' = conns s \<and> g_ip s' = g_ip s
    \<and> tabla_nodos s' = tabla_nodos s"
proof (cases "am \<le> available_amount (recursos s r)")
  case True
  let ?s = "upd_recurso r (\<lambda>x. x\<lparr>available_amount := s32 (available_amount x - am)\<rparr>) s"
  have "settles s ?s" by (rule settles_upd_recurso) simp_all
  then have "agent_ok ?s" using assms(1) by (rule settles_ok)
  with True assms(5) show ?thesis by (auto simp: reserve_resource_def Let_def)
next
  case False
  have "agent_ok (upd_recurso r (\<lambda>x. x\<lparr>cola := snd (queue_enqueue (cola (recursos s r)) j am conn m orig)\<rparr>) s)" for m
    using enqueue_ok [OF assms(1-4)] by (simp add: upd_recurso_def)
  with False assms(1,5) show ?thesis by (auto simp: reserve_resource_def Let_def split_beta split: if_splits)
qed

text \<open>A new object on the heap: an accepted or an outgoing connection.\<close>

definition add_conn :: "conn_ptr \<Rightarrow> connection_t \<Rightarrow> agent \<Rightarrow> agent" where
  "add_conn c k s = s\<lparr>heap := (heap s)(c \<mapsto> k)\<rparr>"

lemma add_conn_frame [simp]:
  "recursos (add_conn c k s) = recursos s" "tabla (add_conn c k s) = tabla s" "conns (add_conn c k s) = conns s"
  "tabla_nodos (add_conn c k s) = tabla_nodos s" "g_ip (add_conn c k s) = g_ip s" "g_epfd (add_conn c k s) = g_epfd s"
  "heap (add_conn c k s) = (heap s)(c \<mapsto> k)" "refs (add_conn c k s) = refs s"
  "queue_refs (add_conn c k s) = queue_refs s"
  by (simp_all add: add_conn_def refs_def queue_refs_def)

lemma unreferenced_connecting:
  assumes "c \<notin> refs s"
  shows "c \<notin> queue_refs s" "c \<notin> conns_refs (conns s)" "connecting_ok (jobs_map (tabla s)) c"
    "jobs_map (tabla s) j = Some job \<Longrightarrow> \<not> asks c job"
proof -
  have no: "c \<noteq> j_conn job" "\<forall>req\<in>set (pendientes job). o_conn req \<noteq> c"
    if "jobs_map (tabla s) j = Some job" for j job
    using assms job_refsI(1,3) [OF that] by (auto simp: refs_def)
  then show "jobs_map (tabla s) j = Some job \<Longrightarrow> \<not> asks c job" by (auto simp: asks_def)
  show "connecting_ok (jobs_map (tabla s)) c"
    unfolding connecting_ok_def asked_once_def asks_def using no by (auto simp: filter_empty_conv)
  show "c \<notin> queue_refs s" "c \<notin> conns_refs (conns s)" using assms by (auto simp: refs_def)
qed

lemma add_conn_ok:
  assumes "agent_ok s" "heap s c = None" "conn_fit (g_epfd s) k"
  shows "agent_ok (add_conn c k s)" "keeps_conns s (add_conn c k s)"
proof -
  note d = agent_okD [OF assms(1)]
  have "c \<notin> refs s" using d(9) assms(2) by blast
  note new = unreferenced_connecting [OF this]
  have "connecting_free (add_conn c k s)"
    using d(10) new by (auto simp: connecting_free_def connecting_def)
  moreover have "refs (add_conn c k s) \<subseteq> dom (heap (add_conn c k s))" using d(9) by auto
  moreover have "heap_ok (add_conn c k s)" using d(7) assms(3) by (auto simp: heap_ok_def)
  ultimately show "agent_ok (add_conn c k s)" using d by (simp add: agent_ok_def tables_ok_def queues_ok_def)
  show "keeps_conns s (add_conn c k s)" using assms(2) by (auto simp: keeps_conns_def)
qed

text \<open>A job whose new value refers to no more than its old one, and asks no more.\<close>

lemma update_job_ok:
  assumes "agent_ok s" "jobs_ok t" "jobs_map t = (jobs_map (tabla s))(j \<mapsto> job')" "jobs_map (tabla s) j = Some job"
    and "job_refs job' \<subseteq> job_refs job" "job_local_ok job'"
    and "\<And>c. asked_once c job \<Longrightarrow> asked_once c job'" "\<And>c. asks c job' \<Longrightarrow> asks c job"
  shows "agent_ok (s\<lparr>tabla := t\<rparr>)"
proof -
  note d = agent_okD [OF assms(1)]
  have "jobs_refs t \<subseteq> jobs_refs (tabla s)"
    using jobs_refs_upd [OF assms(3)] assms(4,5) by (auto simp: jobs_refs_def ran_def)
  then have "refs (s\<lparr>tabla := t\<rparr>) \<subseteq> dom (heap s)" using d(9) by (auto simp: refs_def queue_refs_def)
  moreover have "jobs_local_ok t" using jobs_local_upd [OF assms(3) d(2) assms(6)] .
  moreover have "connecting_ok (jobs_map t) c" if "connecting s c" for c
  proof -
    have ok: "connecting_ok (jobs_map (tabla s)) c" using d(10) that by (simp add: connecting_free_def)
    have old: "\<exists>b. jobs_map (tabla s) i = Some b \<and> (asked_once c b \<longrightarrow> asked_once c b') \<and> (asks c b' \<longrightarrow> asks c b)"
      if "jobs_map t i = Some b'" for i b'
      using that assms(4,7,8) unfolding assms(3) by (auto split: if_splits)
    show ?thesis unfolding connecting_ok_def
    proof (intro conjI allI impI)
      show "asked_once c b'" if "jobs_map t i = Some b'" for i b'
        using old [OF that] ok by (auto simp: connecting_ok_def)
      show "i = i'" if "jobs_map t i = Some a \<and> jobs_map t i' = Some b \<and> asks c a \<and> asks c b" for i i' a b
        using that old [of i a] old [of i' b] ok unfolding connecting_ok_def by blast
    qed
  qed
  ultimately show ?thesis
    using d assms(2)
    by (simp add: agent_ok_def tables_ok_def heap_ok_def queues_ok_def connecting_free_def connecting_def queue_refs_def)
qed

lemma length_filter_remove_first: "length (filter Q (remove_first P xs)) \<le> length (filter Q xs)"
  by (induction xs) (auto simp: le_SucI)

lemma job_confirmar_le:
  assumes "job_confirmar job ip j = (b, job')"
  shows "j_job_id job' = j_job_id job" "j_conn job' = j_conn job" "job_refs job' \<subseteq> job_refs job"
    "job_local_ok job \<Longrightarrow> job_local_ok job'" "asked_once c job \<Longrightarrow> asked_once c job'" "asks c job' \<Longrightarrow> asks c job"
proof -
  let ?P = "\<lambda>sal. o_ip sal = ip"
  consider "job' = job" | sal where "find ?P (pendientes job) = Some sal"
    "job' = job\<lparr>pendientes := remove_first ?P (pendientes job), confirmadas :=
       crear_allocation (o_tipo sal) (o_amount sal) REMOTE (o_ip sal) j RM_GRANTED (o_conn sal) # confirmadas job\<rparr>"
    using assms by (auto simp: job_confirmar_def split: option.splits)
  note job' = this
  show "j_job_id job' = j_job_id job" "j_conn job' = j_conn job" by (cases rule: job'; simp)+
  show "job_refs job' \<subseteq> job_refs job"
    by (cases rule: job') (auto simp: job_refs_def crear_allocation_def dest!: find_SomeD in_remove_firstD)
  show "job_local_ok job \<Longrightarrow> job_local_ok job'"
    by (cases rule: job') (auto simp: job_local_ok_def crear_allocation_def)
  show "asked_once c job \<Longrightarrow> asked_once c job'"
    using length_filter_remove_first [of "\<lambda>req. o_conn req = c" ?P "pendientes job"]
    by (cases rule: job') (auto simp: asked_once_def dest: in_remove_firstD)
  show "asks c job' \<Longrightarrow> asks c job"
    by (cases rule: job') (auto simp: asks_def dest: in_remove_firstD)
qed

section \<open>The handlers\<close>

lemma on_reserve_safe:
  assumes "agent_ok s" "conn \<in> dom (heap s)" "\<not> connecting s conn"
    and "parsed_ok (\<lambda>m. job_valid (rm_job_id m)) (parse_reserve msg)"
  shows "safe s (on_reserve conn msg s)"
proof (cases "parse_reserve msg")
  case (Valido m)
  obtain r s' where rs: "reserve_resource (rm_type m) (rm_amount m) (rm_job_id m) conn ORIGIN_REMOTE s = (r, s')"
    by fastforce
  have ok: "agent_ok s'" "heap s' = heap s"
    using reserve_resource_ok [OF assms(1-3) _ rs] assms(4) Valido by (simp_all add: parsed_ok_def)
  then have "safe s (send_message conn d t s')" for d t
    using safe_trans [of s s'] send_message_safe [OF ok(1)] assms(2) by simp
  then show ?thesis using Valido rs ok by (cases r) (simp_all add: on_reserve_def)
qed (use assms(1) in \<open>simp add: on_reserve_def\<close>)

lemma on_release_safe:
  assumes "agent_ok s" "parsed_ok (\<lambda>m. job_valid (rm_job_id m)) (parse_release msg)"
  shows "safe s (on_release msg s)"
proof (cases "parse_release msg")
  case (Valido m)
  then have v: "job_valid (rm_job_id m)" using assms(2) by (simp add: parsed_ok_def)
  have rel: "safe s (if rm_amount m \<noteq> 0 then release_resource (rm_type m) (rm_amount m) s else Some s)"
    using runs_safe [OF assms(1) release_resource_runs [OF assms(1)]] assms(1) by simp
  have rem: "safe s' (tabla_jobs_remove (rm_job_id m) s')" if "agent_ok s'" for s'
    using runs_safe [OF that tabla_jobs_remove_runs [OF that v]] .
  show ?thesis unfolding on_release_def Valido parsed.case
    by (rule safe_bind [OF rel safe_bind [OF rem]]) (simp_all add: limpiar_safe)
qed (use assms(1) in \<open>simp add: on_release_def\<close>)

lemma on_denied_safe:
  assumes "agent_ok s" "parsed_ok (\<lambda>m. job_valid (gm_job_id m)) (parse_denied msg)"
  shows "safe s (on_denied msg s)"
proof (cases "parse_denied msg")
  case (Valido m)
  then have v: "job_valid (gm_job_id m)" using assms(2) by (simp add: parsed_ok_def)
  have "safe s (tabla_jobs_remove (gm_job_id m) s \<bind> send_message (j_conn job) d t)"
    if job: "jobs_map (tabla s) (gm_job_id m) = Some job" for job d t
  proof (rule safe_bind [OF runs_safe [OF assms(1) tabla_jobs_remove_runs [OF assms(1) v]]])
    show "safe s' (send_message (j_conn job) d t s')" if "agent_ok s'" "keeps_conns s s'" for s'
      using send_message_safe [OF that(1)] keeps_dom [OF that(2) live_refs(2) [OF assms(1) job]] by blast
  qed
  then have "safe s (case map_option j_conn (jobs_map (tabla s) (gm_job_id m)) of None \<Rightarrow> Some s
      | Some conn \<Rightarrow> tabla_jobs_remove (gm_job_id m) s \<bind> send_message conn d t)" for d t
    using assms(1) by (simp split: option.split)
  then show ?thesis using Valido
    by (auto simp: on_denied_def get_conn_map [OF v] intro!: safe_bind limpiar_safe)
qed (use assms(1) in \<open>simp add: on_denied_def\<close>)

lemma on_granted_safe:
  assumes "agent_ok s" "conn \<in> dom (heap s)"
    and "parsed_ok (\<lambda>m. job_valid (gm_job_id m)) (parse_granted msg)"
  shows "safe s (on_granted conn msg s)"
proof (cases "parse_granted msg")
  case (Valido m)
  let ?j = "gm_job_id m"
  have v: "job_valid ?j" using Valido assms(3) by (simp add: parsed_ok_def)
  show ?thesis
  proof (cases "tabla_conns_get_ip_by_conn (conns s) conn")
    case ip: (Some ip)
    show ?thesis
    proof (cases "jobs_map (tabla s) ?j")
      case None
      have "safe s (send_release conn ?j RESOURCE_CPU 0 s \<bind> (\<lambda>s. send_release conn ?j RESOURCE_MEM 0 s
          \<bind> send_release conn ?j RESOURCE_GPU 0))"
        unfolding send_release_def
        by (intro safe_bind send_message_safe) (use assms keeps_dom in blast)+
      then show ?thesis using Valido ip None by (simp add: on_granted_def buscar_map [OF v])
    next
      case (Some job)
      obtain b job' where c: "job_confirmar job ip ?j = (b, job')" by fastforce
      note le = job_confirmar_le [OF c]
      let ?t = "update_job (tabla s) (job_bucket ?j) ?j (\<lambda>job. snd (job_confirmar job ip ?j))"
      let ?s = "s\<lparr>tabla := ?t\<rparr>"
      have t: "jobs_ok ?t" "jobs_map ?t = (jobs_map (tabla s))(?j \<mapsto> job')"
        using update_job_map [OF agent_okD(1) [OF assms(1)] v, of "\<lambda>job. snd (job_confirmar job ip ?j)"]
          job_confirmar_le(1) [OF prod.collapse [symmetric]] Some c by auto
      have ok: "agent_ok ?s"
        using update_job_ok [OF assms(1) t Some le(3) _ le(5,6)] le(4) agent_okD(2) [OF assms(1)] Some
        by (auto simp: jobs_local_ok_def ran_def)
      have "safe s (send_message (j_conn job') d x ?s)" for d x
        by (rule safe_trans [of s ?s]) (use send_message_safe [OF ok] live_refs(2) [OF assms(1) Some] le(2) in auto)
      then show ?thesis using Valido ip Some c ok
        by (simp add: on_granted_def buscar_map [OF v] job_idx_bucket [OF v] verificar_map [OF v] Let_def)
    qed
  qed (use assms(1) Valido in \<open>simp add: on_granted_def\<close>)
qed (use assms(1) in \<open>simp add: on_granted_def\<close>)

end
