(* ===== verification/Request_Safety.thy ===== *)
theory Request_Safety
  imports Manager_Safety
begin

text \<open>
  The handler of JOB_REQUEST builds a job outside the table while it reserves, sends and
  connects. \<open>new_job_ok\<close> is what holds of that job at every turn of the loop.
\<close>

definition new_job_ok :: "agent \<Rightarrow> conn_ptr \<Rightarrow> Job \<Rightarrow> bool" where
  "new_job_ok s conn job \<longleftrightarrow> j_conn job = conn \<and> job_local_ok job \<and> job_refs job \<subseteq> dom (heap s)
     \<and> (\<forall>c. connecting s c \<longrightarrow> asked_once c job
           \<and> (asks c job \<longrightarrow> (\<forall>i b. jobs_map (tabla s) i = Some b \<longrightarrow> \<not> asks c b)))"

lemma new_job_ok_settles:
  "new_job_ok s conn job \<Longrightarrow> settles s s' \<Longrightarrow> tabla s' = tabla s \<Longrightarrow> new_job_ok s' conn job"
  by (simp add: new_job_ok_def settles_dom settles_connecting)

lemma insert_job_ok:
  assumes "agent_ok s" "new_job_ok s conn job" "jobs_ok t" "jobs_map t = (jobs_map (tabla s))(j \<mapsto> job)"
  shows "agent_ok (s\<lparr>tabla := t\<rparr>)"
proof -
  note d = agent_okD [OF assms(1)]
  have "refs (s\<lparr>tabla := t\<rparr>) \<subseteq> dom (heap s)"
    using d(9) jobs_refs_upd [OF assms(4)] assms(2) by (auto simp: refs_def queue_refs_def new_job_ok_def)
  moreover have "jobs_local_ok t"
    using jobs_local_upd [OF assms(4) d(2)] assms(2) by (simp add: new_job_ok_def)
  moreover have "connecting_ok (jobs_map t) c" if c: "connecting s c" for c
  proof -
    have "connecting_ok (jobs_map (tabla s)) c" using d(10) c by (simp add: connecting_free_def)
    moreover have "asked_once c job" "asks c job \<Longrightarrow> \<forall>i b. jobs_map (tabla s) i = Some b \<longrightarrow> \<not> asks c b"
      using assms(2) c by (auto simp: new_job_ok_def)
    ultimately show ?thesis unfolding connecting_ok_def assms(4) fun_upd_apply
      by (metis option.inject)
  qed
  ultimately show ?thesis
    using d assms(3)
    by (simp add: agent_ok_def tables_ok_def heap_ok_def queues_ok_def connecting_free_def connecting_def queue_refs_def)
qed

text \<open>One more allocation of the owner, one more request to a connection in use or to a new one.\<close>

lemma new_job_local:
  "new_job_ok s conn job \<Longrightarrow>
   new_job_ok s conn (job\<lparr>confirmadas := crear_allocation r n LOCAL ip j res conn # confirmadas job\<rparr>)"
  by (auto simp: new_job_ok_def job_local_ok_def job_refs_def crear_allocation_def asked_once_def asks_def)

lemma new_job_remote:
  assumes "new_job_ok s conn job" "remote \<in> dom (heap s)" "\<not> connecting s remote"
  shows "new_job_ok s conn (job\<lparr>pendientes := crear_outrequest ip remote r n m # pendientes job\<rparr>)"
proof -
  let ?job = "job\<lparr>pendientes := crear_outrequest ip remote r n m # pendientes job\<rparr>"
  have "asked_once c ?job = asked_once c job" "asks c ?job = asks c job" if "connecting s c" for c
    using that assms(3) by (auto simp: asked_once_def asks_def crear_outrequest_def)
  then show ?thesis
    using assms(1,2) by (auto simp: new_job_ok_def job_local_ok_def job_refs_def crear_outrequest_def)
qed

lemma new_job_connect:
  assumes "agent_ok s" "new_job_ok s conn job" "conn \<in> dom (heap s)" "heap s c = None" "plain m"
  shows "new_job_ok (add_conn c k s) conn (job\<lparr>pendientes := crear_outrequest ip c r n (Some m) # pendientes job\<rparr>)"
proof -
  let ?job = "job\<lparr>pendientes := crear_outrequest ip c r n (Some m) # pendientes job\<rparr>"
  let ?s = "add_conn c k s"
  have p: "plain (snprintf BUFF_SIZE m)" using assms(5) by (auto simp: plain_def snprintf_def dest: in_set_takeD)
  have fresh: "c \<notin> job_refs job" using assms(2,4) by (auto simp: new_job_ok_def)
  have cref: "c \<notin> refs s" using agent_okD(9) [OF assms(1)] assms(4) by blast
  have c: "asked_once c ?job" "\<forall>i b. jobs_map (tabla s) i = Some b \<longrightarrow> \<not> asks c b"
    using fresh p unreferenced_connecting(4) [OF cref]
    by (auto simp: asked_once_def crear_outrequest_def job_refs_def filter_empty_conv)
  have other: "asked_once x ?job = asked_once x job" "asks x ?job = asks x job" if "x \<noteq> c" for x
    using that by (auto simp: asked_once_def asks_def crear_outrequest_def)
  have "asked_once x ?job \<and> (asks x ?job \<longrightarrow> (\<forall>i b. jobs_map (tabla s) i = Some b \<longrightarrow> \<not> asks x b))"
    if x: "connecting ?s x" for x
  proof (cases "x = c")
    case False
    then have "connecting s x" using x by (auto simp: connecting_def split: if_splits)
    with False other [of x] assms(2) show ?thesis by (simp add: new_job_ok_def)
  qed (use c in simp)
  then show ?thesis
    using assms(2) by (auto simp: new_job_ok_def job_local_ok_def job_refs_def crear_outrequest_def)
qed

lemma plain_reserve: "plain (snprintf BUFF_SIZE (msg_reserve m @ [NL]))"
proof -
  have "CHR ''%'' \<notin> set (msg_reserve m @ [NL])"
    by (cases "rm_type m")
      (auto simp: msg_reserve_def msg_resource_def resource_type_to_str_def is_digit_def dest!: show_int_chars)
  then show ?thesis by (auto simp: plain_def snprintf_def dest: in_set_takeD)
qed

lemma abort_job_safe:
  assumes "agent_ok s" "conn \<in> dom (heap s)"
  shows "safe s (abort_job j conn job s)"
proof -
  have r: "runs s (release_allocs j (confirmadas job) (limpiar_colas_por_id j s))"
    using runs_mono [OF limpiar_settles(1) release_allocs_runs] limpiar_safe [OF assms(1)] .
  have "runs s (abort_job j conn job s)" unfolding abort_job_def
    by (rule runs_bind [OF r]) (use assms(2) settles_dom in \<open>blast intro: send_message_runs\<close>)
  then show ?thesis using runs_safe assms(1) by blast
qed

section \<open>The loop\<close>

text \<open>
  The loop ends with the new job and the table as it was, or by an abort in a good state
  with that table.
\<close>

definition aborted :: "agent \<Rightarrow> int \<Rightarrow> conn_ptr \<Rightarrow> agent \<Rightarrow> bool" where
  "aborted s j conn s' \<longleftrightarrow> (\<exists>s1 job. agent_ok s1 \<and> tabla s1 = tabla s \<and> conn \<in> dom (heap s1) \<and> abort_job j conn job s1 = Some s')"

definition loop_ok :: "agent \<Rightarrow> int \<Rightarrow> conn_ptr \<Rightarrow> (Job option \<times> agent) option \<Rightarrow> bool" where
  "loop_ok s j conn r \<longleftrightarrow> (\<exists>res s'. r = Some (res, s') \<and> agent_ok s' \<and> keeps_conns s s'
     \<and> (case res of None \<Rightarrow> aborted s j conn s'
        | Some job \<Rightarrow> j_job_id job = j \<and> new_job_ok s' conn job \<and> tabla s' = tabla s))"

lemma loop_ok_trans: "keeps_conns s s' \<Longrightarrow> tabla s' = tabla s \<Longrightarrow> loop_ok s' j conn r \<Longrightarrow> loop_ok s j conn r"
  unfolding loop_ok_def aborted_def using keeps_conns_trans by (fastforce split: option.splits)

lemma loop_ok_abort:
  assumes "agent_ok s" "conn \<in> dom (heap s)"
  shows "loop_ok s j conn (abort_job j conn job s \<bind> (\<lambda>s. Some (None, s)))"
proof -
  obtain s' where s': "abort_job j conn job s = Some s'" "agent_ok s'" "keeps_conns s s'"
    using abort_job_safe [OF assms] by (auto simp: safe_def)
  with assms have "aborted s j conn s'" unfolding aborted_def by blast
  with s' show ?thesis by (simp add: loop_ok_def)
qed

lemma job_request_loop_ok:
  assumes "malloc_fresh red" "job_valid j"
  shows "agent_ok s \<Longrightarrow> conn \<in> dom (heap s) \<Longrightarrow> \<not> connecting s conn \<Longrightarrow> new_job_ok s conn job \<Longrightarrow> j_job_id job = j
    \<Longrightarrow> loop_ok s j conn (job_request_loop red j conn reqs job s)"
proof (induction reqs arbitrary: job s)
  case Nil
  then show ?case by (auto simp: loop_ok_def)
next
  case (Cons head rest)
  note prems = Cons.prems
  show ?case
  proof (cases "rq_ip head = g_ip s")
    case local: True
    obtain r s' where rs: "reserve_resource (rq_type head) (rq_amount head) j conn ORIGIN_LOCAL s = (r, s')"
      by fastforce
    note ok = reserve_resource_ok [OF prems(1-3) assms(2) rs]
    then have same: "keeps_conns s s'" "conn \<in> dom (heap s')" "\<not> connecting s' conn" "new_job_ok s' conn job"
      using prems(2-4) by (auto simp: connecting_def new_job_ok_def)
    have go: "loop_ok s j conn (job_request_loop red j conn rest
        (job\<lparr>confirmadas := crear_allocation (rq_type head) (rq_amount head) LOCAL (g_ip s) j r conn # confirmadas job\<rparr>) s')"
      by (rule loop_ok_trans [OF same(1)])
        (use ok same prems(5) in \<open>simp_all add: Cons.IH new_job_local\<close>)
    have "loop_ok s j conn (abort_job j conn job s' \<bind> (\<lambda>s. Some (None, s)))"
      by (rule loop_ok_trans [OF same(1) _ loop_ok_abort]) (use ok same(2) in auto)
    then show ?thesis using local rs go ok by simp
  next
    case remote: False
    show ?thesis
    proof (cases "tabla_conns_lookup (conns s) (rq_ip head)")
      case (Some rem)
      have live: "rem \<in> dom (heap s)" using live_refs(4) [OF prems(1) Some] .
      have nc: "\<not> connecting s rem"
        using lookup_in_refs [OF agent_okD(3) [OF prems(1)] Some] agent_okD(10) [OF prems(1)]
        by (auto simp: connecting_free_def)
      have "runs s (send_message rem DEST_AGENTE_REMOTO
          (msg_reserve \<lparr>rm_job_id = j, rm_type = rq_type head, rm_amount = rq_amount head\<rparr> @ [NL]) s)"
        by (rule send_message_runs [OF live])
      then obtain s' where s': "send_message rem DEST_AGENTE_REMOTO
          (msg_reserve \<lparr>rm_job_id = j, rm_type = rq_type head, rm_amount = rq_amount head\<rparr> @ [NL]) s = Some s'"
        "settles s s'" by (auto simp: runs_def)
      note fr = send_message_frame [OF s'(1)]
      have "loop_ok s j conn (job_request_loop red j conn rest (job\<lparr>pendientes :=
          crear_outrequest (rq_ip head) rem (rq_type head) (rq_amount head) None # pendientes job\<rparr>) s')"
        by (rule loop_ok_trans [OF settles_keeps [OF s'(2)] fr(2)])
          (use prems live nc settles_dom [OF s'(2)] settles_connecting [OF s'(2)] settles_ok [OF s'(2)]
             new_job_ok_settles [OF prems(4) s'(2) fr(2)] in \<open>simp add: Cons.IH new_job_remote\<close>)
      then show ?thesis using remote Some s'(1) by simp
    next
      case None
      let ?port = "tabla_nodos_get_puerto (tabla_nodos s) (rq_ip head)"
      let ?m = "snprintf BUFF_SIZE (msg_reserve \<lparr>rm_job_id = j, rm_type = rq_type head, rm_amount = rq_amount head\<rparr> @ [NL])"
      have ab: "loop_ok s j conn (abort_job j conn job s \<bind> (\<lambda>s. Some (None, s)))"
        by (rule loop_ok_abort [OF prems(1,2)])
      have conn: "loop_ok s j conn (job_request_loop red j conn rest (job\<lparr>pendientes :=
          crear_outrequest (rq_ip head) c (rq_type head) (rq_amount head) (Some ?m) # pendientes job\<rparr>) (add_conn c k s))"
        if c: "heap s c = None" and k: "conn_fit (g_epfd s) k" for c k
      proof (rule loop_ok_trans [OF add_conn_ok(2) [OF prems(1) c k]])
        show "loop_ok (add_conn c k s) j conn (job_request_loop red j conn rest (job\<lparr>pendientes :=
          crear_outrequest (rq_ip head) c (rq_type head) (rq_amount head) (Some ?m) # pendientes job\<rparr>) (add_conn c k s))"
          by (rule Cons.IH [OF add_conn_ok(1) [OF prems(1) c k] _ _
                new_job_connect [OF prems(1,4,2) c plain_reserve]])
            (use prems c in \<open>auto simp: connecting_def\<close>)
      qed simp
      have "heap s c = None" if "red (heap s) (rq_ip head) ?port = Connected c f" for c f
        using that assms(1) unfolding malloc_fresh_def by blast
      with conn have "loop_ok s j conn (job_request_loop red j conn rest (job\<lparr>pendientes :=
          crear_outrequest (rq_ip head) c (rq_type head) (rq_amount head) (Some ?m) # pendientes job\<rparr>)
          (s\<lparr>heap := (heap s)(c \<mapsto> new_connection f CONN_TCP_OUTGOING \<lparr>want_in = False, want_out = True\<rparr>)\<rparr>))"
        if "red (heap s) (rq_ip head) ?port = Connected c f" for c f
        using that by (simp add: add_conn_def)
      then show ?thesis
        using remote None ab by (auto simp: connect_remote_node_def Let_def split: connect_result.split)
    qed
  qed
qed

lemma on_job_request_safe:
  assumes "agent_ok s" "conn \<in> dom (heap s)" "\<not> connecting s conn" "malloc_fresh red"
    and "parse_job_request msg = Some r" "parsed_ok (\<lambda>m. job_valid (jr_job_id m)) r"
  shows "safe s (on_job_request red conn msg s)"
proof (cases r)
  case (Valido m)
  let ?j = "jr_job_id m"
  let ?new = "\<lparr>j_job_id = ?j, j_conn = conn, confirmadas = [], pendientes = []\<rparr>"
  have v: "job_valid ?j" using assms(6) Valido by (simp add: parsed_ok_def)
  show ?thesis
  proof (cases "jobs_map (tabla s) ?j")
    case None
    have "new_job_ok s conn ?new"
      using assms(2,3) by (auto simp: new_job_ok_def job_local_ok_def job_refs_def asked_once_def asks_def)
    then have "loop_ok s ?j conn (job_request_loop red ?j conn (request_list m) ?new s)"
      using job_request_loop_ok [OF assms(4) v assms(1-3)] by simp
    then obtain res s' where l: "job_request_loop red ?j conn (request_list m) ?new s = Some (res, s')"
      "agent_ok s'" "keeps_conns s s'"
      "\<And>job. res = Some job \<Longrightarrow> j_job_id job = ?j \<and> new_job_ok s' conn job \<and> tabla s' = tabla s"
      by (auto simp: loop_ok_def split: option.splits)
    show ?thesis
    proof (cases res)
      case None': None
      then show ?thesis using assms(5) Valido None l by (simp add: on_job_request_def buscar_map [OF v])
    next
      case (Some job)
      note job = l(4) [OF Some]
      obtain t where t: "tabla_jobs_insertar_job (tabla s') job = Some t" "jobs_ok t"
        "jobs_map t = (jobs_map (tabla s'))(?j \<mapsto> job)"
        using insertar_map [OF agent_okD(1) [OF l(2)], of job] job v None by auto
      have ok: "agent_ok (s'\<lparr>tabla := t\<rparr>)" using insert_job_ok [OF l(2) _ t(2,3)] job by blast
      have k: "keeps_conns s (s'\<lparr>tabla := t\<rparr>)" using keeps_conns_trans [OF l(3)] by simp
      have "safe s (send_message conn d x (s'\<lparr>tabla := t\<rparr>))" for d x
        using safe_trans [OF k send_message_safe [OF ok keeps_dom [OF k assms(2)]]] .
      then show ?thesis
        using assms(5) Valido None l Some t ok k
        by (simp add: on_job_request_def buscar_map [OF v] verificar_map [OF v] Let_def)
    qed
  next
    case (Some job)
    then show ?thesis using assms(1,5) Valido by (simp add: on_job_request_def buscar_map [OF v])
  qed
qed (use assms(1,5) in \<open>simp add: on_job_request_def\<close>)

end
