(* ===== verification/Server.thy ===== *)
theory Server
  imports Resource_Manager
begin

text \<open>
  The event handlers of \<^verbatim>\<open>agente_c/src/server.c\<close>. What the kernel answers to a system
  call is an argument: \<open>write\<close> as a function of the connection (it is offered what a handler
  before it may have queued), \<open>accept\<close> and \<open>recvfrom\<close> as the list of their results up to EAGAIN. A handler
  returns whether it closed the connection, the -1 of the code.
\<close>

section \<open>The heap\<close>

definition upd_conn :: "conn_ptr \<Rightarrow> (connection_t \<Rightarrow> connection_t) \<Rightarrow> agent \<Rightarrow> agent" where
  "upd_conn c f s = s\<lparr>heap := (heap s)(c := map_option f (heap s c))\<rparr>"

definition free_conn :: "conn_ptr \<Rightarrow> agent \<Rightarrow> agent" where
  "free_conn c s = s\<lparr>heap := (heap s)(c := None)\<rparr>"

text \<open>The lines \<open>process_disconnect(conn); close(conn->fd); ...; free(conn)\<close>.\<close>

definition close_conn :: "conn_ptr \<Rightarrow> agent \<Rightarrow> agent option" where
  "close_conn conn s = do {
     s \<leftarrow> process_disconnect conn s;
     _ \<leftarrow> heap s conn;
     Some (free_conn conn s)
   }"

section \<open>Reading\<close>

text \<open>\<open>strchr\<close> for a newline: the search ends at the first NUL.\<close>

definition next_line :: "string \<Rightarrow> (string \<times> string) option" where
  "next_line buf = (let line = takeWhile (\<lambda>c. c \<noteq> NL \<and> c \<noteq> NUL) buf in
     case drop (length line) buf of
       c # rest \<Rightarrow> if c = NL then Some (line, rest) else None
     | [] \<Rightarrow> None)"

lemma next_line_shorter: "next_line buf = Some (line, rest) \<Longrightarrow> length rest < length buf"
proof -
  assume "next_line buf = Some (line, rest)"
  then have "drop (length (takeWhile (\<lambda>c. c \<noteq> NL \<and> c \<noteq> NUL) buf)) buf = NL # rest"
    by (auto simp: next_line_def Let_def split: list.splits if_splits)
  then have "length (NL # rest) = length buf - length (takeWhile (\<lambda>c. c \<noteq> NL \<and> c \<noteq> NUL) buf)"
    by (metis length_drop)
  then show ?thesis by simp
qed

text \<open>The extraction loop: what is left of the buffer, and the state after the messages.\<close>

function read_lines :: "red \<Rightarrow> conn_ptr \<Rightarrow> string \<Rightarrow> agent \<Rightarrow> (string \<times> agent) option" where
  "read_lines red conn buf s = (case next_line buf of
      None \<Rightarrow> Some (buf, s)
    | Some (line, rest) \<Rightarrow> do {
        s \<leftarrow> process_message red conn line s;
        read_lines red conn rest s
      })"
  by pat_completeness auto
termination
  by (relation "measure (\<lambda>(red, conn, buf, s). length buf)") (auto dest: next_line_shorter)

declare read_lines.simps [simp del]

datatype read_result = ReadError bool | Read string

definition handle_tcp_read ::
  "red \<Rightarrow> read_result \<Rightarrow> conn_ptr \<Rightarrow> agent \<Rightarrow> (bool \<times> agent) option" where
  "handle_tcp_read red rd conn s = do {
     k \<leftarrow> heap s conn;
     (case rd of
        ReadError again \<Rightarrow> if again then Some (False, s)
          else do { s \<leftarrow> close_conn conn s; Some (True, s) }
      | Read bs \<Rightarrow>
          if bs = [] then do { s \<leftarrow> close_conn conn s; Some (True, s) }
          else do {
            let buf = read_buf k @ bs;
            (remaining, s) \<leftarrow> read_lines red conn buf (upd_conn conn (\<lambda>k. k\<lparr>read_buf := buf\<rparr>) s);
            _ \<leftarrow> heap s conn;
            Some (False, upd_conn conn (\<lambda>k. k\<lparr>read_buf := remaining\<rparr>) s)
          })
   }"

section \<open>Writing, accepting, connecting\<close>

definition handle_tcp_write :: "(connection_t \<Rightarrow> write_result) \<Rightarrow> conn_ptr \<Rightarrow> agent \<Rightarrow> (bool \<times> agent) option" where
  "handle_tcp_write wr conn s = do {
     k \<leftarrow> heap s conn;
     (case tcp_write (wr k) k of
        Some k' \<Rightarrow> Some (False, upd_conn conn (\<lambda>_. k') s)
      | None \<Rightarrow> do { s \<leftarrow> close_conn conn s; Some (True, s) })
   }"

text \<open>
  One successful \<open>accept\<close>: the descriptor, what \<open>malloc\<close> returns in the current heap, and
  whether \<open>epoll_ctl\<close> registers the descriptor.
\<close>

record accepted =
  client_fd :: int
  malloc_conn :: "(conn_ptr \<rightharpoonup> connection_t) \<Rightarrow> conn_ptr option"
  epoll_add :: bool

fun handle_accept :: "connection_type_t \<Rightarrow> accepted list \<Rightarrow> agent \<Rightarrow> agent" where
  "handle_accept ty [] s = s"
| "handle_accept ty (a # as) s = (case malloc_conn a (heap s) of
      None \<Rightarrow> handle_accept ty as s
    | Some conn \<Rightarrow> handle_accept ty as
        (if epoll_add a then s\<lparr>heap := (heap s)(conn \<mapsto> new_connection (client_fd a) ty
           \<lparr>want_in = True, want_out = False\<rparr>)\<rparr> else s))"

definition accepted_type :: "connection_type_t \<Rightarrow> connection_type_t" where
  "accepted_type listen = (if listen = CONN_TCP_PUBLIC_LISTEN then CONN_TCP_CLIENT_REMOTE else CONN_TCP_CLIENT_LOCAL)"

text \<open>\<open>ok\<close> is whether \<open>getsockopt\<close> succeeds and reports no socket error.\<close>

definition handle_outgoing_connection_event :: "bool \<Rightarrow> conn_ptr \<Rightarrow> agent \<Rightarrow> (bool \<times> agent) option" where
  "handle_outgoing_connection_event ok conn s = do {
     _ \<leftarrow> heap s conn;
     if \<not> ok then do {
       s \<leftarrow> process_connection_failed conn s;
       _ \<leftarrow> heap s conn;
       Some (True, free_conn conn s)
     } else do {
       s \<leftarrow> process_connection_ready conn (upd_conn conn (\<lambda>k. k\<lparr>ctype := CONN_TCP_CLIENT_REMOTE\<rparr>) s);
       Some (False, s)
     }
   }"

text \<open>A datagram: the address of its sender as \<open>inet_ntop\<close> writes it, and its bytes.\<close>

fun handle_udp_read :: "int \<Rightarrow> (string \<times> string) list \<Rightarrow> agent \<Rightarrow> agent" where
  "handle_udp_read now [] s = s"
| "handle_udp_read now ((sender_ip, bs) # ds) s =
     handle_udp_read now ds (process_announce now sender_ip (cstr (take (BUFF_SIZE - 1) bs)) s)"

section \<open>The body of the event loop\<close>

record event =
  ev_conn :: conn_ptr
  ev_err :: bool
  ev_in :: bool
  ev_out :: bool
  ev_read :: read_result
  ev_write :: "connection_t \<Rightarrow> write_result"
  ev_connected :: bool
  ev_accepts :: "accepted list"
  ev_datagrams :: "(string \<times> string) list"
  ev_now :: int

definition on_readable :: "red \<Rightarrow> event \<Rightarrow> agent \<Rightarrow> (bool \<times> agent) option" where
  "on_readable red ev s = do {
     k \<leftarrow> heap s (ev_conn ev);
     (case ctype k of
        CONN_TCP_PUBLIC_LISTEN \<Rightarrow> Some (False, handle_accept (accepted_type (ctype k)) (ev_accepts ev) s)
      | CONN_TCP_LOCAL_LISTEN \<Rightarrow> Some (False, handle_accept (accepted_type (ctype k)) (ev_accepts ev) s)
      | CONN_UDP_DISCOVERY \<Rightarrow> Some (False, handle_udp_read (ev_now ev) (ev_datagrams ev) s)
      | _ \<Rightarrow> handle_tcp_read red (ev_read ev) (ev_conn ev) s)
   }"

definition on_writable :: "event \<Rightarrow> agent \<Rightarrow> (bool \<times> agent) option" where
  "on_writable ev s = do {
     k \<leftarrow> heap s (ev_conn ev);
     (case ctype k of
        CONN_TCP_CLIENT_REMOTE \<Rightarrow> handle_tcp_write (ev_write ev) (ev_conn ev) s
      | CONN_TCP_CLIENT_LOCAL \<Rightarrow> handle_tcp_write (ev_write ev) (ev_conn ev) s
      | CONN_TCP_OUTGOING \<Rightarrow> handle_outgoing_connection_event (ev_connected ev) (ev_conn ev) s
      | _ \<Rightarrow> Some (False, s))
   }"

definition rearm :: "conn_ptr \<Rightarrow> agent \<Rightarrow> agent option" where
  "rearm conn s = do {
     k \<leftarrow> heap s conn;
     (case rearm_conn (g_epfd s) k of (ok, k') \<Rightarrow>
        let s = upd_conn conn (\<lambda>_. k') s in if ok then Some s else close_conn conn s)
   }"

definition worker_event :: "red \<Rightarrow> event \<Rightarrow> agent \<Rightarrow> agent option" where
  "worker_event red ev s = do {
     k \<leftarrow> heap s (ev_conn ev);
     let oneshot = conn_uses_oneshot k;
     let s = (if oneshot then upd_conn (ev_conn ev) (\<lambda>k. k\<lparr>in_handler := True\<rparr>) s else s);
     if ev_err ev \<or> \<not> (ev_in ev \<or> ev_out ev) then close_conn (ev_conn ev) s
     else do {
       (closed, s) \<leftarrow> (if ev_in ev then on_readable red ev s else Some (False, s));
       (closed, s) \<leftarrow> (if \<not> closed \<and> ev_out ev then on_writable ev s else Some (closed, s));
       if \<not> closed \<and> oneshot then rearm (ev_conn ev) s else Some s
     }
   }"

end
