(* ===== verification/Entry_Safety.thy ===== *)
theory Entry_Safety
  imports Request_Safety Server
begin

text \<open>
  The other messages of the planner, \<open>process_message\<close> as a whole, and the entry points for
  announcements and for connections that become ready, fail or go away.
\<close>

section \<open>GET_NODES\<close>

lemma nodes_append_plain: "plain buf \<Longrightarrow> plain (ne_ip e) \<Longrightarrow> plain (nodes_append buf e)"
  by (auto simp: plain_def nodes_append_def node_text_def snprintf_def Let_def is_digit_def
      dest!: in_set_takeD show_int_chars)

lemma nodes_reply_plain:
  assumes "nodos_text_ok t"
  shows "plain (nodes_reply t)"
proof -
  have "plain buf \<Longrightarrow> \<forall>e\<in>set es. plain (ne_ip e) \<Longrightarrow> plain (foldl nodes_append buf es)" for buf es
    by (induction es arbitrary: buf) (auto simp: nodes_append_plain)
  moreover have "plain ''NODES ''" by (simp add: plain_def)
  ultimately have "plain (foldl nodes_append ''NODES '' (concat t))"
    using assms by (simp add: nodos_text_ok_def entries_def)
  then show ?thesis by (auto simp: nodes_reply_def Let_def plain_def dest: in_set_butlastD)
qed

lemma on_get_nodes_safe:
  assumes "agent_ok s" "conn \<in> dom (heap s)"
  shows "safe s (on_get_nodes conn s)"
  using nodes_reply_plain [OF agent_okD(6) [OF assms(1)]] send_message_safe [OF assms]
  by (simp add: on_get_nodes_def plain_def format_no_args_id)

section \<open>JOB_RELEASE, JOB_STATUS and JOB_TIMEOUT\<close>

lemma on_job_release_safe:
  assumes "agent_ok s" "parsed_ok (\<lambda>m. job_valid (gm_job_id m)) (parse_job_release msg)"
  shows "safe s (on_job_release msg s)"
proof (cases "parse_job_release msg")
  case (Valido m)
  then have v: "job_valid (gm_job_id m)" using assms(2) by (simp add: parsed_ok_def)
  obtain t where t: "tabla_jobs_extract_by_id (tabla s) (gm_job_id m) = Some (jobs_map (tabla s) (gm_job_id m), t)"
    "settles s (s\<lparr>tabla := t\<rparr>)" using extract_settles [OF agent_okD(1) [OF assms(1)] v] by blast
  have ok: "agent_ok (s\<lparr>tabla := t\<rparr>)" using settles_ok [OF t(2) assms(1)] .
  have "runs s (job_release_loop (confirmadas job) (s\<lparr>tabla := t\<rparr>) \<bind> (\<lambda>s. Some (limpiar_colas_por_id (gm_job_id m) s)))"
    if job: "jobs_map (tabla s) (gm_job_id m) = Some job" for job
  proof (rule runs_mono [OF t(2)])
    have "a_conn ` set (confirmadas job) \<subseteq> dom (heap (s\<lparr>tabla := t\<rparr>))"
      using live_refs(3) [OF assms(1) job] by auto
    from runs_bind [OF job_release_loop_runs [OF ok this]]
    show "runs (s\<lparr>tabla := t\<rparr>) (job_release_loop (confirmadas job) (s\<lparr>tabla := t\<rparr>)
        \<bind> (\<lambda>s. Some (limpiar_colas_por_id (gm_job_id m) s)))" by simp
  qed
  then have "runs s (on_job_release msg s)"
    using Valido t by (simp add: on_job_release_def Let_def split: option.split)
  then show ?thesis using runs_safe assms(1) by blast
qed (use assms(1) in \<open>simp add: on_job_release_def\<close>)

lemma on_job_status_safe:
  assumes "agent_ok s" "conn \<in> dom (heap s)" "parsed_ok (\<lambda>m. job_valid (gm_job_id m)) (parse_job_status msg)"
  shows "safe s (on_job_status conn msg s)"
  using assms send_message_safe [OF assms(1,2)]
  by (auto simp: on_job_status_def parsed_ok_def get_conn_map split: parsed.splits)

lemma on_job_timeout_safe:
  assumes "agent_ok s" "parsed_ok (\<lambda>m. job_valid (gm_job_id m)) (parse_job_timeout msg)"
  shows "safe s (on_job_timeout msg s)"
proof (cases "parse_job_timeout msg")
  case (Valido m)
  then have "job_valid (gm_job_id m)" using assms(2) by (simp add: parsed_ok_def)
  from runs_bind [OF tabla_jobs_remove_runs [OF assms(1) this]]
  have "runs s (on_job_timeout msg s)" using Valido by (simp add: on_job_timeout_def)
  then show ?thesis using runs_safe assms(1) by blast
qed (use assms(1) in \<open>simp add: on_job_timeout_def\<close>)

section \<open>The entry points\<close>

lemma process_message_safe:
  assumes "agent_ok s" "conn \<in> dom (heap s)" "\<not> connecting s conn" "malloc_fresh red" "message_ok msg"
  shows "safe s (process_message red conn msg s)"
proof -
  obtain k where live: "heap s conn = Some k" using assms(2) by auto
  have parsed: "parsed_ok (\<lambda>m. job_valid (rm_job_id m)) (parse_reserve msg)"
    "parsed_ok (\<lambda>m. job_valid (rm_job_id m)) (parse_release msg)"
    "parsed_ok (\<lambda>m. job_valid (gm_job_id m)) (parse_granted msg)"
    "parsed_ok (\<lambda>m. job_valid (gm_job_id m)) (parse_denied msg)"
    "parsed_ok (\<lambda>m. job_valid (gm_job_id m)) (parse_job_release msg)"
    "parsed_ok (\<lambda>m. job_valid (gm_job_id m)) (parse_job_status msg)"
    "parsed_ok (\<lambda>m. job_valid (gm_job_id m)) (parse_job_timeout msg)"
    using assms(5) by (simp_all add: message_ok_def)
  obtain r where r: "parse_job_request msg = Some r" "parsed_ok (\<lambda>m. job_valid (jr_job_id m)) r"
    using assms(5) by (auto simp: message_ok_def split: option.splits)
  note handlers = on_reserve_safe [OF assms(1-3) parsed(1)] on_release_safe [OF assms(1) parsed(2)]
    on_granted_safe [OF assms(1,2) parsed(3)] on_denied_safe [OF assms(1) parsed(4)]
    on_job_request_safe [OF assms(1-4) r] on_get_nodes_safe [OF assms(1,2)]
    on_job_release_safe [OF assms(1) parsed(5)] on_job_status_safe [OF assms(1,2) parsed(6)]
    on_job_timeout_safe [OF assms(1) parsed(7)]
  show ?thesis using handlers live assms(1) by (simp add: process_message_def)
qed

lemma process_announce_ok:
  assumes "agent_ok s" "ip_fits ip" "plain ip"
  shows "agent_ok (process_announce now ip msg s)" "heap (process_announce now ip msg s) = heap s"
proof -
  note d = agent_okD [OF assms(1)]
  have "nodos_text_ok (tabla_nodos_insert_or_update now ip p a b c (tabla_nodos s))" for p a b c
    using set_entries_insert_or_update [OF d(5) assms(2)] d(6) assms(3) by (fastforce simp: nodos_text_ok_def)
  moreover have "nodos_ok (tabla_nodos_insert_or_update now ip p a b c (tabla_nodos s))" for p a b c
    using nodos_ok_insert_or_update d(5) assms(2) by blast
  ultimately show "agent_ok (process_announce now ip msg s)"
    using d assms(1)
    by (auto simp: process_announce_def agent_ok_def tables_ok_def heap_ok_def queues_ok_def refs_def
        queue_refs_def connecting_free_def connecting_def split: parsed.split)
  show "heap (process_announce now ip msg s) = heap s"
    by (simp add: process_announce_def split: parsed.split)
qed

section \<open>Connections that go away\<close>

lemma free_conn_ok:
  assumes "agent_ok s" "c \<notin> refs s"
  shows "agent_ok (free_conn c s)"
proof -
  note d = agent_okD [OF assms(1)]
  have "refs (free_conn c s) = refs s" by (simp add: refs_def queue_refs_def free_conn_def)
  then have "refs (free_conn c s) \<subseteq> dom (heap (free_conn c s))"
    using d(9) assms(2) by (auto simp: free_conn_def)
  moreover have "connecting (free_conn c s) x \<Longrightarrow> connecting s x" for x
    by (auto simp: connecting_def free_conn_def split: if_splits)
  ultimately show ?thesis
    using d by (auto simp: agent_ok_def tables_ok_def heap_ok_def queues_ok_def connecting_free_def queue_refs_def
        free_conn_def split: if_splits)
qed

lemma extract_conn_settles:
  assumes "agent_ok s" "tabla_jobs_extract_by_remote_conn (tabla s) c = (lista, t)"
  shows "settles s (s\<lparr>tabla := t\<rparr>)" "c \<notin> jobs_refs t"
proof -
  note d = agent_okD [OF assms(1)]
  have "job_le (drop_remote_allocs c job) job" for job by (auto simp: job_le_def drop_remote_allocs_def)
  then have "jobs_le (jobs_map t) (jobs_map (tabla s))"
    unfolding jobs_le_def extract_by_conn_map [OF d(1) assms(2)] by (auto split: option.splits if_splits)
  then show "settles s (s\<lparr>tabla := t\<rparr>)" using settles_tabla extract_by_conn_ok [OF d(1) assms(2)] by blast
  show "c \<notin> jobs_refs t" using extract_by_conn_refs(1) [OF d(1,2) assms(2)] by blast
qed

lemma process_disconnect_safe:
  assumes "agent_ok s"
  shows "\<exists>s'. process_disconnect c s = Some s' \<and> agent_ok (free_conn c s') \<and> keeps_conns s s'"
proof -
  let ?s = "limpiar_colas_por_conn c s"
  obtain lista t where ex: "tabla_jobs_extract_by_remote_conn (tabla ?s) c = (lista, t)" by fastforce
  have ok1: "agent_ok ?s" by (rule settles_ok [OF limpiar_settles(2) assms])
  note x = extract_conn_settles [OF ok1 ex]
  have ok2: "agent_ok (?s\<lparr>tabla := t\<rparr>)" by (rule settles_ok [OF x(1) ok1])
  obtain s2 where r: "release_jobs lista (?s\<lparr>tabla := t\<rparr>) = Some s2" "settles (?s\<lparr>tabla := t\<rparr>) s2"
    using release_jobs_runs [OF ok2] by (auto simp: runs_def)
  let ?t = "tabla_conns_delete_by_conn (conns s2) c"
  let ?s3 = "s2\<lparr>conns := ?t\<rparr>"
  have ok3: "agent_ok s2" by (rule settles_ok [OF r(2) ok2])
  note d = agent_okD [OF ok3]
  have cs: "conns_refs ?t = conns_refs (conns s2) - {c}" by (rule conns_refs_delete_by_conn [OF d(4)])
  have "queue_refs (?s\<lparr>tabla := t\<rparr>) \<subseteq> - {c}" by (auto simp: queue_refs_def)
  then have "c \<notin> refs ?s3"
    using settles_refs [OF r(2)] x(2) cs by (auto simp: refs_def)
  moreover have "agent_ok ?s3"
    using d cs conns_ok_delete_by_conn [OF d(3)] conns_distinct_delete_by_conn [OF d(4)]
    by (auto simp: agent_ok_def tables_ok_def heap_ok_def queues_ok_def refs_def
        connecting_free_def connecting_def)
  ultimately have "agent_ok (free_conn c ?s3)" using free_conn_ok by blast
  moreover have "keeps_conns s ?s3"
    using settles_keeps [OF settles_trans [OF settles_trans [OF limpiar_settles(2) x(1)] r(2)]]
    by (simp add: keeps_conns_def)
  ultimately show ?thesis using ex r by (simp add: process_disconnect_def Let_def)
qed

lemma process_connection_failed_safe:
  assumes "agent_ok s" "connecting s c"
  shows "\<exists>s'. process_connection_failed c s = Some s' \<and> agent_ok (free_conn c s') \<and> keeps_conns s s'"
proof -
  obtain lista t where ex: "tabla_jobs_extract_by_remote_conn (tabla s) c = (lista, t)" by fastforce
  note x = extract_conn_settles [OF assms(1) ex]
  have ok: "agent_ok (s\<lparr>tabla := t\<rparr>)" by (rule settles_ok [OF x(1) assms(1)])
  obtain s' where r: "release_jobs lista (s\<lparr>tabla := t\<rparr>) = Some s'" "settles (s\<lparr>tabla := t\<rparr>) s'"
    using release_jobs_runs [OF ok] by (auto simp: runs_def)
  have "c \<notin> queue_refs s" "c \<notin> conns_refs (conns s)"
    using agent_okD(10) [OF assms(1)] assms(2) by (auto simp: connecting_free_def)
  then have "c \<notin> refs s'"
    using settles_refs [OF r(2)] x(2) by (auto simp: refs_def)
  then have "agent_ok (free_conn c s')" using free_conn_ok settles_ok [OF r(2) ok] by blast
  moreover have "keeps_conns s s'" using settles_keeps [OF settles_trans [OF x(1) r(2)]] .
  ultimately show ?thesis using ex r by (simp add: process_connection_failed_def)
qed

section \<open>Connections that become ready\<close>

lemma filter_once:
  "distinct (map j_job_id js) \<Longrightarrow> \<forall>job\<in>set js. asked_once c job \<Longrightarrow>
   \<forall>a\<in>set js. \<forall>b\<in>set js. asks c a \<and> asks c b \<longrightarrow> j_job_id a = j_job_id b \<Longrightarrow>
   length (filter (\<lambda>req. o_conn req = c) (concat (map pendientes js))) \<le> 1"
proof (induction js)
  case (Cons job js)
  show ?case
  proof (cases "asks c job")
    case True
    have "j_job_id b \<noteq> j_job_id job" if "b \<in> set js" for b
      using that Cons.prems(1) by (metis distinct.simps(2) image_eqI list.set_map list.simps(9))
    with True Cons.prems(3) have "\<not> asks c b" if "b \<in> set js" for b
      using that by (metis list.set_intros)
    then have "filter (\<lambda>req. o_conn req = c) (concat (map pendientes js)) = []"
      by (auto simp: filter_empty_conv asks_def)
    then show ?thesis using Cons.prems(2) by (simp add: asked_once_def)
  next
    case False
    then have "filter (\<lambda>req. o_conn req = c) (pendientes job) = []" by (auto simp: filter_empty_conv asks_def)
    moreover have "length (filter (\<lambda>req. o_conn req = c) (concat (map pendientes js))) \<le> 1"
    proof (rule Cons.IH)
      show "distinct (map j_job_id js)" "\<forall>job\<in>set js. asked_once c job" using Cons.prems(1,2) by simp_all
      show "\<forall>a\<in>set js. \<forall>b\<in>set js. asks c a \<and> asks c b \<longrightarrow> j_job_id a = j_job_id b"
        using Cons.prems(3) by (meson list.set_intros(2))
    qed
    ultimately show ?thesis by simp
  qed
qed simp

lemma pendientes_once:
  assumes "jobs_ok t" "connecting_ok (jobs_map t) c"
  shows "length (tabla_jobs_get_pendientes_by_conn t c) \<le> 1"
proof -
  have "distinct (map j_job_id (entries t))"
    using assms(1) jobs.entries_distinct by (auto simp: jobs_ok_def)
  moreover have "\<forall>job\<in>set (entries t). asked_once c job"
    "\<forall>a\<in>set (entries t). \<forall>b\<in>set (entries t). asks c a \<and> asks c b \<longrightarrow> j_job_id a = j_job_id b"
    using assms(2) jobs_map_entries [OF assms(1)] unfolding connecting_ok_def by blast+
  ultimately have "length (filter (\<lambda>req. o_conn req = c) (concat (map pendientes (entries t)))) \<le> 1"
    by (rule filter_once)
  then show ?thesis by (simp add: tabla_jobs_get_pendientes_by_conn_def entries_def)
qed

text \<open>
  Changing one connection. The assignment to \<open>conn->type\<close> when a connection is established
  is the only one that changes whether it is \<open>connecting\<close>.
\<close>

lemma upd_conn_frame [simp]:
  "recursos (upd_conn c f s) = recursos s" "tabla (upd_conn c f s) = tabla s" "conns (upd_conn c f s) = conns s"
  "tabla_nodos (upd_conn c f s) = tabla_nodos s" "g_epfd (upd_conn c f s) = g_epfd s" "g_ip (upd_conn c f s) = g_ip s"
  "queue_refs (upd_conn c f s) = queue_refs s" "refs (upd_conn c f s) = refs s"
  "heap (upd_conn c f s) = (heap s)(c := map_option f (heap s c))"
  by (simp_all add: upd_conn_def refs_def)

lemma dom_upd_conn: "dom (heap (upd_conn c f s)) = dom (heap s)"
  by (auto split: if_splits)

lemma upd_conn_ok:
  assumes "agent_ok s" "\<And>k. heap s c = Some k \<Longrightarrow> conn_fit (g_epfd s) (f k)"
    and "\<And>k. heap s c = Some k \<Longrightarrow> ctype (f k) = CONN_TCP_OUTGOING \<Longrightarrow> ctype k = CONN_TCP_OUTGOING"
  shows "agent_ok (upd_conn c f s)"
proof -
  note d = agent_okD [OF assms(1)]
  have "heap_ok (upd_conn c f s)" using d(7) assms(2) by (auto simp: heap_ok_def)
  moreover have "connecting (upd_conn c f s) x \<Longrightarrow> connecting s x" for x
    using assms(3) by (auto simp: connecting_def split: if_splits)
  ultimately show ?thesis
    using d dom_upd_conn [of c f s] by (simp add: agent_ok_def tables_ok_def queues_ok_def connecting_free_def)
qed

lemma conns_insert_ok:
  assumes "agent_ok s" "c \<in> dom (heap s)" "\<not> connecting s c" "c \<notin> conns_refs (conns s)" "ip_fits ip"
  shows "agent_ok (s\<lparr>conns := tabla_conns_insert (conns s) ip c\<rparr>)"
proof -
  note d = agent_okD [OF assms(1)]
  note new = conns_ok_insert [OF d(3) assms(5)] conns_distinct_insert [OF d(3) assms(5) d(4) assms(4)]
    conns_refs_insert [OF d(3) assms(5)]
  have "connecting_free (s\<lparr>conns := tabla_conns_insert (conns s) ip c\<rparr>)"
    using d(10) assms(3) new(3) by (auto simp: connecting_free_def connecting_def)
  with d assms(2) new show ?thesis
    by (auto simp: agent_ok_def tables_ok_def heap_ok_def queues_ok_def refs_def)
qed

lemma process_connection_ready_safe:
  assumes "agent_ok s" "connecting s c"
  shows "safe (upd_conn c (\<lambda>k. k\<lparr>ctype := CONN_TCP_CLIENT_REMOTE\<rparr>) s)
    (process_connection_ready c (upd_conn c (\<lambda>k. k\<lparr>ctype := CONN_TCP_CLIENT_REMOTE\<rparr>) s))"
proof -
  let ?s = "upd_conn c (\<lambda>k. k\<lparr>ctype := CONN_TCP_CLIENT_REMOTE\<rparr>) s"
  note d = agent_okD [OF assms(1)]
  have cok: "connecting_ok (jobs_map (tabla s)) c" and nc: "c \<notin> conns_refs (conns s)"
    using d(10) assms(2) by (auto simp: connecting_free_def)
  have ok: "agent_ok ?s" by (rule upd_conn_ok [OF assms(1)]) (use d(7) in \<open>auto simp: heap_ok_def\<close>)
  have live: "c \<in> dom (heap ?s)" and nc': "\<not> connecting ?s c" using assms(2) by (auto simp: connecting_def)
  let ?l = "tabla_jobs_get_pendientes_by_conn (tabla s) c"
  show ?thesis
  proof (cases ?l)
    case Nil
    then show ?thesis using ok by (simp add: process_connection_ready_def)
  next
    case (Cons req rest)
    then have l: "?l = [req]" using pendientes_once [OF d(1) cok] by simp
    obtain j job out where out: "jobs_map (tabla s) j = Some job" "out \<in> set (pendientes job)" "o_conn out = c"
      "req = copy_outrequest out" using pendientes_by_conn_mem [OF d(1), of req c] l by auto
    then obtain m where m: "o_msg out = Some m" "plain m"
      using cok unfolding connecting_ok_def asked_once_def by blast
    let ?m = "snprintf BUFF_SIZE m"
    have pm: "CHR ''%'' \<notin> set ?m" using m(2) by (auto simp: plain_def snprintf_def dest: in_set_takeD)
    let ?s2 = "?s\<lparr>conns := tabla_conns_insert (conns ?s) (o_ip req) c\<rparr>"
    have ok2: "agent_ok ?s2"
      using conns_insert_ok [OF ok live nc'] nc
      by (simp add: out(4) copy_outrequest_def crear_outrequest_def strncpy_field_def)
    have "safe ?s (send_message c d ?m ?s2)" for d
      by (rule safe_trans [of _ ?s2]) (use send_message_safe [OF ok2] live in simp_all)
    moreover have "o_msg req = Some ?m" using m out by (simp add: copy_outrequest_def crear_outrequest_def)
    moreover have "ready_loop c [] = Some" by auto
    ultimately show ?thesis
      using l pm by (simp add: process_connection_ready_def format_no_args_id Let_def)
  qed
qed

end
