(* ===== verification/Server_Safety.thy ===== *)
theory Server_Safety
  imports Entry_Safety
begin

text \<open>
  The event handlers of the server keep the invariant and do not fault, under what the
  kernel guarantees of the events it reports (\<open>event_ok\<close>). The reading loop is split into
  framing, a function of the bytes alone, and the processing of the lines.
\<close>

section \<open>Framing\<close>

function lines_of :: "string \<Rightarrow> string list \<times> string" where
  "lines_of buf = (case next_line buf of
      None \<Rightarrow> ([], buf)
    | Some (line, rest) \<Rightarrow> (case lines_of rest of (ls, r) \<Rightarrow> (line # ls, r)))"
  by pat_completeness auto
termination
  by (relation "measure length") (auto dest: next_line_shorter)

declare lines_of.simps [simp del]

lemma lines_of_Some: "next_line buf = Some (line, rest) \<Longrightarrow> lines_of buf = (line # fst (lines_of rest), snd (lines_of rest))"
  by (simp add: lines_of.simps [of buf] split_beta)

fun run_messages :: "red \<Rightarrow> conn_ptr \<Rightarrow> string list \<Rightarrow> agent \<Rightarrow> agent option" where
  "run_messages red conn [] s = Some s"
| "run_messages red conn (l # ls) s = process_message red conn l s \<bind> run_messages red conn ls"

lemma read_lines_framing:
  "read_lines red conn buf s = run_messages red conn (fst (lines_of buf)) s \<bind> (\<lambda>s. Some (snd (lines_of buf), s))"
proof (induction red conn buf s rule: read_lines.induct)
  case (1 red conn buf s)
  show ?case
  proof (cases "next_line buf")
    case None
    then show ?thesis by (simp add: read_lines.simps lines_of.simps [of buf])
  next
    case (Some p)
    obtain line rest where p: "p = (line, rest)" by fastforce
    have "read_lines red conn buf s = process_message red conn line s \<bind> read_lines red conn rest"
      using Some p by (simp add: read_lines.simps [of red conn buf s])
    also have "\<dots> = process_message red conn line s \<bind> (\<lambda>s. run_messages red conn (fst (lines_of rest)) s
        \<bind> (\<lambda>s. Some (snd (lines_of rest), s)))"
      using "1.IH" [OF Some p [symmetric]] by (intro Option.bind_cong) auto
    finally show ?thesis using Some p by (simp add: lines_of.simps [of buf] split_beta)
  qed
qed

lemma next_line_Some:
  "next_line buf = Some (line, rest) \<longleftrightarrow> buf = line @ NL # rest \<and> NL \<notin> set line \<and> NUL \<notin> set line"
proof
  let ?P = "\<lambda>c. c \<noteq> NL \<and> c \<noteq> NUL"
  assume "next_line buf = Some (line, rest)"
  then have line: "line = takeWhile ?P buf" "drop (length line) buf = NL # rest"
    by (auto simp: next_line_def Let_def split: list.splits if_splits)
  then have "buf = line @ NL # rest" by (metis append_take_drop_id takeWhile_eq_take)
  moreover have "\<forall>c\<in>set line. ?P c" unfolding line(1) by (blast dest: set_takeWhileD)
  ultimately show "buf = line @ NL # rest \<and> NL \<notin> set line \<and> NUL \<notin> set line" by blast
next
  let ?P = "\<lambda>c. c \<noteq> NL \<and> c \<noteq> NUL"
  assume a: "buf = line @ NL # rest \<and> NL \<notin> set line \<and> NUL \<notin> set line"
  then have "takeWhile ?P (line @ NL # rest) = line" by (subst takeWhile_append2) auto
  with a show "next_line buf = Some (line, rest)" by (simp add: next_line_def Let_def)
qed

lemma lines_of_append:
  assumes "NUL \<notin> set a"
  shows "lines_of (a @ b) = (fst (lines_of a) @ fst (lines_of (snd (lines_of a) @ b)), snd (lines_of (snd (lines_of a) @ b)))"
  using assms
proof (induction a rule: lines_of.induct)
  case (1 a)
  show ?case
  proof (cases "next_line a")
    case None
    then show ?thesis by (simp add: lines_of.simps [of a])
  next
    case (Some p)
    obtain line rest where p: "p = (line, rest)" by fastforce
    then have a: "a = line @ NL # rest" and nl: "next_line (a @ b) = Some (line, rest @ b)"
      using Some by (simp_all add: next_line_Some)
    have "lines_of (rest @ b) = (fst (lines_of rest) @ fst (lines_of (snd (lines_of rest) @ b)),
        snd (lines_of (snd (lines_of rest) @ b)))"
      using "1.IH" [OF Some p [symmetric]] "1.prems" a by simp
    then show ?thesis
      unfolding lines_of_Some [OF nl] lines_of_Some [OF Some [unfolded p]] by simp
  qed
qed

lemma length_remaining: "length (snd (lines_of buf)) \<le> length buf"
proof (induction buf rule: lines_of.induct)
  case (1 buf)
  show ?case
  proof (cases "next_line buf")
    case (Some p)
    then show ?thesis
      using "1.IH" [OF Some, of "fst p" "snd p"] next_line_shorter [of buf "fst p" "snd p"]
      by (simp add: lines_of.simps [of buf] split_beta)
  qed (simp add: lines_of.simps [of buf])
qed

section \<open>What the kernel guarantees of an event\<close>

definition read_result_ok :: "connection_t \<Rightarrow> read_result \<Rightarrow> bool" where
  "read_result_ok k rd = (case rd of ReadError _ \<Rightarrow> True
     | Read bs \<Rightarrow> length bs \<le> BUFF_SIZE - read_pos k - 1 \<and> list_all message_ok (fst (lines_of (read_buf k @ bs))))"

definition malloc_conn_ok :: "accepted \<Rightarrow> bool" where
  "malloc_conn_ok a \<longleftrightarrow> (\<forall>h c. malloc_conn a h = Some c \<longrightarrow> h c = None)"

text \<open>
  A socket that is still connecting is not readable; \<open>inet_ntop\<close> writes at most fifteen
  digits and dots; \<open>malloc\<close> returns memory not in use; the lines that arrive carry job ids
  the table can index.
\<close>

definition event_ok :: "event \<Rightarrow> agent \<Rightarrow> bool" where
  "event_ok ev s \<longleftrightarrow> (\<exists>k. heap s (ev_conn ev) = Some k \<and> read_result_ok k (ev_read ev)
       \<and> (ctype k = CONN_TCP_OUTGOING \<longrightarrow> \<not> ev_in ev))
     \<and> (\<forall>k. write_result_ok k (ev_write ev k)) \<and> list_all malloc_conn_ok (ev_accepts ev)
     \<and> list_all (\<lambda>d. ip_fits (fst d) \<and> plain (fst d)) (ev_datagrams ev)"

section \<open>The handlers\<close>

text \<open>
  After a handler: the connection is closed and gone, or alive with the type and the
  \<open>in_handler\<close> flag it had; the other connections are alive.
\<close>

definition others_live :: "conn_ptr \<Rightarrow> agent \<Rightarrow> agent \<Rightarrow> bool" where
  "others_live c s s' \<longleftrightarrow> (\<forall>x. x \<noteq> c \<and> x \<in> dom (heap s) \<longrightarrow> x \<in> dom (heap s'))"

definition handled :: "(connection_t \<Rightarrow> bool) \<Rightarrow> conn_ptr \<Rightarrow> agent \<Rightarrow> (bool \<times> agent) option \<Rightarrow> bool" where
  "handled P c s r \<longleftrightarrow> (\<exists>closed s'. r = Some (closed, s') \<and> agent_ok s' \<and> others_live c s s'
     \<and> (if closed then heap s' c = None else (\<exists>k. heap s' c = Some k \<and> P k)))"

lemma handled_Some [simp]: "handled P c s (Some (closed, s')) \<longleftrightarrow> agent_ok s' \<and> others_live c s s'
  \<and> (if closed then heap s' c = None else (\<exists>k. heap s' c = Some k \<and> P k))"
  by (auto simp: handled_def)

lemma others_live_refl [simp]: "others_live c s s"
  by (simp add: others_live_def)

lemma others_live_trans: "others_live c s s' \<Longrightarrow> others_live c s' s'' \<Longrightarrow> others_live c s s''"
  by (simp add: others_live_def)

definition role :: "connection_t \<Rightarrow> connection_type_t \<times> bool" where
  "role k = (ctype k, in_handler k)"

lemma keeps_role: "keeps_conns s s' \<Longrightarrow> heap s c = Some k \<Longrightarrow> \<exists>k'. heap s' c = Some k' \<and> role k' = role k"
  unfolding keeps_conns_def role_def conn_key_def by fastforce

lemma keeps_others_live: "keeps_conns s s' \<Longrightarrow> others_live c s s'"
  using keeps_dom by (auto simp: others_live_def)

lemma close_conn_safe:
  assumes "agent_ok s" "c \<in> dom (heap s)"
  shows "\<exists>s'. close_conn c s = Some s' \<and> agent_ok s' \<and> heap s' c = None \<and> others_live c s s'"
proof -
  obtain s' where s': "process_disconnect c s = Some s'" "agent_ok (free_conn c s')" "keeps_conns s s'"
    using process_disconnect_safe [OF assms(1)] by blast
  obtain k where "heap s' c = Some k" using keeps_dom [OF s'(3) assms(2)] by blast
  with s' show ?thesis
    using keeps_others_live [OF s'(3)] by (auto simp: close_conn_def free_conn_def others_live_def)
qed

lemma close_conn_handled:
  "agent_ok s \<Longrightarrow> c \<in> dom (heap s) \<Longrightarrow> handled P c s (close_conn c s \<bind> (\<lambda>s. Some (True, s)))"
  using close_conn_safe by (fastforce simp: handled_def)

lemma run_messages_safe:
  assumes "malloc_fresh red"
  shows "agent_ok s \<Longrightarrow> c \<in> dom (heap s) \<Longrightarrow> \<not> connecting s c \<Longrightarrow> list_all message_ok ls
    \<Longrightarrow> safe s (run_messages red c ls s)"
proof (induction ls arbitrary: s)
  case (Cons l ls)
  have "safe s (process_message red c l s)"
    using process_message_safe [OF Cons.prems(1-3) assms] Cons.prems(4) by simp
  then show ?case unfolding run_messages.simps
  proof (rule safe_bind)
    show "safe s' (run_messages red c ls s')" if "agent_ok s'" "keeps_conns s s'" for s'
      using Cons.IH [OF that(1) keeps_dom [OF that(2) Cons.prems(2)] keeps_not_connecting [OF that(2) Cons.prems(2,3)]]
        Cons.prems(4) by simp
  qed
qed simp

lemma conn_fit_read_buf:
  "conn_fit ep k \<Longrightarrow> length buf < BUFF_SIZE \<Longrightarrow> conn_fit ep (k\<lparr>read_buf := buf\<rparr>)"
  by (simp add: conn_fit_def conn_ok_def wakeup_ok_def)

lemma handle_tcp_read_safe:
  assumes "agent_ok s" "heap s c = Some k" "ctype k \<noteq> CONN_TCP_OUTGOING" "malloc_fresh red" "read_result_ok k rd"
  shows "handled (\<lambda>k'. role k' = role k) c s (handle_tcp_read red rd c s)"
proof -
  have live: "c \<in> dom (heap s)" using assms(2) by blast
  have fit: "conn_fit (g_epfd s) k" using agent_okD(7) [OF assms(1)] assms(2) by (simp add: heap_ok_def)
  note closing = close_conn_handled [OF assms(1) live]
  show ?thesis
  proof (cases rd)
    case (ReadError again)
    then show ?thesis using closing assms(1,2) by (simp add: handle_tcp_read_def)
  next
    case (Read bs)
    show ?thesis
    proof (cases "bs = []")
      case True
      then show ?thesis using Read closing assms(2) by (simp add: handle_tcp_read_def)
    next
      case False
      let ?buf = "read_buf k @ bs" and ?ls = "lines_of (read_buf k @ bs)"
      let ?s = "upd_conn c (\<lambda>k. k\<lparr>read_buf := ?buf\<rparr>) s"
      have len: "length ?buf < BUFF_SIZE"
        using assms(5) Read fit by (auto simp: read_result_ok_def conn_fit_def conn_ok_def)
      have ok: "agent_ok ?s"
        by (rule upd_conn_ok [OF assms(1)]) (use conn_fit_read_buf [OF fit len] assms(2) in auto)
      have k1: "heap ?s c = Some (k\<lparr>read_buf := ?buf\<rparr>)" using assms(2) by simp
      have "safe ?s (run_messages red c (fst ?ls) ?s)"
        by (rule run_messages_safe [OF assms(4) ok])
          (use k1 assms(3,5) Read in \<open>auto simp: connecting_def read_result_ok_def\<close>)
      then obtain s' where s': "run_messages red c (fst ?ls) ?s = Some s'" "agent_ok s'" "keeps_conns ?s s'"
        by (auto simp: safe_def)
      obtain k' where k': "heap s' c = Some k'" "role k' = role k"
        using keeps_role [OF s'(3) k1] by (auto simp: role_def)
      let ?t = "upd_conn c (\<lambda>k. k\<lparr>read_buf := snd ?ls\<rparr>) s'"
      have "conn_fit (g_epfd s') k'" using agent_okD(7) [OF s'(2)] k'(1) by (simp add: heap_ok_def)
      then have "agent_ok ?t"
        using length_remaining [of ?buf] len k'(1) by (intro upd_conn_ok [OF s'(2)]) (auto intro: conn_fit_read_buf)
      moreover have "others_live c s ?t"
        using keeps_others_live [OF s'(3)] unfolding others_live_def dom_upd_conn .
      ultimately show ?thesis
        using Read False assms(2) s'(1) k'
        by (simp add: handle_tcp_read_def read_lines_framing Let_def role_def)
    qed
  qed
qed

lemma handle_tcp_write_safe:
  assumes "agent_ok s" "heap s c = Some k" "in_handler k" "\<And>k. write_result_ok k (wr k)"
  shows "handled (\<lambda>_. True) c s (handle_tcp_write wr c s)"
proof (cases "tcp_write (wr k) k")
  case None
  have live: "c \<in> dom (heap s)" using assms(2) by blast
  show ?thesis using None close_conn_handled [OF assms(1) live] assms(2) by (simp add: handle_tcp_write_def)
next
  case (Some k')
  have fit: "conn_fit (g_epfd s) k" using agent_okD(7) [OF assms(1)] assms(2) by (simp add: heap_ok_def)
  have "in_handler k' \<and> ctype k' = ctype k"
    using Some assms(3) by (auto simp: tcp_write_def Let_def split: write_result.splits if_splits)
  moreover have "conn_ok k'" using tcp_write_ok [OF _ assms(4) Some] fit by (simp add: conn_fit_def)
  ultimately have "agent_ok (upd_conn c (\<lambda>_. k') s)"
    using assms(2) by (intro upd_conn_ok [OF assms(1)]) (auto simp: conn_fit_def wakeup_ok_def)
  moreover have "others_live c s (upd_conn c (\<lambda>_. k') s)" unfolding others_live_def dom_upd_conn by simp
  ultimately show ?thesis using Some assms(2) by (simp add: handle_tcp_write_def)
qed

lemma handle_accept_safe:
  assumes "ty \<noteq> CONN_TCP_OUTGOING"
  shows "agent_ok s \<Longrightarrow> list_all malloc_conn_ok as \<Longrightarrow>
    agent_ok (handle_accept ty as s) \<and> keeps_conns s (handle_accept ty as s)"
proof (induction as arbitrary: s)
  case (Cons a as)
  show ?case
  proof (cases "malloc_conn a (heap s)")
    case None
    then show ?thesis using Cons by simp
  next
    case (Some c)
    let ?k = "new_connection (client_fd a) ty \<lparr>want_in = True, want_out = False\<rparr>"
    have "heap s c = None" using Some Cons.prems(2) by (simp add: malloc_conn_ok_def)
    note new = add_conn_ok [OF Cons.prems(1) this, of ?k, OF new_connection_fit]
    have "agent_ok (handle_accept ty as (add_conn c ?k s)) \<and> keeps_conns (add_conn c ?k s) (handle_accept ty as (add_conn c ?k s))"
      using Cons.IH [OF new(1)] Cons.prems(2) by simp
    then show ?thesis
      using Some Cons keeps_conns_trans [OF new(2)] by (auto simp: add_conn_def)
  qed
qed simp

lemma handle_udp_read_safe:
  "agent_ok s \<Longrightarrow> list_all (\<lambda>d. ip_fits (fst d) \<and> plain (fst d)) ds \<Longrightarrow>
   agent_ok (handle_udp_read now ds s) \<and> heap (handle_udp_read now ds s) = heap s"
  by (induction now ds s rule: handle_udp_read.induct) (simp_all add: process_announce_ok)

lemma handle_outgoing_safe:
  assumes "agent_ok s" "connecting s c"
  shows "handled (\<lambda>_. True) c s (handle_outgoing_connection_event ok c s)"
proof -
  let ?s = "upd_conn c (\<lambda>k. k\<lparr>ctype := CONN_TCP_CLIENT_REMOTE\<rparr>) s"
  obtain k where k: "heap s c = Some k" using assms(2) by (auto simp: connecting_def)
  obtain s1 where s1: "process_connection_failed c s = Some s1" "agent_ok (free_conn c s1)" "keeps_conns s s1"
    using process_connection_failed_safe [OF assms] by blast
  obtain s2 where s2: "process_connection_ready c ?s = Some s2" "agent_ok s2" "keeps_conns ?s s2"
    using process_connection_ready_safe [OF assms] by (auto simp: safe_def)
  have "\<exists>k1. heap s1 c = Some k1" "\<exists>k2. heap s2 c = Some k2"
    using keeps_role [OF s1(3) k] keeps_role [OF s2(3), of c] k by auto
  moreover have "others_live c s (free_conn c s1)"
    using keeps_others_live [OF s1(3), of c] by (auto simp: others_live_def free_conn_def)
  moreover have "others_live c s s2"
    using keeps_others_live [OF s2(3), of c] unfolding others_live_def dom_upd_conn .
  ultimately show ?thesis
    using k s1(1,2) s2(1,2) by (auto simp: handle_outgoing_connection_event_def free_conn_def)
qed

section \<open>One event\<close>

lemma on_readable_safe:
  assumes "agent_ok s" "heap s (ev_conn ev) = Some k" "ctype k \<noteq> CONN_TCP_OUTGOING" "malloc_fresh red"
    and "read_result_ok k (ev_read ev)" "list_all malloc_conn_ok (ev_accepts ev)"
    and "list_all (\<lambda>d. ip_fits (fst d) \<and> plain (fst d)) (ev_datagrams ev)"
  shows "handled (\<lambda>k'. role k' = role k) (ev_conn ev) s (on_readable red ev s)"
proof -
  note tcp = handle_tcp_read_safe [OF assms(1-5)]
  have "accepted_type (ctype k) \<noteq> CONN_TCP_OUTGOING" by (simp add: accepted_type_def)
  note acc = handle_accept_safe [OF this assms(1,6)]
  have acc': "\<exists>k'. heap (handle_accept (accepted_type (ctype k)) (ev_accepts ev) s) (ev_conn ev) = Some k' \<and> role k' = role k"
    using keeps_role [OF conjunct2 [OF acc] assms(2)] .
  note udp = handle_udp_read_safe [OF assms(1,7), of "ev_now ev"]
  have "others_live (ev_conn ev) s (handle_udp_read (ev_now ev) (ev_datagrams ev) s)"
    using udp by (simp add: others_live_def)
  with udp acc acc' keeps_others_live [OF conjunct2 [OF acc]] tcp assms(2,3) show ?thesis
    by (cases "ctype k") (simp_all add: on_readable_def)
qed

lemma on_writable_safe:
  assumes "agent_ok s" "heap s (ev_conn ev) = Some k" "conn_uses_oneshot k \<Longrightarrow> in_handler k"
    and "\<And>k. write_result_ok k (ev_write ev k)"
  shows "handled (\<lambda>_. True) (ev_conn ev) s (on_writable ev s)"
  using handle_tcp_write_safe [OF assms(1,2) _ assms(4)] handle_outgoing_safe [OF assms(1), of "ev_conn ev"]
    assms by (cases "ctype k") (auto simp: on_writable_def connecting_def conn_uses_oneshot_def)

lemma rearm_safe:
  assumes "agent_ok s" "heap s c = Some k"
  shows "\<exists>s'. rearm c s = Some s' \<and> agent_ok s' \<and> others_live c s s'"
proof -
  obtain ok k' where r: "rearm_conn (g_epfd s) k = (ok, k')" by fastforce
  let ?s = "upd_conn c (\<lambda>_. k') s"
  have fit: "conn_fit (g_epfd s) k" using agent_okD(7) [OF assms(1)] assms(2) by (simp add: heap_ok_def)
  have ty: "ctype k' = ctype k" using r by (auto simp: rearm_conn_def Let_def split: if_splits)
  have "conn_fit (g_epfd s) k'"
  proof (cases ok)
    case True
    have "conn_ok k" using fit by (simp add: conn_fit_def)
    with True r show ?thesis using rearm_conn_fit [of k "g_epfd s" k'] by simp
  next
    case False
    with r have "\<not> g_epfd s (fd k)" "k' = k\<lparr>in_handler := False\<rparr>"
      by (auto simp: rearm_conn_def Let_def split: if_splits)
    with fit show ?thesis by (auto simp: conn_fit_def conn_ok_def)
  qed
  then have "agent_ok ?s" using ty assms(2) by (intro upd_conn_ok [OF assms(1)]) auto
  moreover have ol: "others_live c s ?s" unfolding others_live_def dom_upd_conn by simp
  moreover have "c \<in> dom (heap ?s)" using assms(2) by auto
  ultimately obtain s' where "close_conn c ?s = Some s'" "agent_ok s'" "others_live c s s'"
    using close_conn_safe others_live_trans [OF ol] by blast
  then show ?thesis
    using r assms(2) \<open>agent_ok ?s\<close> ol by (auto simp: rearm_def Let_def)
qed

lemma rearm_if:
  assumes "handled (\<lambda>_. True) c s r"
  shows "\<exists>s'. r \<bind> (\<lambda>(closed, s). if \<not> closed \<and> b then rearm c s else Some s) = Some s'
    \<and> agent_ok s' \<and> others_live c s s'"
proof -
  obtain closed s1 where r: "r = Some (closed, s1)" "agent_ok s1" "others_live c s s1"
    "\<not> closed \<Longrightarrow> \<exists>k. heap s1 c = Some k"
    using assms by (auto simp: handled_def split: if_splits)
  show ?thesis
  proof (cases "\<not> closed \<and> b")
    case True
    then obtain k where "heap s1 c = Some k" using r(4) by blast
    from rearm_safe [OF r(2) this] True r show ?thesis using others_live_trans [OF r(3)] by auto
  qed (use r in auto)
qed

lemma worker_event_safe:
  assumes "agent_ok s" "malloc_fresh red" "event_ok ev s"
  shows "\<exists>s'. worker_event red ev s = Some s' \<and> agent_ok s' \<and> others_live (ev_conn ev) s s'"
proof -
  let ?c = "ev_conn ev"
  obtain k where k: "heap s ?c = Some k" "read_result_ok k (ev_read ev)" "ctype k = CONN_TCP_OUTGOING \<Longrightarrow> \<not> ev_in ev"
    using assms(3) by (auto simp: event_ok_def)
  have rest: "\<And>k. write_result_ok k (ev_write ev k)" "list_all malloc_conn_ok (ev_accepts ev)"
    "list_all (\<lambda>d. ip_fits (fst d) \<and> plain (fst d)) (ev_datagrams ev)"
    using assms(3) by (auto simp: event_ok_def)
  let ?one = "conn_uses_oneshot k"
  let ?s = "if ?one then upd_conn ?c (\<lambda>k. k\<lparr>in_handler := True\<rparr>) s else s"
  let ?k = "if ?one then k\<lparr>in_handler := True\<rparr> else k"
  have fit: "conn_fit (g_epfd s) k" using agent_okD(7) [OF assms(1)] k(1) by (simp add: heap_ok_def)
  have "conn_fit (g_epfd s) (k\<lparr>in_handler := True\<rparr>)"
    using fit by (auto simp: conn_fit_def conn_ok_def wakeup_ok_def)
  then have ok: "agent_ok ?s" using assms(1) k(1) by (auto intro!: upd_conn_ok)
  have k': "heap ?s ?c = Some ?k" "ctype ?k = ctype k" "read_result_ok ?k (ev_read ev)" "conn_uses_oneshot ?k = ?one"
    using k by (auto simp: read_result_ok_def conn_uses_oneshot_def split: read_result.split)
  have ol: "others_live ?c s ?s" by (auto simp: others_live_def)
  let ?rd = "if ev_in ev then on_readable red ev ?s else Some (False, ?s)"
  have rd: "handled (\<lambda>k1. role k1 = role ?k) ?c ?s ?rd"
  proof (cases "ev_in ev")
    case True
    then have "ctype ?k \<noteq> CONN_TCP_OUTGOING" using k(3) k'(2) by metis
    from on_readable_safe [OF ok k'(1) this assms(2) k'(3) rest(2,3)] True show ?thesis by simp
  qed (use k'(1) ok in auto)
  then obtain closed s1 where s1: "?rd = Some (closed, s1)" "agent_ok s1" "others_live ?c ?s s1"
    "if closed then heap s1 ?c = None else (\<exists>k1. heap s1 ?c = Some k1 \<and> role k1 = role ?k)"
    by (auto simp: handled_def)
  let ?wr = "if \<not> closed \<and> ev_out ev then on_writable ev s1 else Some (closed, s1)"
  have "handled (\<lambda>_. True) ?c s1 ?wr"
  proof (cases "\<not> closed \<and> ev_out ev")
    case True
    then obtain k1 where k1: "heap s1 ?c = Some k1" "role k1 = role ?k" using s1(4) by auto
    then have "conn_uses_oneshot k1 \<Longrightarrow> in_handler k1"
      using k'(4) by (auto simp: role_def conn_uses_oneshot_def split: if_splits)
    from on_writable_safe [OF s1(2) k1(1) this rest(1)] True show ?thesis by auto
  next
    case False
    with s1(2,4) show ?thesis by (cases closed) auto
  qed
  from rearm_if [OF this, of ?one] obtain s2 where s2:
    "?wr \<bind> (\<lambda>(closed, s). if \<not> closed \<and> ?one then rearm ?c s else Some s) = Some s2" "agent_ok s2" "others_live ?c s1 s2"
    by blast
  have live: "?c \<in> dom (heap ?s)" using k'(1) by blast
  obtain s3 where s3: "close_conn ?c ?s = Some s3" "agent_ok s3" "others_live ?c ?s s3"
    using close_conn_safe [OF ok live] by blast
  have "worker_event red ev s = (if ev_err ev \<or> \<not> (ev_in ev \<or> ev_out ev) then close_conn ?c ?s
      else ?wr \<bind> (\<lambda>(closed, s). if \<not> closed \<and> ?one then rearm ?c s else Some s))"
    using k(1) s1(1) by (simp add: worker_event_def Let_def del: upd_conn_frame)
  with s2 s3 others_live_trans [OF ol] others_live_trans [OF others_live_trans [OF ol s1(3)] s2(3)]
  show ?thesis by auto
qed

end
