(* ===== verification/Main_Agent.thy ===== *)
theory Main_Agent
  imports Server_Safety
begin

text \<open>
  Start-up (\<^verbatim>\<open>agente_c/src/main.c\<close> and \<open>init_server_sockets\<close> of \<^verbatim>\<open>server.c\<close>),
  the broadcast thread, and the agent as a transition system: from the state after
  start-up, each step is one event handled by a worker or one turn of the broadcast
  thread. The system calls that make and register a listening socket are one argument,
  \<open>los\<close>: \<open>None\<close> when one of them fails, which exits the program.
\<close>

section \<open>Start-up\<close>

record config_t =
  cfg_ip :: string
  cfg_port :: int
  cfg_cpu :: int
  cfg_mem :: int
  cfg_gpu :: int

definition config_of_args :: "string list \<Rightarrow> config_t option" where
  "config_of_args argv = (case argv of
      [_, ip, port, cpu, mem, gpu] \<Rightarrow> Some \<lparr>cfg_ip = strncpy_field 16 ip, cfg_port = atoi port,
        cfg_cpu = atoi cpu, cfg_mem = atoi mem, cfg_gpu = atoi gpu\<rparr>
    | _ \<Rightarrow> None)"

definition announce_msg :: "config_t \<Rightarrow> string" where
  "announce_msg cfg = msg_announce \<lparr>an_puerto = cfg_port cfg, an_cpu = cfg_cpu cfg, an_mem = cfg_mem cfg, an_gpu = cfg_gpu cfg\<rparr>"

type_synonym los = "(conn_ptr \<rightharpoonup> connection_t) \<Rightarrow> connection_type_t \<Rightarrow> (conn_ptr \<times> int) option"

datatype started = ExitFailure | Started agent

fun create_listen_socket :: "los \<Rightarrow> connection_type_t \<Rightarrow> started \<Rightarrow> started" where
  "create_listen_socket los ty ExitFailure = ExitFailure"
| "create_listen_socket los ty (Started s) = (case los (heap s) ty of
      None \<Rightarrow> ExitFailure
    | Some (conn, f) \<Rightarrow> Started (s\<lparr>heap := (heap s)(conn \<mapsto> new_connection f ty \<lparr>want_in = True, want_out = False\<rparr>)\<rparr>))"

definition init_server_sockets :: "los \<Rightarrow> agent \<Rightarrow> started" where
  "init_server_sockets los s = create_listen_socket los CONN_UDP_DISCOVERY
     (create_listen_socket los CONN_TCP_LOCAL_LISTEN
       (create_listen_socket los CONN_TCP_PUBLIC_LISTEN (Started s)))"

text \<open>\<open>epfd\<close> is \<open>None\<close> when \<open>epoll_create1\<close> fails.\<close>

definition main_agent :: "string list \<Rightarrow> epoll option \<Rightarrow> los \<Rightarrow> started" where
  "main_agent argv epfd los = (case config_of_args argv of
      None \<Rightarrow> ExitFailure
    | Some cfg \<Rightarrow> (let s = manager_set_ip (cfg_ip cfg)
          (manager_init (cfg_cpu cfg) (cfg_mem cfg) (cfg_gpu cfg) (agent_start (\<lambda>_. False))) in
        case epfd of
          None \<Rightarrow> ExitFailure
        | Some ep \<Rightarrow> (case init_server_sockets los s of
              ExitFailure \<Rightarrow> ExitFailure
            | Started s \<Rightarrow> Started (manager_set_epoll ep s))))"

text \<open>One turn of \<open>broadcast_loop\<close>: the datagram is sent and the node table purged.\<close>

definition broadcast_step :: "int \<Rightarrow> agent \<Rightarrow> agent" where
  "broadcast_step now s = s\<lparr>tabla_nodos := tabla_nodos_purge now 15 (tabla_nodos s)\<rparr>"

section \<open>The agent as a transition system\<close>

text \<open>
  \<open>ok\<close> restricts the events: each property names what it assumes of them beyond what the
  kernel guarantees. The answers \<open>red\<close> of the network may differ from event to event.
\<close>

inductive agent_step :: "(event \<Rightarrow> agent \<Rightarrow> bool) \<Rightarrow> agent \<Rightarrow> agent \<Rightarrow> bool" for ok where
  step_event: "malloc_fresh red \<Longrightarrow> event_ok ev s \<Longrightarrow> ok ev s \<Longrightarrow> worker_event red ev s = Some s' \<Longrightarrow> agent_step ok s s'"
| step_broadcast: "agent_step ok s (broadcast_step now s)"

inductive_cases agent_stepE: "agent_step ok s s'"

definition los_fresh :: "los \<Rightarrow> bool" where
  "los_fresh los \<longleftrightarrow> (\<forall>h ty c f. los h ty = Some (c, f) \<longrightarrow> h c = None)"

section \<open>The invariant holds in every reachable state\<close>

lemma agent_ok_init: "agent_ok (manager_set_ip ip (manager_init cpu mem gpu (agent_start ep)))"
proof -
  let ?s = "manager_set_ip ip (manager_init cpu mem gpu (agent_start ep))"
  have "nodos_text_ok tabla_nodos_init" by (simp add: nodos_text_ok_def tabla_nodos_init_def)
  then have "tables_ok ?s"
    by (simp add: tables_ok_def manager_set_ip_def manager_init_def jobs_ok_init conns_ok_init nodos_ok_init
        jobs_local_ok_def)
  moreover have "queue_refs ?s = {}"
    by (simp add: queue_refs_def manager_set_ip_def manager_init_def queue_init_def Let_def)
  moreover have "heap ?s = Map.empty" by (simp add: manager_set_ip_def manager_init_def agent_start_def)
  moreover have "jobs_refs (tabla ?s) = {}" "conns_refs (conns ?s) = {}"
    by (simp_all add: jobs_refs_def manager_set_ip_def manager_init_def)
  moreover have "queues_ok ?s"
    by (simp add: queues_ok_def manager_set_ip_def manager_init_def queue_init_def Let_def)
  ultimately show ?thesis by (simp add: agent_ok_def heap_ok_def refs_def connecting_free_def connecting_def)
qed

definition fresh_conns :: "agent \<Rightarrow> bool" where
  "fresh_conns s \<longleftrightarrow> (\<forall>c k. heap s c = Some k \<longrightarrow> (\<exists>f ty ev. k = new_connection f ty ev))"

lemma create_listen_socket_ok:
  assumes "los_fresh los" "ty \<noteq> CONN_TCP_OUTGOING"
    and "\<And>s. st = Started s \<Longrightarrow> agent_ok s \<and> fresh_conns s" "create_listen_socket los ty st = Started s'"
  shows "agent_ok s' \<and> fresh_conns s'"
proof -
  obtain s c f where s: "st = Started s" "los (heap s) ty = Some (c, f)"
    "s' = add_conn c (new_connection f ty \<lparr>want_in = True, want_out = False\<rparr>) s"
    using assms(4) by (cases st) (auto simp: add_conn_def split: option.splits)
  have "heap s c = None" using assms(1) s(2) unfolding los_fresh_def by blast
  then have "agent_ok s'" using add_conn_ok(1) assms(3) [OF s(1)] s(3) by auto
  moreover have "fresh_conns s'" using assms(3) [OF s(1)] s(3) by (auto simp: fresh_conns_def)
  ultimately show ?thesis by blast
qed

lemma init_server_sockets_ok:
  assumes "los_fresh los" "agent_ok s" "heap s = Map.empty" "init_server_sockets los s = Started s'"
  shows "agent_ok s' \<and> fresh_conns s'"
proof -
  let ?a = "create_listen_socket los CONN_TCP_PUBLIC_LISTEN (Started s)"
  let ?b = "create_listen_socket los CONN_TCP_LOCAL_LISTEN ?a"
  have a: "agent_ok x \<and> fresh_conns x" if "?a = Started x" for x
    by (rule create_listen_socket_ok [OF assms(1) _ _ that]) (use assms(2,3) in \<open>auto simp: fresh_conns_def\<close>)
  have b: "agent_ok x \<and> fresh_conns x" if "?b = Started x" for x
    by (rule create_listen_socket_ok [OF assms(1) _ a that]) simp_all
  show ?thesis
    by (rule create_listen_socket_ok [OF assms(1) _ b assms(4) [unfolded init_server_sockets_def]]) simp_all
qed

lemma create_listen_socket_frame:
  "create_listen_socket los ty st = Started s' \<Longrightarrow> \<exists>s. st = Started s \<and> recursos s' = recursos s \<and> tabla s' = tabla s
     \<and> tabla_nodos s' = tabla_nodos s"
  by (cases st) (auto split: option.splits)

lemma main_agent_frame:
  assumes "main_agent argv epfd los = Started s" "config_of_args argv = Some cfg"
  shows "tabla s = tabla_jobs_init"
    and "recursos s r = (let n = (case r of RESOURCE_CPU \<Rightarrow> cfg_cpu cfg | RESOURCE_MEM \<Rightarrow> cfg_mem cfg | RESOURCE_GPU \<Rightarrow> cfg_gpu cfg) in
      \<lparr>available_amount = n, total_amount = n, cola = queue_init\<rparr>)"
    and "tabla_nodos s = tabla_nodos_init"
proof -
  let ?s0 = "manager_set_ip (cfg_ip cfg) (manager_init (cfg_cpu cfg) (cfg_mem cfg) (cfg_gpu cfg) (agent_start (\<lambda>_. False)))"
  obtain ep s1 where s1: "init_server_sockets los ?s0 = Started s1" "s = manager_set_epoll ep s1"
    using assms by (auto simp: main_agent_def Let_def split: option.splits started.splits)
  then have "recursos s = recursos ?s0 \<and> tabla s = tabla ?s0 \<and> tabla_nodos s = tabla_nodos ?s0"
    unfolding init_server_sockets_def by (auto simp: manager_set_epoll_def simp del: create_listen_socket.simps dest!: create_listen_socket_frame)
  then show "tabla s = tabla_jobs_init"
    "recursos s r = (let n = (case r of RESOURCE_CPU \<Rightarrow> cfg_cpu cfg | RESOURCE_MEM \<Rightarrow> cfg_mem cfg | RESOURCE_GPU \<Rightarrow> cfg_gpu cfg) in
      \<lparr>available_amount = n, total_amount = n, cola = queue_init\<rparr>)" "tabla_nodos s = tabla_nodos_init"
    by (simp_all add: manager_set_ip_def manager_init_def)
qed

lemma main_agent_ok:
  assumes "main_agent argv epfd los = Started s" "los_fresh los"
  shows "agent_ok s"
proof -
  obtain cfg ep s1 where cfg: "config_of_args argv = Some cfg"
    "init_server_sockets los (manager_set_ip (cfg_ip cfg)
       (manager_init (cfg_cpu cfg) (cfg_mem cfg) (cfg_gpu cfg) (agent_start (\<lambda>_. False)))) = Started s1"
    "s = manager_set_epoll ep s1"
    using assms(1) by (auto simp: main_agent_def Let_def split: option.splits started.splits)
  have "agent_ok s1 \<and> fresh_conns s1"
    by (rule init_server_sockets_ok [OF assms(2) agent_ok_init _ cfg(2)])
      (simp add: manager_set_ip_def manager_init_def agent_start_def)
  then have d: "agent_ok s1" and fresh: "\<And>c k. heap s1 c = Some k \<Longrightarrow> \<exists>f ty ev. k = new_connection f ty ev"
    by (auto simp: fresh_conns_def)
  have "heap_ok s" using cfg(3) fresh by (fastforce simp: heap_ok_def manager_set_epoll_def)
  then show ?thesis
    using agent_okD [OF d] cfg(3)
    by (simp add: agent_ok_def tables_ok_def queues_ok_def refs_def queue_refs_def connecting_free_def connecting_def
        manager_set_epoll_def)
qed

lemma broadcast_step_ok: "agent_ok s \<Longrightarrow> agent_ok (broadcast_step now s)"
proof -
  assume ok: "agent_ok s"
  note d = agent_okD [OF ok]
  have "nodos_text_ok (tabla_nodos_purge now 15 (tabla_nodos s))"
    using d(6) by (auto simp: nodos_text_ok_def tabla_nodos_purge_def set_entries_map) (auto simp: entries_def)
  then show ?thesis
    using d nodos_ok_purge [OF d(5)]
    by (simp add: agent_ok_def tables_ok_def heap_ok_def queues_ok_def refs_def queue_refs_def connecting_free_def
        connecting_def broadcast_step_def)
qed

interpretation safety: step_invariant "agent_step ok" agent_ok for ok
proof
  fix s s'
  assume ok: "agent_ok s" and "agent_step ok s s'"
  then show "agent_ok s'"
    by (cases rule: agent_stepE [of ok s s']) (use worker_event_safe [OF ok] broadcast_step_ok [OF ok] in fastforce)+
qed

end
