(* ===== verification/Resource_Bounds.thy ===== *)
theory Resource_Bounds
  imports Main_Agent
begin

text \<open>
  The amounts of the three resources stay within bounds: what is available is never
  negative and never more than the total. \<open>books_ok\<close> is the invariant; here each operation on
  a resource or on the job table is shown to keep it. The totals are at most \<open>MAX_AMOUNT\<close>, so
  that no sum of two amounts leaves the range of an \<open>int\<close>; amounts that come from other agents
  are assumed to be neither negative in a RESERVE nor beyond \<open>MAX_AMOUNT\<close> in a RELEASE
  (\<open>amounts_ok\<close>), which the code does not check.
\<close>

section \<open>The invariant\<close>

abbreviation MAX_AMOUNT :: int where "MAX_AMOUNT \<equiv> 1073741823"

definition recurso_ok :: "Recurso \<Rightarrow> bool" where
  "recurso_ok r \<longleftrightarrow> 0 \<le> available_amount r \<and> available_amount r \<le> total_amount r \<and> total_amount r \<le> MAX_AMOUNT
     \<and> (\<forall>p\<in>set (items (cola r)). 0 \<le> pr_amount p)"

definition alloc_ok :: "Allocation \<Rightarrow> bool" where
  "alloc_ok a \<longleftrightarrow> (a_type a = LOCAL \<longrightarrow> a_amount a \<le> MAX_AMOUNT)"

definition job_books :: "Job \<Rightarrow> bool" where
  "job_books job \<longleftrightarrow> list_all alloc_ok (confirmadas job)"

definition books_ok :: "agent \<Rightarrow> bool" where
  "books_ok s \<longleftrightarrow> (\<forall>r. recurso_ok (recursos s r)) \<and> tabla_all job_books (tabla s)"

lemma books_okD: "books_ok s \<Longrightarrow> recurso_ok (recursos s r)" "books_ok s \<Longrightarrow> tabla_all job_books (tabla s)"
  by (simp_all add: books_ok_def)

lemma books_ok_same: "recursos s' = recursos s \<Longrightarrow> tabla s' = tabla s \<Longrightarrow> books_ok s' = books_ok s"
  by (simp add: books_ok_def)

lemma upd_recurso_books: "books_ok s \<Longrightarrow> recurso_ok (f (recursos s r)) \<Longrightarrow> books_ok (upd_recurso r f s)"
  by (simp add: books_ok_def)

lemma tabla_books: "books_ok s \<Longrightarrow> tabla_all job_books t \<Longrightarrow> books_ok (s\<lparr>tabla := t\<rparr>)"
  by (simp add: books_ok_def)

section \<open>Resources\<close>

lemma take_amount:
  assumes "recurso_ok x" "0 \<le> n" "n \<le> available_amount x"
  shows "recurso_ok (x\<lparr>available_amount := s32 (available_amount x - n)\<rparr>)"
    and "s32 (available_amount x - n) = available_amount x - n"
proof -
  show e: "s32 (available_amount x - n) = available_amount x - n"
    using assms by (intro s32_id) (auto simp: recurso_ok_def in_s32_def)
  show "recurso_ok (x\<lparr>available_amount := s32 (available_amount x - n)\<rparr>)"
    using assms unfolding e by (auto simp: recurso_ok_def)
qed

lemma give_amount:
  assumes "recurso_ok x" "0 \<le> n" "n \<le> MAX_AMOUNT" "s32 (available_amount x + n) \<le> total_amount x"
  shows "recurso_ok (x\<lparr>available_amount := s32 (available_amount x + n)\<rparr>)"
proof -
  have "s32 (available_amount x + n) = available_amount x + n"
    using assms by (intro s32_id) (auto simp: recurso_ok_def in_s32_def)
  then show ?thesis using assms by (auto simp: recurso_ok_def)
qed

lemma reserve_resource_books:
  assumes "books_ok s" "0 \<le> n" "reserve_resource r n j c orig s = (res, s')"
  shows "books_ok s' \<and> tabla s' = tabla s \<and> (res \<noteq> RM_DENIED \<longrightarrow> n \<le> MAX_AMOUNT)"
proof -
  note rec = books_okD(1) [OF assms(1), of r]
  have "books_ok (upd_recurso r (\<lambda>x. x\<lparr>available_amount := s32 (available_amount x - n)\<rparr>) s)"
    if "n \<le> available_amount (recursos s r)"
    using take_amount(1) [OF rec assms(2) that] by (rule upd_recurso_books [OF assms(1)])
  moreover have "books_ok (upd_recurso r (\<lambda>x. x\<lparr>cola := snd (queue_enqueue (cola (recursos s r)) j n c m orig)\<rparr>) s)" for m
    using rec assms(2) by (intro upd_recurso_books [OF assms(1)]) (auto simp: recurso_ok_def queue_enqueue_def)
  ultimately show ?thesis
    using assms(1,3) rec
    by (auto simp: reserve_resource_def Let_def split_beta recurso_ok_def split: if_splits)
qed

lemma list_all_update_first: "list_all P xs \<Longrightarrow> (\<And>x. P x \<Longrightarrow> P (f x)) \<Longrightarrow> list_all P (update_first Q f xs)"
  by (induction xs) auto

lemma cambio_alloc_books:
  assumes "books_ok s" "tabla_jobs_cambio_alloc (tabla s) j c r = Some t"
  shows "books_ok (s\<lparr>tabla := t\<rparr>)"
  by (rule tabla_books [OF assms(1) tabla_all_cambio_alloc [OF books_okD(2) [OF assms(1)] assms(2)]])
    (auto simp: job_books_def alloc_ok_def intro!: list_all_update_first)

lemma grant_pending_books:
  assumes "books_ok s" "0 \<le> pr_amount p" "pr_amount p \<le> available_amount (recursos s r)" "grant_pending r p s = Some s'"
  shows "books_ok s'"
proof -
  let ?s = "upd_recurso r (\<lambda>x. x\<lparr>available_amount := s32 (available_amount x - pr_amount p)\<rparr>) s"
  have "books_ok ?s"
    using take_amount(1) [OF books_okD(1) [OF assms(1)] assms(2,3)] by (rule upd_recurso_books [OF assms(1)])
  note t = cambio_alloc_books [OF this]
  obtain t where "tabla_jobs_cambio_alloc (tabla ?s) (pr_job_id p) (owner_conn p) r = Some t"
    and s': "s' = ?s\<lparr>tabla := t\<rparr> \<or> (\<exists>c d x. send_message c d x (?s\<lparr>tabla := t\<rparr>) = Some s')"
    using assms(4) by (auto simp: grant_pending_def Let_def bind_eq_Some_conv split: if_splits)
  from t [OF this(1)] have "books_ok (?s\<lparr>tabla := t\<rparr>)" .
  moreover have "recursos s' = recursos (?s\<lparr>tabla := t\<rparr>)" "tabla s' = t" using s' send_message_frame(1,2) by auto
  ultimately show ?thesis using books_ok_same [of s' "?s\<lparr>tabla := t\<rparr>"] by simp
qed

text \<open>An induction rule for the loop of \<open>release_resource\<close>.\<close>

lemma release_loop_rule:
  assumes stop: "\<And>s. queue s r = [] \<or> available_amount (recursos s r) < pr_amount (hd (queue s r)) \<Longrightarrow> P s (Some s)"
    and step: "\<And>s p ps c res. queue s r = p # ps \<Longrightarrow> pr_amount p \<le> available_amount (recursos s r) \<Longrightarrow>
      items c = ps \<Longrightarrow> res = grant_pending r p (upd_recurso r (\<lambda>x. x\<lparr>cola := c\<rparr>) s) \<Longrightarrow>
      (\<And>s'. res = Some s' \<Longrightarrow> P s' (release_loop r s')) \<Longrightarrow> P s (res \<bind> release_loop r)"
  shows "P s (release_loop r s)"
proof (induction "length (queue s r)" arbitrary: s rule: less_induct)
  case less
  let ?q = "cola (recursos s r)"
  show ?case
  proof (cases "queue s r")
    case Nil
    then show ?thesis using stop [of s] by (simp add: release_loop.simps [of r s] queue_dequeue_def Let_def)
  next
    case (Cons p ps)
    let ?c = "?q\<lparr>items := ps, q_amount := s32 (q_amount ?q - pr_amount p)\<rparr>"
    have deq: "queue_dequeue ?q = (Some p, ?c)" using Cons by (simp add: queue_dequeue_def)
    show ?thesis
    proof (cases "pr_amount p \<le> available_amount (recursos s r)")
      case True
      let ?res = "grant_pending r p (upd_recurso r (\<lambda>x. x\<lparr>cola := ?c\<rparr>) s)"
      have "P s' (release_loop r s')" if "?res = Some s'" for s'
        using less [of s'] grant_pending_recursos [OF that] Cons by simp
      from step [OF Cons True _ refl this] have "P s (?res \<bind> release_loop r)" by simp
      then show ?thesis using True deq by (simp add: release_loop.simps [of r s] Let_def)
    next
      case False
      then show ?thesis using Cons deq stop [of s] by (simp add: release_loop.simps [of r s] Let_def)
    qed
  qed
qed

section \<open>The job table\<close>

lemma extract_books:
  assumes "books_ok s" "tabla_jobs_extract_by_id (tabla s) j = Some (res, t)"
  shows "books_ok (s\<lparr>tabla := t\<rparr>)" "res = Some job \<Longrightarrow> list_all alloc_ok (confirmadas job)"
  using tabla_all_extract [OF books_okD(2) [OF assms(1)] assms(2)] tabla_books [OF assms(1)] by (auto simp: job_books_def)

lemma extract_conn_books:
  assumes "books_ok s" "tabla_jobs_extract_by_remote_conn (tabla s) c = (lista, t)"
  shows "books_ok (s\<lparr>tabla := t\<rparr>)" "\<forall>job\<in>set lista. list_all alloc_ok (confirmadas job)"
proof -
  have "job_books job \<Longrightarrow> job_books (drop_remote_allocs c job)" for job
    by (auto simp: job_books_def drop_remote_allocs_def list_all_iff)
  note e = tabla_all_extract_conn [OF books_okD(2) [OF assms(1)] assms(2) this]
  show "books_ok (s\<lparr>tabla := t\<rparr>)" by (rule tabla_books [OF assms(1) e(1)])
  show "\<forall>job\<in>set lista. list_all alloc_ok (confirmadas job)" using e(2) by (simp add: job_books_def)
qed

lemma insert_books:
  "books_ok s \<Longrightarrow> list_all alloc_ok (confirmadas job) \<Longrightarrow> tabla_jobs_insertar_job (tabla s) job = Some t \<Longrightarrow> books_ok (s\<lparr>tabla := t\<rparr>)"
  using tabla_books tabla_all_insert [OF books_okD(2)] by (simp add: job_books_def)

lemma confirm_books:
  assumes "books_ok s" "job_idx j = Some i"
  shows "books_ok (s\<lparr>tabla := update_job (tabla s) i j (\<lambda>job. snd (job_confirmar job ip j))\<rparr>)"
  by (rule tabla_books [OF assms(1) tabla_all_update [OF books_okD(2) [OF assms(1)] assms(2)]])
    (auto simp: job_books_def job_confirmar_def alloc_ok_def crear_allocation_def split: option.split)

section \<open>Amounts that arrive\<close>

definition amounts_ok :: "string \<Rightarrow> bool" where
  "amounts_ok msg \<longleftrightarrow> parsed_ok (\<lambda>m. 0 \<le> rm_amount m) (parse_reserve msg)
     \<and> parsed_ok (\<lambda>m. rm_amount m \<le> MAX_AMOUNT) (parse_release msg)"

text \<open>The lines of the bytes that arrive have amounts in range.\<close>

definition read_amounts_ok :: "connection_t \<Rightarrow> read_result \<Rightarrow> bool" where
  "read_amounts_ok k rd = (case rd of ReadError _ \<Rightarrow> True
     | Read bs \<Rightarrow> list_all amounts_ok (fst (lines_of (read_buf k @ bs))))"

definition amounts_event_ok :: "event \<Rightarrow> agent \<Rightarrow> bool" where
  "amounts_event_ok ev s \<longleftrightarrow> (\<forall>k. heap s (ev_conn ev) = Some k \<longrightarrow> read_amounts_ok k (ev_read ev))"

lemma handle_accept_frame: "recursos (handle_accept ty as s) = recursos s" "tabla (handle_accept ty as s) = tabla s"
  by (induction ty as s rule: handle_accept.induct) (auto split: option.split)

lemma handle_udp_frame: "recursos (handle_udp_read now ds s) = recursos s" "tabla (handle_udp_read now ds s) = tabla s"
  by (induction now ds s rule: handle_udp_read.induct) (auto simp: process_announce_def split: parsed.split)

definition config_ok :: "config_t \<Rightarrow> bool" where
  "config_ok cfg \<longleftrightarrow> 0 \<le> cfg_cpu cfg \<and> cfg_cpu cfg \<le> MAX_AMOUNT \<and> 0 \<le> cfg_mem cfg \<and> cfg_mem cfg \<le> MAX_AMOUNT
     \<and> 0 \<le> cfg_gpu cfg \<and> cfg_gpu cfg \<le> MAX_AMOUNT"

lemma main_agent_books:
  assumes "main_agent argv epfd los = Started s" "config_of_args argv = Some cfg" "config_ok cfg"
  shows "books_ok s"
  using main_agent_frame [OF assms(1,2)] assms(3)
  by (simp add: books_ok_def tabla_all_init recurso_ok_def config_ok_def queue_init_def Let_def all_resource_t)

end
