(* ===== verification/Tasks.thy ===== *)
theory Tasks
  imports Agent_Locks Resource_Bounds
begin

text \<open>
  The handlers cut into the steps between which another thread can run. A thread is the
  list of the tasks it has still to do; \<open>exec\<close> does the first one, which is atomic in the
  code because the mutexes it needs are held or because it is one critical section of its
  own, and puts what follows from it in front of the rest. Locking and unlocking of the
  lock of the job table and of the mutexes of the resources, which the code holds across
  several such steps, are tasks of their own; the mutexes of the tables of connections and
  of nodes and of the buffer of a connection are held within one task only. A pointer that
  was read in one task and is used in a later one is an argument of the later one, so that
  it can be dangling by then. Done without interruption the tasks are the handler of
  \<open>Resource_Manager\<close> and of \<open>Server\<close>: this is shown at the end.
\<close>

section \<open>Tasks\<close>

text \<open>In the order of the code: \<^verbatim>\<open>resource_manager.c\<close>, then \<^verbatim>\<open>server.c\<close>.\<close>

datatype (plugins only: code size) task =
    TLock lock
  | TUnlock lock
  | TSend conn_ptr dest_t string
  | TLookup_send string string
  | TReserve resource_t int int conn_ptr
  | TRelease resource_t int
  | TServe resource_t
  | TPurge_id resource_t int
  | TPurge_conn resource_t conn_ptr
  | TRemove int bool bool
  | TGranted conn_ptr int
  | TConfirm conn_ptr int string
  | TDenied int
  | TJob_begin red conn_ptr job_request_t
  | TJob_next red int conn_ptr "resource_request_t list" Job
  | TJob_reserve red int conn_ptr resource_request_t "resource_request_t list" Job
  | TJob_port red int conn_ptr resource_request_t "resource_request_t list" Job
  | TJob_connect red int conn_ptr resource_request_t "resource_request_t list" Job int
  | TNodes conn_ptr
  | TJob_release int
  | TStatus conn_ptr int
  | TMessage red conn_ptr string
  | TAnnounce int string string
  | TExtract_conn conn_ptr
  | TConns_delete conn_ptr
  | TConns_insert string conn_ptr
  | TReady conn_ptr
  | TReady_send conn_ptr "string option"
  | TFree conn_ptr
  | TAccept connection_type_t "accepted list"
  | TReadable red event bool
  | TRead red event bool
  | TLines red conn_ptr string
  | TWritable event bool
  | TRearm conn_ptr
  | TEvent red event

section \<open>What a function does, as a list of tasks\<close>

abbreviation lock_if :: "bool \<Rightarrow> task list" where
  "lock_if take_lock \<equiv> (if take_lock then [TLock TablaLock] else [])"

abbreviation unlock_if :: "bool \<Rightarrow> task list" where
  "unlock_if take_lock \<equiv> (if take_lock then [TUnlock TablaLock] else [])"

definition with_recurso :: "resource_t \<Rightarrow> task \<Rightarrow> task list" where
  "with_recurso tipo t = [TLock (RecursoMutex tipo), t, TUnlock (RecursoMutex tipo)]"

definition limpiar_colas_por_id_tasks :: "int \<Rightarrow> task list" where
  "limpiar_colas_por_id_tasks job_id = with_recurso RESOURCE_CPU (TPurge_id RESOURCE_CPU job_id)
     @ with_recurso RESOURCE_MEM (TPurge_id RESOURCE_MEM job_id)
     @ with_recurso RESOURCE_GPU (TPurge_id RESOURCE_GPU job_id)"

definition limpiar_colas_por_conn_tasks :: "conn_ptr \<Rightarrow> task list" where
  "limpiar_colas_por_conn_tasks conn = with_recurso RESOURCE_CPU (TPurge_conn RESOURCE_CPU conn)
     @ with_recurso RESOURCE_MEM (TPurge_conn RESOURCE_MEM conn)
     @ with_recurso RESOURCE_GPU (TPurge_conn RESOURCE_GPU conn)"

definition release_resource_tasks :: "bool \<Rightarrow> resource_t \<Rightarrow> int \<Rightarrow> task list" where
  "release_resource_tasks take_lock tipo am = lock_if take_lock @ with_recurso tipo (TRelease tipo am) @ unlock_if take_lock"

definition release_text :: "int \<Rightarrow> resource_t \<Rightarrow> int \<Rightarrow> string" where
  "release_text job_id tipo am = msg_release \<lparr>rm_job_id = job_id, rm_type = tipo, rm_amount = am\<rparr> @ [NL]"

definition reserve_text :: "int \<Rightarrow> resource_request_t \<Rightarrow> string" where
  "reserve_text job_id q = msg_reserve \<lparr>rm_job_id = job_id, rm_type = rq_type q, rm_amount = rq_amount q\<rparr> @ [NL]"

fun release_allocs_tasks :: "bool \<Rightarrow> int \<Rightarrow> Allocation list \<Rightarrow> task list" where
  "release_allocs_tasks take_lock job_id [] = []"
| "release_allocs_tasks take_lock job_id (all # sig) =
     (if a_type all = LOCAL \<and> a_result all = RM_GRANTED then release_resource_tasks take_lock (a_name all) (a_amount all)
      else if a_type all = REMOTE then [TLookup_send (a_ip all) (release_text job_id (a_name all) (a_amount all))]
      else []) @ release_allocs_tasks take_lock job_id sig"

definition tabla_jobs_remove_tasks :: "int \<Rightarrow> bool \<Rightarrow> bool \<Rightarrow> task list" where
  "tabla_jobs_remove_tasks job_id take_lock take_lock_reserve =
     lock_if take_lock @ [TRemove job_id take_lock take_lock_reserve]"

text \<open>The two abort paths of JOB_REQUEST.\<close>

definition abort_tasks :: "int \<Rightarrow> conn_ptr \<Rightarrow> Job \<Rightarrow> task list" where
  "abort_tasks job_id conn nuevo_job = limpiar_colas_por_id_tasks job_id
     @ release_allocs_tasks False job_id (confirmadas nuevo_job)
     @ [TUnlock TablaLock, TSend conn DEST_ERLANG_LOCAL (msg_job_denied \<lparr>gm_job_id = job_id\<rparr> @ [NL])]"

fun job_release_tasks :: "Allocation list \<Rightarrow> task list" where
  "job_release_tasks [] = []"
| "job_release_tasks (alloc # next) =
     (if a_type alloc = LOCAL \<and> a_result alloc = RM_GRANTED then release_resource_tasks True (a_name alloc) (a_amount alloc)
      else limpiar_colas_por_id_tasks (a_job_id alloc))
     @ (if a_type alloc = REMOTE then [TSend (a_conn alloc) DEST_AGENTE_REMOTO
          (release_text (a_job_id alloc) (a_name alloc) (a_amount alloc))] else [])
     @ job_release_tasks next"

text \<open>The branches of \<open>process_message\<close>; parsing needs no lock.\<close>

definition message_tasks :: "red \<Rightarrow> conn_ptr \<Rightarrow> string \<Rightarrow> task list option" where
  "message_tasks red conn msg =
     (if strncmp_eq msg ''RESERVE'' then Some (case parse_reserve msg of Invalido \<Rightarrow> []
          | Valido m \<Rightarrow> [TLock (RecursoMutex (rm_type m)), TReserve (rm_type m) (rm_amount m) (rm_job_id m) conn])
      else if strncmp_eq msg ''RELEASE'' then Some (case parse_release msg of Invalido \<Rightarrow> []
          | Valido m \<Rightarrow> (if rm_amount m \<noteq> 0 then release_resource_tasks True (rm_type m) (rm_amount m) else [])
              @ tabla_jobs_remove_tasks (rm_job_id m) True True @ limpiar_colas_por_id_tasks (rm_job_id m))
      else if strncmp_eq msg ''GRANTED'' then Some (case parse_granted msg of Invalido \<Rightarrow> []
          | Valido m \<Rightarrow> [TGranted conn (gm_job_id m)])
      else if strncmp_eq msg ''DENIED'' then Some (case parse_denied msg of Invalido \<Rightarrow> []
          | Valido m \<Rightarrow> [TLock TablaLock, TDenied (gm_job_id m)])
      else if strncmp_eq msg ''JOB_REQUEST'' then map_option (\<lambda>result. case result of Invalido \<Rightarrow> []
          | Valido m \<Rightarrow> [TLock TablaLock, TJob_begin red conn m]) (parse_job_request msg)
      else if strncmp_eq msg ''GET_NODES'' then Some [TNodes conn]
      else if strncmp_eq msg ''ANNOUNCE'' then Some []
      else if strncmp_eq msg ''JOB_RELEASE'' then Some (case parse_job_release msg of Invalido \<Rightarrow> []
          | Valido m \<Rightarrow> [TLock TablaLock, TJob_release (gm_job_id m)])
      else if strncmp_eq msg ''JOB_STATUS'' then Some (case parse_job_status msg of Invalido \<Rightarrow> []
          | Valido m \<Rightarrow> [TLock TablaLock, TStatus conn (gm_job_id m)])
      else if strncmp_eq msg ''JOB_TIMEOUT'' then Some (case parse_job_timeout msg of Invalido \<Rightarrow> []
          | Valido m \<Rightarrow> tabla_jobs_remove_tasks (gm_job_id m) True True @ limpiar_colas_por_id_tasks (gm_job_id m))
      else Some [])"

text \<open>The loop over the extracted jobs of \<open>process_disconnect\<close> and \<open>process_connection_failed\<close>.\<close>

fun release_jobs_tasks :: "Job list \<Rightarrow> task list" where
  "release_jobs_tasks [] = []"
| "release_jobs_tasks (job # sig) = limpiar_colas_por_id_tasks (j_job_id job)
     @ release_allocs_tasks True (j_job_id job) (confirmadas job) @ release_jobs_tasks sig"

definition process_disconnect_tasks :: "conn_ptr \<Rightarrow> task list" where
  "process_disconnect_tasks conn = limpiar_colas_por_conn_tasks conn
     @ [TLock TablaLock, TExtract_conn conn, TConns_delete conn]"

fun ready_tasks :: "conn_ptr \<Rightarrow> OutRequest list \<Rightarrow> task list" where
  "ready_tasks conn [] = []"
| "ready_tasks conn (req # next) = [TConns_insert (o_ip req) conn, TReady_send conn (o_msg req)] @ ready_tasks conn next"

definition close_tasks :: "conn_ptr \<Rightarrow> task list" where
  "close_tasks conn = process_disconnect_tasks conn @ [TFree conn]"

section \<open>One task\<close>

text \<open>The sections of JOB_REQUEST that reserve, ask an agent that is connected, and connect.\<close>

definition job_reserve_section ::
  "red \<Rightarrow> int \<Rightarrow> conn_ptr \<Rightarrow> resource_request_t \<Rightarrow> resource_request_t list \<Rightarrow> Job \<Rightarrow> agent \<Rightarrow> agent \<times> task list" where
  "job_reserve_section red job_id conn q next nuevo_job s =
     (case reserve_resource (rq_type q) (rq_amount q) job_id conn ORIGIN_LOCAL s of (r, s) \<Rightarrow>
        (s, TUnlock (RecursoMutex (rq_type q)) #
          (if r = RM_GRANTED \<or> r = RM_QUEUED
           then [TJob_next red job_id conn next (nuevo_job\<lparr>confirmadas :=
                   crear_allocation (rq_type q) (rq_amount q) LOCAL (g_ip s) job_id r conn # confirmadas nuevo_job\<rparr>)]
           else abort_tasks job_id conn nuevo_job)))"

definition ask_remote_tasks ::
  "red \<Rightarrow> int \<Rightarrow> conn_ptr \<Rightarrow> resource_request_t \<Rightarrow> resource_request_t list \<Rightarrow> Job \<Rightarrow> conn_ptr \<Rightarrow> task list" where
  "ask_remote_tasks red job_id conn q next nuevo_job remote =
     [TSend remote DEST_AGENTE_REMOTO (reserve_text job_id q),
      TJob_next red job_id conn next (nuevo_job\<lparr>pendientes :=
        crear_outrequest (rq_ip q) remote (rq_type q) (rq_amount q) None # pendientes nuevo_job\<rparr>)]"

definition job_connect_section ::
  "red \<Rightarrow> int \<Rightarrow> conn_ptr \<Rightarrow> resource_request_t \<Rightarrow> resource_request_t list \<Rightarrow> Job \<Rightarrow> int \<Rightarrow> agent \<Rightarrow> agent \<times> task list" where
  "job_connect_section red job_id conn q next nuevo_job port s =
     (case (if port \<noteq> -1 then connect_remote_node red (rq_ip q) port s else (None, s)) of
        (None, s) \<Rightarrow> (s, abort_tasks job_id conn nuevo_job)
      | (Some intento, s) \<Rightarrow> (s, [TJob_next red job_id conn next (nuevo_job\<lparr>pendientes :=
          crear_outrequest (rq_ip q) intento (rq_type q) (rq_amount q) (Some (snprintf BUFF_SIZE (reserve_text job_id q)))
            # pendientes nuevo_job\<rparr>)]))"

definition job_turn_tasks ::
  "red \<Rightarrow> int \<Rightarrow> conn_ptr \<Rightarrow> resource_request_t \<Rightarrow> resource_request_t list \<Rightarrow> Job \<Rightarrow> agent \<Rightarrow> task list" where
  "job_turn_tasks red job_id conn head next nuevo_job s =
     (if rq_ip head = g_ip s
      then [TLock (RecursoMutex (rq_type head)), TJob_reserve red job_id conn head next nuevo_job]
      else (case tabla_conns_lookup (conns s) (rq_ip head) of
          Some remote \<Rightarrow> ask_remote_tasks red job_id conn head next nuevo_job remote
        | None \<Rightarrow> [TJob_port red job_id conn head next nuevo_job]))"

text \<open>After the loop of JOB_REQUEST.\<close>

definition job_insert_section :: "int \<Rightarrow> conn_ptr \<Rightarrow> Job \<Rightarrow> agent \<Rightarrow> (agent \<times> task list) option" where
  "job_insert_section job_id conn nuevo_job s = do {
     t \<leftarrow> tabla_jobs_insertar_job (tabla s) nuevo_job;
     let s = s\<lparr>tabla := t\<rparr>;
     listo \<leftarrow> tabla_jobs_verificar (tabla s) job_id;
     Some (s, (if listo then [TSend conn DEST_ERLANG_LOCAL (msg_job_granted job_id @ [NL])] else []) @ [TUnlock TablaLock])
   }"

text \<open>One turn of the loop of \<open>release_resource\<close>: \<open>tabla.lock\<close> and the mutex are held.\<close>

definition serve_section :: "resource_t \<Rightarrow> agent \<Rightarrow> (agent \<times> task list) option" where
  "serve_section tipo s = (let r = recursos s tipo in
     (case queue_dequeue (cola r) of
        (None, _) \<Rightarrow> Some (s, [])
      | (Some pending, resto) \<Rightarrow>
          if available_amount r \<ge> pr_amount pending then do {
            let s = upd_recurso tipo (\<lambda>r. r\<lparr>cola := resto,
              available_amount := s32 (available_amount r - pr_amount pending)\<rparr>) s;
            t \<leftarrow> tabla_jobs_cambio_alloc (tabla s) (pr_job_id pending) (owner_conn pending) tipo;
            let s = s\<lparr>tabla := t\<rparr>;
            if origen pending = ORIGIN_REMOTE
            then Some (s, [TSend (owner_conn pending) DEST_AGENTE_REMOTO
                   (msg_granted \<lparr>gm_job_id = pr_job_id pending\<rparr> @ [NL]), TServe tipo])
            else do {
              listo \<leftarrow> tabla_jobs_verificar (tabla s) (pr_job_id pending);
              Some (s, (if listo then [TSend (owner_conn pending) DEST_ERLANG_LOCAL
                   (msg_job_granted (pr_job_id pending) @ [NL])] else []) @ [TServe tipo])
            }
          } else Some (s, [])))"

text \<open>
  GRANTED from its lookup of the job to the unlocking of \<open>tabla.lock\<close>. The address it
  compares is in the entry of the table of connections that was found before, without a
  lock that keeps the entry there.
\<close>

definition confirm_section :: "conn_ptr \<Rightarrow> int \<Rightarrow> string \<Rightarrow> agent \<Rightarrow> (agent \<times> task list) option" where
  "confirm_section conn job_id ip_remoto s = do {
     check \<leftarrow> tabla_jobs_buscar_por_id (tabla s) job_id;
     (case check of
        None \<Rightarrow> Some (s, [TSend conn DEST_AGENTE_REMOTO (release_text job_id RESOURCE_CPU 0),
          TSend conn DEST_AGENTE_REMOTO (release_text job_id RESOURCE_MEM 0),
          TSend conn DEST_AGENTE_REMOTO (release_text job_id RESOURCE_GPU 0), TUnlock TablaLock])
      | Some job \<Rightarrow> if pendientes job \<noteq> [] \<and> \<lparr>ce_ip = ip_remoto, ce_conn = conn\<rparr> \<notin> set (entries (conns s)) then None
          else (case job_confirmar job ip_remoto job_id of (confirmado, job') \<Rightarrow> do {
          idx \<leftarrow> job_idx job_id;
          let s = s\<lparr>tabla := update_job (tabla s) idx job_id (\<lambda>job. snd (job_confirmar job ip_remoto job_id))\<rparr>;
          if \<not> confirmado then Some (s, [TUnlock TablaLock])
          else do {
            listo \<leftarrow> tabla_jobs_verificar (tabla s) job_id;
            Some (s, (if listo then [TSend (j_conn job') DEST_ERLANG_LOCAL (msg_job_granted job_id @ [NL])] else [])
              @ [TUnlock TablaLock])
          }
        }))
   }"

text \<open>The end of \<open>handle_tcp_read\<close>'s system call, and \<open>worker_thread_loop\<close> after it.\<close>

definition read_section :: "red \<Rightarrow> event \<Rightarrow> bool \<Rightarrow> agent \<Rightarrow> (agent \<times> task list) option" where
  "read_section red ev oneshot s = (let conn = ev_conn ev in do {
     k \<leftarrow> heap s conn;
     (case ev_read ev of
        ReadError again \<Rightarrow> Some (s, if again then [TWritable ev oneshot] else close_tasks conn)
      | Read bs \<Rightarrow>
          if bs = [] then Some (s, close_tasks conn)
          else (let buf = read_buf k @ bs in
            Some (upd_conn conn (\<lambda>k. k\<lparr>read_buf := buf\<rparr>) s, [TLines red conn buf, TWritable ev oneshot])))
   })"

definition writable_section :: "event \<Rightarrow> bool \<Rightarrow> agent \<Rightarrow> (agent \<times> task list) option" where
  "writable_section ev oneshot s = (let conn = ev_conn ev; rest = (if oneshot then [TRearm conn] else []) in
     if \<not> ev_out ev then Some (s, rest)
     else do {
       k \<leftarrow> heap s conn;
       if ctype k = CONN_TCP_CLIENT_REMOTE \<or> ctype k = CONN_TCP_CLIENT_LOCAL
       then Some (case tcp_write (ev_write ev k) k of
            Some k' \<Rightarrow> (upd_conn conn (\<lambda>_. k') s, rest)
          | None \<Rightarrow> (s, close_tasks conn))
       else if ctype k = CONN_TCP_OUTGOING
       then Some (if \<not> ev_connected ev then (s, [TLock TablaLock, TExtract_conn conn, TFree conn])
          else (upd_conn conn (\<lambda>k. k\<lparr>ctype := CONN_TCP_CLIENT_REMOTE\<rparr>) s, [TLock TablaLock, TReady conn] @ rest))
       else Some (s, rest)
     })"

definition readable_section :: "red \<Rightarrow> event \<Rightarrow> bool \<Rightarrow> agent \<Rightarrow> (agent \<times> task list) option" where
  "readable_section red ev oneshot s = do {
     k \<leftarrow> heap s (ev_conn ev);
     (case ctype k of
        CONN_TCP_PUBLIC_LISTEN \<Rightarrow> Some (s, [TAccept (accepted_type (ctype k)) (ev_accepts ev), TWritable ev oneshot])
      | CONN_TCP_LOCAL_LISTEN \<Rightarrow> Some (s, [TAccept (accepted_type (ctype k)) (ev_accepts ev), TWritable ev oneshot])
      | CONN_UDP_DISCOVERY \<Rightarrow> Some (s, map (\<lambda>(sender_ip, bs). TAnnounce (ev_now ev) sender_ip (cstr (take (BUFF_SIZE - 1) bs)))
          (ev_datagrams ev) @ [TWritable ev oneshot])
      | _ \<Rightarrow> Some (s, [TRead red ev oneshot]))
   }"

text \<open>The first lines of the body of the loop of \<open>worker_thread_loop\<close>.\<close>

definition event_section :: "red \<Rightarrow> event \<Rightarrow> agent \<Rightarrow> (agent \<times> task list) option" where
  "event_section red ev s = do {
     k \<leftarrow> heap s (ev_conn ev);
     let oneshot = conn_uses_oneshot k;
     let s = (if oneshot then upd_conn (ev_conn ev) (\<lambda>k. k\<lparr>in_handler := True\<rparr>) s else s);
     Some (s, if ev_err ev \<or> \<not> (ev_in ev \<or> ev_out ev) then close_tasks (ev_conn ev)
       else if ev_in ev then [TReadable red ev oneshot] else [TWritable ev oneshot])
   }"

primrec exec :: "task \<Rightarrow> agent \<Rightarrow> (agent \<times> task list) option" where
  "exec (TLock l) s = Some (s, [])"
| "exec (TUnlock l) s = Some (s, [])"
| "exec (TSend conn dest text) s = map_option (\<lambda>s. (s, [])) (send_message conn dest text s)"
| "exec (TLookup_send ip text) s = Some (s, case tabla_conns_lookup (conns s) ip of
      None \<Rightarrow> [] | Some remote \<Rightarrow> [TSend remote DEST_AGENTE_REMOTO text])"
| "exec (TReserve tipo am job_id conn) s = (case reserve_resource tipo am job_id conn ORIGIN_REMOTE s of (r, s) \<Rightarrow>
     Some (s, TUnlock (RecursoMutex tipo) # (case r of
        RM_DENIED \<Rightarrow> [TSend conn DEST_AGENTE_REMOTO (msg_denied \<lparr>gm_job_id = job_id\<rparr> @ [NL])]
      | RM_GRANTED \<Rightarrow> [TSend conn DEST_AGENTE_REMOTO (msg_granted \<lparr>gm_job_id = job_id\<rparr> @ [NL])]
      | RM_QUEUED \<Rightarrow> [])))"
| "exec (TRelease tipo am) s = (let r = recursos s tipo in
     Some (if am \<ge> 0 \<and> s32 (available_amount r + am) \<le> total_amount r
       then (upd_recurso tipo (\<lambda>r. r\<lparr>available_amount := s32 (available_amount r + am)\<rparr>) s, [TServe tipo])
       else (s, [])))"
| "exec (TServe tipo) s = serve_section tipo s"
| "exec (TPurge_id tipo job_id) s = Some (upd_recurso tipo (\<lambda>r. r\<lparr>cola := queue_delete_by_job_id (cola r) job_id\<rparr>) s, [])"
| "exec (TPurge_conn tipo conn) s = Some (upd_recurso tipo (\<lambda>r. r\<lparr>cola := queue_delete_by_conn (cola r) conn\<rparr>) s, [])"
| "exec (TRemove job_id take_lock take_lock_reserve) s = do {
     (encontrado, t) \<leftarrow> tabla_jobs_extract_by_id (tabla s) job_id;
     Some (s\<lparr>tabla := t\<rparr>, unlock_if take_lock @ (case encontrado of
         None \<Rightarrow> [] | Some job \<Rightarrow> release_allocs_tasks take_lock_reserve job_id (confirmadas job)))
   }"
| "exec (TGranted conn job_id) s = Some (s, case tabla_conns_get_ip_by_conn (conns s) conn of
      None \<Rightarrow> [] | Some ip_remoto \<Rightarrow> [TLock TablaLock, TConfirm conn job_id ip_remoto])"
| "exec (TConfirm conn job_id ip_remoto) s = confirm_section conn job_id ip_remoto s"
| "exec (TDenied job_id) s = do {
     owner \<leftarrow> tabla_jobs_get_conn (tabla s) job_id;
     Some (s, (case owner of None \<Rightarrow> []
         | Some conn \<Rightarrow> tabla_jobs_remove_tasks job_id False False
             @ [TSend conn DEST_ERLANG_LOCAL (msg_job_denied \<lparr>gm_job_id = job_id\<rparr> @ [NL])])
       @ limpiar_colas_por_id_tasks job_id @ [TUnlock TablaLock])
   }"
| "exec (TJob_begin red conn m) s = do {
     existe \<leftarrow> tabla_jobs_buscar_por_id (tabla s) (jr_job_id m);
     Some (s, if existe \<noteq> None then [TUnlock TablaLock]
       else [TJob_next red (jr_job_id m) conn (request_list m)
         \<lparr>j_job_id = jr_job_id m, j_conn = conn, confirmadas = [], pendientes = []\<rparr>])
   }"
| "exec (TJob_next red job_id conn reqs nuevo_job) s = (case reqs of
      [] \<Rightarrow> job_insert_section job_id conn nuevo_job s
    | head # next \<Rightarrow> Some (s, job_turn_tasks red job_id conn head next nuevo_job s))"
| "exec (TJob_reserve red job_id conn q next nuevo_job) s = Some (job_reserve_section red job_id conn q next nuevo_job s)"
| "exec (TJob_port red job_id conn q next nuevo_job) s =
     Some (s, [TJob_connect red job_id conn q next nuevo_job (tabla_nodos_get_puerto (tabla_nodos s) (rq_ip q))])"
| "exec (TJob_connect red job_id conn q next nuevo_job port) s = Some (job_connect_section red job_id conn q next nuevo_job port s)"
| "exec (TNodes conn) s = do {
     texto \<leftarrow> format_no_args (nodes_reply (tabla_nodos s));
     Some (s, [TSend conn DEST_ERLANG_LOCAL texto])
   }"
| "exec (TJob_release job_id) s = do {
     (eliminar_job, t) \<leftarrow> tabla_jobs_extract_by_id (tabla s) job_id;
     Some (s\<lparr>tabla := t\<rparr>, TUnlock TablaLock # (case eliminar_job of
         None \<Rightarrow> [] | Some job \<Rightarrow> job_release_tasks (confirmadas job) @ limpiar_colas_por_id_tasks job_id))
   }"
| "exec (TStatus conn job_id) s = do {
     owner \<leftarrow> tabla_jobs_get_conn (tabla s) job_id;
     Some (s, [TUnlock TablaLock, TSend conn DEST_ERLANG_LOCAL
       (msg_job_status job_id (if owner \<noteq> None then ''ACTIVE'' else ''UNKNOWN'') @ [NL])])
   }"
| "exec (TMessage red conn msg) s = (if heap s conn = None then None
     else map_option (\<lambda>ts. (s, ts)) (message_tasks red conn msg))"
| "exec (TAnnounce now sender_ip msg) s = Some (process_announce now sender_ip msg s, [])"
| "exec (TExtract_conn conn) s = (case tabla_jobs_extract_by_remote_conn (tabla s) conn of (lista, t) \<Rightarrow>
     Some (s\<lparr>tabla := t\<rparr>, TUnlock TablaLock # release_jobs_tasks lista))"
| "exec (TConns_delete conn) s = Some (s\<lparr>conns := tabla_conns_delete_by_conn (conns s) conn\<rparr>, [])"
| "exec (TConns_insert ip conn) s = Some (s\<lparr>conns := tabla_conns_insert (conns s) ip conn\<rparr>, [])"
| "exec (TReady conn) s =
     Some (s, ready_tasks conn (tabla_jobs_get_pendientes_by_conn (tabla s) conn) @ [TUnlock TablaLock])"
| "exec (TReady_send conn msg) s = do {
     msg \<leftarrow> msg;
     texto \<leftarrow> format_no_args msg;
     s \<leftarrow> send_message conn DEST_AGENTE_REMOTO texto s;
     Some (s, [])
   }"
| "exec (TFree conn) s = (if heap s conn = None then None else Some (free_conn conn s, []))"
| "exec (TAccept ty accepts) s = Some (case accepts of
      [] \<Rightarrow> (s, [])
    | a # as \<Rightarrow> (case malloc_conn a (heap s) of
          None \<Rightarrow> s
        | Some conn \<Rightarrow> if epoll_add a then s\<lparr>heap := (heap s)(conn \<mapsto> new_connection (client_fd a) ty
               \<lparr>want_in = True, want_out = False\<rparr>)\<rparr> else s, [TAccept ty as]))"
| "exec (TReadable red ev oneshot) s = readable_section red ev oneshot s"
| "exec (TRead red ev oneshot) s = read_section red ev oneshot s"
| "exec (TLines red conn buf) s = (case next_line buf of
      None \<Rightarrow> if heap s conn = None then None else Some (upd_conn conn (\<lambda>k. k\<lparr>read_buf := buf\<rparr>) s, [])
    | Some (line, rest) \<Rightarrow> Some (s, [TMessage red conn line, TLines red conn rest]))"
| "exec (TWritable ev oneshot) s = writable_section ev oneshot s"
| "exec (TRearm conn) s = do {
     k \<leftarrow> heap s conn;
     (case rearm_conn (g_epfd s) k of (ok, k') \<Rightarrow>
        Some (upd_conn conn (\<lambda>_. k') s, if ok then [] else close_tasks conn))
   }"
| "exec (TEvent red ev) s = event_section red ev s"

end
