(* ===== verification/Task_Refinement.thy ===== *)
theory Task_Refinement
  imports Tasks
begin

text \<open>
  Done without interruption, the tasks of a handler are the handler: for every function the
  list of its tasks, run to its end by one thread, has the outcome the function has, the
  fault included. \<open>alone\<close> is such a run; \<open>ok\<close> restricts what is read from the
  network, as in \<open>agent_step\<close>.
\<close>

section \<open>A thread that is not interrupted\<close>

definition permits :: "(event \<Rightarrow> agent \<Rightarrow> bool) \<Rightarrow> task \<Rightarrow> agent \<Rightarrow> bool" where
  "permits ok t s \<longleftrightarrow> (\<forall>red ev oneshot. t = TRead red ev oneshot \<longrightarrow> ok ev s)"

inductive alone :: "(event \<Rightarrow> agent \<Rightarrow> bool) \<Rightarrow> task list \<Rightarrow> agent \<Rightarrow> agent option \<Rightarrow> bool" for ok where
  alone_Nil: "alone ok [] s (Some s)"
| alone_fault: "permits ok t s \<Longrightarrow> exec t s = None \<Longrightarrow> alone ok (t # ts) s None"
| alone_step: "permits ok t s \<Longrightarrow> exec t s = Some (s', us) \<Longrightarrow> alone ok (us @ ts) s' r \<Longrightarrow> alone ok (t # ts) s r"

inductive_simps alone_Nil_iff [simp]: "alone ok [] s r"
inductive_simps alone_Cons_iff: "alone ok (t # ts) s r"

lemma alone_Cons: "alone ok (t # ts) s r \<longleftrightarrow> permits ok t s
  \<and> (case exec t s of None \<Rightarrow> r = None | Some (s', us) \<Rightarrow> alone ok (us @ ts) s' r)"
  by (auto simp: alone_Cons_iff split: option.splits)

lemma alone_bind:
  assumes "alone ok ts s r" "\<And>s'. r = Some s' \<Longrightarrow> alone ok us s' (g s')"
  shows "alone ok (ts @ us) s (r \<bind> g)"
  using assms by (induction rule: alone.induct) (auto simp: alone_Cons)

lemma alone_locks [simp]:
  "alone ok (TLock l # ts) s r = alone ok ts s r" "alone ok (TUnlock l # ts) s r = alone ok ts s r"
  by (simp_all add: alone_Cons permits_def)

lemma alone_lock_if [simp]:
  "alone ok (lock_if b @ ts) s r = alone ok ts s r" "alone ok (unlock_if b @ ts) s r = alone ok ts s r"
  "alone ok (lock_if b) s r = alone ok [] s r" "alone ok (unlock_if b) s r = alone ok [] s r"
  by simp_all

text \<open>What follows a task is put in front: a task and what it leads to.\<close>

lemma alone_task: "permits ok t s \<Longrightarrow> exec t s = Some (s', us) \<Longrightarrow> alone ok (us @ ts) s' r \<Longrightarrow> alone ok (t # ts) s r"
  by (rule alone_step)

lemma alone_send: "alone ok [TSend c d x] s (send_message c d x s)"
  by (cases "send_message c d x s") (simp_all add: alone_Cons permits_def)

lemma alone_then:
  "alone ok [t] s r \<Longrightarrow> (\<And>s'. r = Some s' \<Longrightarrow> alone ok us s' (g s')) \<Longrightarrow> alone ok (t # us) s (r \<bind> g)"
  using alone_bind [of ok "[t]"] by simp

lemma alone_unlock_end: "alone ok ts s r \<Longrightarrow> alone ok (ts @ [TUnlock l]) s r"
  using alone_bind [of ok ts s r "[TUnlock l]" Some] by simp

lemma alone_before: "alone ok ts s (Some s') \<Longrightarrow> alone ok us s' r \<Longrightarrow> alone ok (ts @ us) s r"
  using alone_bind [of ok ts s "Some s'" us "\<lambda>_. r"] by simp

lemma alone_after: "alone ok ts s r \<Longrightarrow> (\<And>s'. r = Some s' \<Longrightarrow> alone ok us s' (Some (f s'))) \<Longrightarrow>
  alone ok (ts @ us) s (r \<bind> (\<lambda>s. Some (f s)))"
  by (rule alone_bind)

section \<open>Resources\<close>

lemma alone_purge_id: "alone ok (limpiar_colas_por_id_tasks j) s (Some (limpiar_colas_por_id j s))"
  by (simp add: limpiar_colas_por_id_tasks_def with_recurso_def limpiar_colas_por_id_def alone_Cons permits_def Let_def)

lemma alone_purge_conn: "alone ok (limpiar_colas_por_conn_tasks c) s (Some (limpiar_colas_por_conn c s))"
  by (simp add: limpiar_colas_por_conn_tasks_def with_recurso_def limpiar_colas_por_conn_def alone_Cons permits_def Let_def)

lemma upd_recurso_twice: "upd_recurso r f (upd_recurso r g s) = upd_recurso r (f \<circ> g) s"
  by (simp add: upd_recurso_def)

lemma serve_section_grant:
  assumes "queue_dequeue (cola (recursos s r)) = (Some p, resto)" "pr_amount p \<le> available_amount (recursos s r)"
    and "\<And>s'. grant_pending r p (upd_recurso r (\<lambda>r. r\<lparr>cola := resto\<rparr>) s) = Some s' \<Longrightarrow> alone ok (TServe r # ts) s' (g s')"
  shows "alone ok (TServe r # ts) s (grant_pending r p (upd_recurso r (\<lambda>r. r\<lparr>cola := resto\<rparr>) s) \<bind> g)"
proof -
  let ?s = "upd_recurso r (\<lambda>r. r\<lparr>cola := resto, available_amount := s32 (available_amount r - pr_amount p)\<rparr>) s"
  have u: "upd_recurso r (\<lambda>r. r\<lparr>available_amount := s32 (available_amount r - pr_amount p)\<rparr>)
      (upd_recurso r (\<lambda>r. r\<lparr>cola := resto\<rparr>) s) = ?s"
    by (simp add: upd_recurso_twice comp_def)
  note send = alone_then [OF alone_send, where us = "TServe r # ts" and g = g]
  show ?thesis
  proof (cases "tabla_jobs_cambio_alloc (tabla s) (pr_job_id p) (owner_conn p) r")
    case None
    then show ?thesis using assms(1,2)
      by (simp add: alone_Cons [of ok "TServe r" ts s] permits_def serve_section_def grant_pending_def u Let_def)
  next
    case (Some t)
    then show ?thesis using assms send
      by (cases "tabla_jobs_verificar t (pr_job_id p)")
        (auto simp: alone_Cons [of ok "TServe r" ts s] permits_def serve_section_def grant_pending_def u Let_def)
  qed
qed

lemma alone_serve: "alone ok [TServe r] s (release_loop r s)"
proof (induction r s rule: release_loop.induct)
  case (1 r s)
  obtain p resto where deq: "queue_dequeue (cola (recursos s r)) = (p, resto)" by fastforce
  show ?case
  proof (cases p)
    case None
    then show ?thesis using deq
      by (simp add: release_loop.simps [of r s] alone_Cons permits_def serve_section_def Let_def)
  next
    case (Some pending)
    show ?thesis
    proof (cases "pr_amount pending \<le> available_amount (recursos s r)")
      case True
      from serve_section_grant [OF deq [unfolded Some] True "1.IH" [OF refl deq [symmetric] Some True]]
      show ?thesis using True deq Some by (simp add: release_loop.simps [of r s] Let_def)
    next
      case False
      then show ?thesis using deq Some
        by (simp add: release_loop.simps [of r s] alone_Cons permits_def serve_section_def Let_def)
    qed
  qed
qed

lemma alone_release: "alone ok (release_resource_tasks b r n) s (release_resource r n s)"
proof -
  have "alone ok [TRelease r n] s (release_resource r n s)"
    using alone_serve by (simp add: alone_Cons permits_def release_resource_def Let_def)
  then have "alone ok ([TRelease r n] @ [TUnlock (RecursoMutex r)]) s (release_resource r n s)" by (rule alone_unlock_end)
  from this alone_unlock_end [OF this, of TablaLock] show ?thesis
    by (simp add: release_resource_tasks_def with_recurso_def)
qed

lemma alone_lookup_send:
  "alone ok [TLookup_send ip x] s (case tabla_conns_lookup (conns s) ip of
     Some remote \<Rightarrow> send_message remote DEST_AGENTE_REMOTO x s | None \<Rightarrow> Some s)"
  using alone_send by (simp add: alone_Cons [of ok "TLookup_send ip x"] permits_def split: option.split)

lemma alone_release_allocs: "alone ok (release_allocs_tasks b j as) s (release_allocs j as s)"
proof (induction as arbitrary: s)
  case (Cons a as)
  show ?case unfolding release_allocs.simps release_allocs_tasks.simps
    using alone_release [of ok b "a_name a" "a_amount a" s] alone_lookup_send [of ok "a_ip a" "release_text j (a_name a) (a_amount a)" s]
    unfolding release_text_def by (intro alone_bind Cons.IH) simp
qed simp

lemma alone_remove: "alone ok (tabla_jobs_remove_tasks j b b') s (tabla_jobs_remove j s)"
  using alone_release_allocs
  by (cases "tabla_jobs_extract_by_id (tabla s) j")
    (auto simp: tabla_jobs_remove_tasks_def tabla_jobs_remove_def alone_Cons [of ok "TRemove j b b'"] permits_def Let_def
      split: option.split)

section \<open>Messages\<close>

lemma alone_on_reserve:
  "alone ok (case parse_reserve msg of Invalido \<Rightarrow> []
     | Valido m \<Rightarrow> [TLock (RecursoMutex (rm_type m)), TReserve (rm_type m) (rm_amount m) (rm_job_id m) c]) s (on_reserve c msg s)"
proof (cases "parse_reserve msg")
  case (Valido m)
  obtain r s' where r: "reserve_resource (rm_type m) (rm_amount m) (rm_job_id m) c ORIGIN_REMOTE s = (r, s')" by fastforce
  show ?thesis using Valido r alone_send
    by (cases r) (simp_all add: on_reserve_def alone_Cons [of ok "TReserve _ _ _ _"] permits_def)
qed (simp add: on_reserve_def)

lemma alone_on_release:
  "alone ok (case parse_release msg of Invalido \<Rightarrow> []
     | Valido m \<Rightarrow> (if rm_amount m \<noteq> 0 then release_resource_tasks True (rm_type m) (rm_amount m) else [])
         @ tabla_jobs_remove_tasks (rm_job_id m) True True @ limpiar_colas_por_id_tasks (rm_job_id m)) s (on_release msg s)"
proof (cases "parse_release msg")
  case (Valido m)
  have "alone ok (if rm_amount m \<noteq> 0 then release_resource_tasks True (rm_type m) (rm_amount m) else []) s
      (if rm_amount m \<noteq> 0 then release_resource (rm_type m) (rm_amount m) s else Some s)"
    using alone_release by simp
  from alone_bind [OF this alone_bind [OF alone_remove alone_purge_id]] show ?thesis
    using Valido by (simp add: on_release_def)
qed (simp add: on_release_def)

lemma alone_on_granted:
  "alone ok (case parse_granted msg of Invalido \<Rightarrow> [] | Valido m \<Rightarrow> [TGranted c (gm_job_id m)]) s (on_granted c msg s)"
proof (cases "parse_granted msg")
  case (Valido m)
  let ?j = "gm_job_id m"
  have "alone ok [TConfirm c ?j ip] s (tabla_jobs_buscar_por_id (tabla s) ?j \<bind> (\<lambda>check. case check of
      None \<Rightarrow> send_release c ?j RESOURCE_CPU 0 s \<bind> (\<lambda>s. send_release c ?j RESOURCE_MEM 0 s \<bind> send_release c ?j RESOURCE_GPU 0)
    | Some job \<Rightarrow> (case job_confirmar job ip ?j of (confirmado, job') \<Rightarrow> job_idx ?j \<bind> (\<lambda>idx.
        let s = s\<lparr>tabla := update_job (tabla s) idx ?j (\<lambda>job. snd (job_confirmar job ip ?j))\<rparr> in
        if \<not> confirmado then Some s
        else tabla_jobs_verificar (tabla s) ?j \<bind> (\<lambda>listo. if listo
          then send_message (j_conn job') DEST_ERLANG_LOCAL (msg_job_granted ?j @ [NL]) s else Some s)))))"
    if entry: "tabla_conns_get_ip_by_conn (conns s) c = Some ip" for ip
  proof (cases "tabla_jobs_buscar_por_id (tabla s) ?j")
    case (Some check)
    note exec = alone_Cons [of ok "TConfirm _ _ _"] permits_def confirm_section_def
    show ?thesis
    proof (cases check)
      case None
      have "alone ok ([TSend c DEST_AGENTE_REMOTO (release_text ?j RESOURCE_CPU 0),
          TSend c DEST_AGENTE_REMOTO (release_text ?j RESOURCE_MEM 0), TSend c DEST_AGENTE_REMOTO (release_text ?j RESOURCE_GPU 0)]
          @ [TUnlock TablaLock]) s
          (send_release c ?j RESOURCE_CPU 0 s \<bind> (\<lambda>s. send_release c ?j RESOURCE_MEM 0 s \<bind> send_release c ?j RESOURCE_GPU 0))"
        unfolding send_release_def release_text_def by (intro alone_unlock_end alone_then alone_send)
      then show ?thesis using Some None by (simp add: exec)
    next
      case job: (Some job)
      obtain b job' where c: "job_confirmar job ip ?j = (b, job')" by fastforce
      show ?thesis using Some job c alone_unlock_end [OF alone_send] get_ip_entry [OF entry]
        by (auto simp: exec Let_def split: Option.bind_split)
    qed
  qed (simp add: alone_Cons permits_def confirm_section_def)
  then show ?thesis using Valido
    by (simp add: on_granted_def alone_Cons [of ok "TGranted _ _"] permits_def split: option.split)
qed (simp add: on_granted_def)

lemma alone_on_denied:
  "alone ok (case parse_denied msg of Invalido \<Rightarrow> [] | Valido m \<Rightarrow> [TLock TablaLock, TDenied (gm_job_id m)]) s (on_denied msg s)"
proof (cases "parse_denied msg")
  case (Valido m)
  let ?j = "gm_job_id m"
  have "alone ok (limpiar_colas_por_id_tasks ?j @ [TUnlock TablaLock]) s (Some (limpiar_colas_por_id ?j s))" for s
    by (rule alone_unlock_end [OF alone_purge_id])
  note purge = this
  have some: "alone ok ((tabla_jobs_remove_tasks ?j False False @ [TSend conn DEST_ERLANG_LOCAL x])
      @ limpiar_colas_por_id_tasks ?j @ [TUnlock TablaLock]) s
      ((tabla_jobs_remove ?j s \<bind> send_message conn DEST_ERLANG_LOCAL x) \<bind> (\<lambda>s. Some (limpiar_colas_por_id ?j s)))" for conn x
    by (intro alone_bind purge alone_remove alone_send)
  show ?thesis
    using Valido purge [of s] some
    by (cases m; cases "tabla_jobs_get_conn (tabla s) ?j")
      (auto simp: on_denied_def alone_Cons [of ok "TDenied _"] permits_def split: option.split)
qed (simp add: on_denied_def)

section \<open>JOB\_REQUEST\<close>

lemma alone_abort: "alone ok (abort_tasks j c job) s (abort_job j c job s)"
  unfolding abort_tasks_def abort_job_def
  by (rule alone_before [OF alone_purge_id alone_bind [OF alone_release_allocs]]) (simp add: alone_send)

text \<open>What on_job_request does once the loop has ended.\<close>

definition job_finish :: "int \<Rightarrow> conn_ptr \<Rightarrow> Job option \<times> agent \<Rightarrow> agent option" where
  "job_finish j c res = (case res of (nuevo, s) \<Rightarrow> (case nuevo of
      None \<Rightarrow> Some s
    | Some job \<Rightarrow> tabla_jobs_insertar_job (tabla s) job \<bind> (\<lambda>t. let s = s\<lparr>tabla := t\<rparr> in
        tabla_jobs_verificar (tabla s) j \<bind> (\<lambda>listo.
          if listo then send_message c DEST_ERLANG_LOCAL (msg_job_granted j @ [NL]) s else Some s))))"

lemma alone_job_insert: "alone ok [TJob_next red j c [] job] s (job_finish j c (Some job, s))"
proof (cases "tabla_jobs_insertar_job (tabla s) job")
  case (Some t)
  show ?thesis
    using Some alone_unlock_end [OF alone_send [of ok c DEST_ERLANG_LOCAL "msg_job_granted j @ [NL]" "s\<lparr>tabla := t\<rparr>"]]
    by (cases "tabla_jobs_verificar t j")
      (auto simp: alone_Cons [of ok "TJob_next _ _ _ _ _"] permits_def job_insert_section_def job_finish_def Let_def)
qed (simp add: alone_Cons permits_def job_insert_section_def job_finish_def)

lemma job_finish_None [simp]: "job_finish j c (None, s) = Some s"
  by (simp add: job_finish_def)

lemma alone_job_loop: "alone ok [TJob_next red j c reqs job] s (job_request_loop red j c reqs job s \<bind> job_finish j c)"
proof (induction reqs arbitrary: job s)
  case Nil
  then show ?case using alone_job_insert by simp
next
  case (Cons q reqs)
  show ?case
  proof (cases "rq_ip q = g_ip s")
    case True
    obtain r s' where r: "reserve_resource (rq_type q) (rq_amount q) j c ORIGIN_LOCAL s = (r, s')" by fastforce
    show ?thesis
      using True r Cons alone_abort
      by (cases r) (simp_all add: alone_Cons [of ok "TJob_next _ _ _ _ _" _ s] alone_Cons [of ok "TJob_reserve _ _ _ _ _ _"]
          permits_def job_turn_tasks_def job_reserve_section_def)
  next
    case False
    show ?thesis
    proof (cases "tabla_conns_lookup (conns s) (rq_ip q)")
      case (Some remote)
      show ?thesis using False Some
        by (auto simp: alone_Cons [of ok "TJob_next _ _ _ _ _" _ s] permits_def job_turn_tasks_def ask_remote_tasks_def
            reserve_text_def intro!: alone_then alone_send Cons.IH)
    next
      case None
      let ?port = "tabla_nodos_get_puerto (tabla_nodos s) (rq_ip q)"
      obtain r s' where r: "(if ?port \<noteq> -1 then connect_remote_node red (rq_ip q) ?port s else (None, s)) = (r, s')"
        by fastforce
      show ?thesis using False None r Cons.IH alone_abort
        by (cases r) (simp_all add: alone_Cons [of ok "TJob_next _ _ _ _ _" _ s] alone_Cons [of ok "TJob_port _ _ _ _ _ _"]
            alone_Cons [of ok "TJob_connect _ _ _ _ _ _ _"] permits_def job_turn_tasks_def job_connect_section_def
            reserve_text_def Let_def)
    qed
  qed
qed

lemma alone_on_job_request:
  assumes "parse_job_request msg = Some res"
  shows "alone ok (case res of Invalido \<Rightarrow> [] | Valido m \<Rightarrow> [TLock TablaLock, TJob_begin red c m]) s (on_job_request red c msg s)"
proof (cases res)
  case (Valido m)
  let ?new = "\<lparr>j_job_id = jr_job_id m, j_conn = c, confirmadas = [], pendientes = []\<rparr>"
  have "alone ok [TJob_next red (jr_job_id m) c (request_list m) ?new] s
      (job_request_loop red (jr_job_id m) c (request_list m) ?new s \<bind> job_finish (jr_job_id m) c)"
    by (rule alone_job_loop)
  then show ?thesis using assms Valido unfolding on_job_request_def
    by (cases "tabla_jobs_buscar_por_id (tabla s) (jr_job_id m)")
      (auto simp: alone_Cons [of ok "TJob_begin _ _ _"] permits_def job_finish_def [abs_def] Let_def)
qed (simp add: on_job_request_def assms)

section \<open>The other messages of the planner\<close>

lemma alone_job_release_loop: "alone ok (job_release_tasks as) s (job_release_loop as s)"
proof (induction as arbitrary: s)
  case (Cons a as)
  have "alone ok (if a_type a = LOCAL \<and> a_result a = RM_GRANTED then release_resource_tasks True (a_name a) (a_amount a)
      else limpiar_colas_por_id_tasks (a_job_id a)) s
      (if a_type a = LOCAL \<and> a_result a = RM_GRANTED then release_resource (a_name a) (a_amount a) s
       else Some (limpiar_colas_por_id (a_job_id a) s))"
    using alone_release alone_purge_id by simp
  moreover have "alone ok (if a_type a = REMOTE then [TSend (a_conn a) DEST_AGENTE_REMOTO
      (release_text (a_job_id a) (a_name a) (a_amount a))] else []) s
      (if a_type a = REMOTE then send_release (a_conn a) (a_job_id a) (a_name a) (a_amount a) s else Some s)" for s
    using alone_send by (simp add: send_release_def release_text_def)
  ultimately show ?case unfolding job_release_loop.simps job_release_tasks.simps
    by (intro alone_bind Cons.IH)
qed simp

lemma alone_on_job_release:
  "alone ok (case parse_job_release msg of Invalido \<Rightarrow> [] | Valido m \<Rightarrow> [TLock TablaLock, TJob_release (gm_job_id m)]) s
     (on_job_release msg s)"
proof (cases "parse_job_release msg")
  case (Valido m)
  then show ?thesis using alone_bind [OF alone_job_release_loop alone_purge_id]
    by (cases "tabla_jobs_extract_by_id (tabla s) (gm_job_id m)")
      (auto simp: on_job_release_def alone_Cons [of ok "TJob_release _"] permits_def Let_def split: option.split)
qed (simp add: on_job_release_def)

lemma alone_on_job_status:
  "alone ok (case parse_job_status msg of Invalido \<Rightarrow> [] | Valido m \<Rightarrow> [TLock TablaLock, TStatus c (gm_job_id m)]) s
     (on_job_status c msg s)"
proof (cases "parse_job_status msg")
  case (Valido m)
  then show ?thesis using alone_send
    by (cases "tabla_jobs_get_conn (tabla s) (gm_job_id m)")
      (auto simp: on_job_status_def alone_Cons [of ok "TStatus _ _"] permits_def)
qed (simp add: on_job_status_def)

lemma alone_on_job_timeout:
  "alone ok (case parse_job_timeout msg of Invalido \<Rightarrow> []
     | Valido m \<Rightarrow> tabla_jobs_remove_tasks (gm_job_id m) True True @ limpiar_colas_por_id_tasks (gm_job_id m)) s
     (on_job_timeout msg s)"
  by (cases "parse_job_timeout msg") (auto simp: on_job_timeout_def intro!: alone_bind alone_remove alone_purge_id)

lemma alone_on_get_nodes: "alone ok [TNodes c] s (on_get_nodes c s)"
  using alone_send by (cases "format_no_args (nodes_reply (tabla_nodos s))")
    (auto simp: on_get_nodes_def alone_Cons [of ok "TNodes _"] permits_def)

definition branch_ok :: "(event \<Rightarrow> agent \<Rightarrow> bool) \<Rightarrow> agent \<Rightarrow> task list option \<Rightarrow> agent option \<Rightarrow> bool" where
  "branch_ok ok s ts r = (case ts of None \<Rightarrow> r = None | Some ts \<Rightarrow> alone ok ts s r)"

lemma branch_ok_Some: "alone ok ts s r \<Longrightarrow> branch_ok ok s (Some ts) r"
  by (simp add: branch_ok_def)

lemma branch_ok_if:
  "branch_ok ok s a r \<Longrightarrow> branch_ok ok s b q \<Longrightarrow> branch_ok ok s (if P then a else b) (if P then r else q)"
  by simp

lemma branch_job_request:
  "branch_ok ok s (map_option (\<lambda>result. case result of Invalido \<Rightarrow> [] | Valido m \<Rightarrow> [TLock TablaLock, TJob_begin red c m])
     (parse_job_request msg)) (on_job_request red c msg s)"
  using alone_on_job_request [of msg]
  by (cases "parse_job_request msg") (simp_all add: branch_ok_def on_job_request_def)

lemma alone_message: "alone ok [TMessage red c msg] s (process_message red c msg s)"
proof (cases "heap s c")
  case None
  then show ?thesis by (simp add: alone_Cons permits_def process_message_def)
next
  case (Some k)
  have "branch_ok ok s (message_tasks red c msg) (process_message red c msg s)"
    unfolding message_tasks_def process_message_def Some if_not_P [OF option.distinct(2)]
    by (intro branch_ok_if branch_job_request branch_ok_Some alone_on_reserve alone_on_release alone_on_granted alone_on_denied
        alone_on_get_nodes alone_on_job_release alone_on_job_status alone_on_job_timeout alone_Nil)
  then show ?thesis using Some
    by (cases "message_tasks red c msg") (simp_all add: branch_ok_def alone_Cons [of ok "TMessage _ _ _"] permits_def)
qed

section \<open>Connections and events\<close>

lemma alone_release_jobs: "alone ok (release_jobs_tasks js) s (release_jobs js s)"
proof (induction js arbitrary: s)
  case (Cons job js)
  show ?case unfolding release_jobs.simps release_jobs_tasks.simps
    by (rule alone_before [OF alone_purge_id alone_bind [OF alone_release_allocs Cons.IH]])
qed simp

lemma alone_failed: "alone ok [TExtract_conn c] s (process_connection_failed c s)"
  using alone_release_jobs
  by (auto simp: alone_Cons [of ok "TExtract_conn _"] permits_def process_connection_failed_def split: prod.split)

lemma alone_disconnect: "alone ok (process_disconnect_tasks c) s (process_disconnect c s)"
proof -
  let ?s = "limpiar_colas_por_conn c s"
  have "alone ok ([TExtract_conn c] @ [TConns_delete c]) ?s
      (process_connection_failed c ?s \<bind> (\<lambda>s. Some (s\<lparr>conns := tabla_conns_delete_by_conn (conns s) c\<rparr>)))"
    by (rule alone_bind [OF alone_failed]) (simp add: alone_Cons permits_def)
  then have "alone ok ([TLock TablaLock, TExtract_conn c, TConns_delete c]) ?s (process_disconnect c s)"
    by (simp add: process_disconnect_def process_connection_failed_def split_beta)
  then show ?thesis unfolding process_disconnect_tasks_def by (rule alone_before [OF alone_purge_conn])
qed

lemma alone_free: "alone ok [TFree c] s (heap s c \<bind> (\<lambda>_. Some (free_conn c s)))"
  by (cases "heap s c") (simp_all add: alone_Cons permits_def)

lemma alone_close: "alone ok (close_tasks c) s (close_conn c s)"
  unfolding close_tasks_def close_conn_def by (rule alone_bind [OF alone_disconnect alone_free])

lemma alone_ready_loop: "alone ok (ready_tasks c reqs) s (ready_loop c reqs s)"
proof (induction reqs arbitrary: s)
  case (Cons req reqs)
  let ?s = "s\<lparr>conns := tabla_conns_insert (conns s) (o_ip req) c\<rparr>"
  have "alone ok [TReady_send c (o_msg req)] ?s (o_msg req \<bind> (\<lambda>msg. format_no_args msg
      \<bind> (\<lambda>texto. send_message c DEST_AGENTE_REMOTO texto ?s)))"
    by (auto simp: alone_Cons permits_def split: Option.bind_split)
  from alone_then [OF this Cons.IH] show ?case
    by (simp add: alone_Cons [of ok "TConns_insert _ _"] permits_def Let_def)
qed simp

lemma alone_ready: "alone ok [TLock TablaLock, TReady c] s (process_connection_ready c s)"
  using alone_unlock_end [OF alone_ready_loop]
  by (simp add: alone_Cons [of ok "TReady _"] permits_def process_connection_ready_def)

lemma alone_accept: "alone ok [TAccept ty as] s (Some (handle_accept ty as s))"
proof (induction as arbitrary: s)
  case (Cons a as)
  then show ?case by (simp add: alone_Cons [of ok "TAccept ty (a # as)"] permits_def split: option.split)
qed (simp add: alone_Cons permits_def)

lemma alone_udp: "alone ok (map (\<lambda>(sender_ip, bs). TAnnounce now sender_ip (cstr (take (BUFF_SIZE - 1) bs))) ds) s
  (Some (handle_udp_read now ds s))"
  by (induction now ds s rule: handle_udp_read.induct) (simp_all add: alone_Cons permits_def)

lemma alone_lines: "alone ok [TLines red c buf] s (read_lines red c buf s \<bind> (\<lambda>(remaining, s). heap s c \<bind>
    (\<lambda>_. Some (upd_conn c (\<lambda>k. k\<lparr>read_buf := remaining\<rparr>) s))))"
proof (induction red c buf s rule: read_lines.induct)
  case (1 red c buf s)
  show ?case
  proof (cases "next_line buf")
    case None
    then show ?thesis
      by (cases "heap s c") (simp_all add: read_lines.simps [of red c buf s] alone_Cons permits_def)
  next
    case (Some p)
    obtain line rest where p: "p = (line, rest)" by fastforce
    from alone_then [OF alone_message "1.IH" [OF Some p [symmetric]]] show ?thesis
      using Some p by (simp add: read_lines.simps [of red c buf s] alone_Cons [of ok "TLines red c buf"] permits_def)
  qed
qed

text \<open>From the writing to the end of the event; \<open>closed\<close> is false.\<close>

abbreviation finish_event :: "event \<Rightarrow> bool \<Rightarrow> bool \<times> agent \<Rightarrow> agent option" where
  "finish_event ev oneshot \<equiv> (\<lambda>(closed, s).
     (if \<not> closed \<and> ev_out ev then on_writable ev s else Some (closed, s))
       \<bind> (\<lambda>(closed, s). if \<not> closed \<and> oneshot then rearm (ev_conn ev) s else Some s))"

lemma alone_rearm: "alone ok (if oneshot then [TRearm c] else []) s (if oneshot then rearm c s else Some s)"
proof (cases "heap s c")
  case (Some k)
  obtain b k' where r: "rearm_conn (g_epfd s) k = (b, k')" by fastforce
  show ?thesis using Some r alone_close by (simp add: rearm_def alone_Cons [of ok "TRearm _"] permits_def Let_def)
qed (simp add: rearm_def alone_Cons permits_def)

lemma closed_end: "r \<bind> (\<lambda>s. Some (True, s)) \<bind> (\<lambda>(closed, s). if \<not> closed \<and> b then f s else Some s) = r"
  by (cases r) simp_all

lemma alone_writable: "alone ok [TWritable ev oneshot] s (finish_event ev oneshot (False, s))"
proof (cases "ev_out ev")
  case True
  let ?c = "ev_conn ev"
  note exec = alone_Cons [of ok "TWritable _ _"] permits_def writable_section_def Let_def
  show ?thesis
  proof (cases "heap s ?c")
    case (Some k)
    note s = True Some
    consider "ctype k = CONN_TCP_CLIENT_REMOTE \<or> ctype k = CONN_TCP_CLIENT_LOCAL" | "ctype k = CONN_TCP_OUTGOING"
      | "ctype k \<in> {CONN_TCP_PUBLIC_LISTEN, CONN_TCP_LOCAL_LISTEN, CONN_UDP_DISCOVERY}"
      by (cases "ctype k") auto
    then show ?thesis
    proof cases
      case 1
      have "on_writable ev s = handle_tcp_write (ev_write ev) ?c s" using s 1 by (auto simp: on_writable_def)
      then show ?thesis using s 1 alone_rearm alone_close
        by (cases "tcp_write (ev_write ev k) k") (simp_all add: exec handle_tcp_write_def closed_end)
    next
      case 2
      have w: "on_writable ev s = handle_outgoing_connection_event (ev_connected ev) ?c s" using s 2 by (auto simp: on_writable_def)
      have "alone ok ([TExtract_conn ?c] @ [TFree ?c]) s (process_connection_failed ?c s
          \<bind> (\<lambda>s. heap s ?c \<bind> (\<lambda>_. Some (free_conn ?c s))))" by (rule alone_bind [OF alone_failed alone_free])
      moreover note alone_bind [OF alone_ready alone_rearm]
      ultimately show ?thesis using s 2 w
        by (auto simp: exec handle_outgoing_connection_event_def split_beta)
    next
      case 3
      then show ?thesis using s alone_rearm [of ok oneshot ?c s] by (auto simp: exec on_writable_def)
    qed
  qed (use True in \<open>simp add: exec on_writable_def\<close>)
next
  case False
  then show ?thesis using alone_rearm by (simp add: alone_Cons [of ok "TWritable _ _"] permits_def writable_section_def Let_def)
qed

lemma alone_read:
  assumes "ok ev s"
  shows "alone ok [TRead red ev oneshot] s (handle_tcp_read red (ev_read ev) (ev_conn ev) s \<bind> finish_event ev oneshot)"
proof (cases "heap s (ev_conn ev)")
  case (Some k)
  let ?c = "ev_conn ev"
  note exec = alone_Cons [of ok "TRead _ _ _"] permits_def read_section_def handle_tcp_read_def assms Some closed_end Let_def
  note close = alone_close [of ok ?c s] and wr = alone_writable [of ok ev oneshot s]
  show ?thesis
  proof (cases "ev_read ev")
    case (ReadError again)
    then show ?thesis using close wr by (cases again) (simp_all add: exec split_beta)
  next
    case (Read bs)
    let ?buf = "read_buf k @ bs"
    let ?s = "upd_conn ?c (\<lambda>k. k\<lparr>read_buf := ?buf\<rparr>) s"
    have "alone ok [TLines red ?c ?buf, TWritable ev oneshot] ?s ((read_lines red ?c ?buf ?s \<bind> (\<lambda>(remaining, s). heap s ?c
        \<bind> (\<lambda>_. Some (upd_conn ?c (\<lambda>k. k\<lparr>read_buf := remaining\<rparr>) s)))) \<bind> (\<lambda>s. finish_event ev oneshot (False, s)))"
      by (rule alone_then [OF alone_lines alone_writable])
    then show ?thesis using Read close by (simp add: exec split_beta)
  qed
qed (simp add: alone_Cons permits_def assms read_section_def handle_tcp_read_def Let_def)

lemma alone_readable:
  assumes "ok ev s"
  shows "alone ok [TReadable red ev oneshot] s (on_readable red ev s \<bind> finish_event ev oneshot)"
proof (cases "heap s (ev_conn ev)")
  case (Some k)
  note exec = alone_Cons [of ok "TReadable _ _ _"] permits_def readable_section_def on_readable_def Some
  note udp = alone_before [OF alone_udp alone_writable] and accept = alone_before [OF alone_accept alone_writable]
  show ?thesis using udp accept alone_read [of ok, OF assms]
    by (cases "ctype k") (simp_all add: exec)
qed (simp add: alone_Cons permits_def readable_section_def on_readable_def)

text \<open>What is assumed of a read does not depend on the flag the worker sets before it.\<close>

definition unmarked :: "(event \<Rightarrow> agent \<Rightarrow> bool) \<Rightarrow> bool" where
  "unmarked ok \<longleftrightarrow> (\<forall>ev s. ok ev s \<longrightarrow> ok ev (upd_conn (ev_conn ev) (\<lambda>k. k\<lparr>in_handler := True\<rparr>) s))"

lemma unmarked_simps [simp]: "unmarked amounts_event_ok" "unmarked (\<lambda>_ _. True)"
  by (auto simp: unmarked_def amounts_event_ok_def read_amounts_ok_def split: read_result.splits)

lemma alone_event:
  assumes "ok ev s" "unmarked ok"
  shows "alone ok [TEvent red ev] s (worker_event red ev s)"
proof (cases "heap s (ev_conn ev)")
  case (Some k)
  define one where "one = conn_uses_oneshot k"
  define s' where "s' = (if one then upd_conn (ev_conn ev) (\<lambda>k. k\<lparr>in_handler := True\<rparr>) s else s)"
  have ok: "ok ev s'" using assms by (simp add: unmarked_def s'_def)
  have exec: "exec (TEvent red ev) s = Some (s', if ev_err ev \<or> \<not> (ev_in ev \<or> ev_out ev) then close_tasks (ev_conn ev)
      else if ev_in ev then [TReadable red ev one] else [TWritable ev one])"
    by (simp add: event_section_def Some Let_def one_def s'_def)
  have ev: "worker_event red ev s = (if ev_err ev \<or> \<not> (ev_in ev \<or> ev_out ev) then close_conn (ev_conn ev) s'
      else if ev_in ev then on_readable red ev s' \<bind> finish_event ev one else finish_event ev one (False, s'))"
    unfolding worker_event_def Some Let_def Option.bind.simps one_def [symmetric] s'_def [symmetric] by simp
  show ?thesis unfolding ev alone_Cons [of ok "TEvent red ev"] exec
    using alone_close alone_readable [of ok, OF ok] alone_writable
    by (simp only: option.case prod.case append_Nil2 permits_def task.simps split: if_split) blast
qed (simp add: alone_Cons permits_def event_section_def worker_event_def)

lemma alone_det: "alone ok ts s r \<Longrightarrow> alone ok ts s q \<Longrightarrow> r = q"
  by (induction arbitrary: q rule: alone.induct) (auto simp: alone_Cons)

end
