(* ===== verification/Threads.thy ===== *)
theory Threads
  imports Task_Refinement
begin

text \<open>
  The threads of the agent, interleaved task by task. A thread is the mutexes it holds and
  the tasks it has still to do; \<open>cstep\<close> lets any thread do its next task, a locking one only
  when nobody holds the mutex, an idle worker take an event, and the broadcast thread its
  turn. \<open>locks_after\<close> says for each task which mutexes the code holds when it comes to it and
  which it holds when all that follows from the task is done; every list of tasks the code
  makes keeps to it. So no task touches the job table or a resource without its mutex, a
  thread alone runs to the end of its event, and the threads do not block each other.
\<close>

section \<open>Interleavings\<close>

type_synonym pool = "(lock list \<times> task list) list"

definition is_lock :: "task \<Rightarrow> bool" where
  "is_lock t \<longleftrightarrow> (\<exists>l. t = TLock l \<or> t = TUnlock l)"

inductive cstep :: "(event \<Rightarrow> agent \<Rightarrow> bool) \<Rightarrow> agent \<times> pool \<Rightarrow> agent \<times> pool \<Rightarrow> bool" for ok where
  c_lock: "i < length ts \<Longrightarrow> ts ! i = (h, TLock l # us) \<Longrightarrow> \<forall>t\<in>set ts. l \<notin> set (fst t)
    \<Longrightarrow> cstep ok (s, ts) (s, ts[i := (l # h, us)])"
| c_unlock: "i < length ts \<Longrightarrow> ts ! i = (h, TUnlock l # us) \<Longrightarrow> cstep ok (s, ts) (s, ts[i := (remove1 l h, us)])"
| c_task: "i < length ts \<Longrightarrow> ts ! i = (h, t # us) \<Longrightarrow> \<not> is_lock t \<Longrightarrow> permits ok t s \<Longrightarrow> exec t s = Some (s', vs)
    \<Longrightarrow> cstep ok (s, ts) (s', ts[i := (h, vs @ us)])"
| c_event: "i < length ts \<Longrightarrow> ts ! i = (h, []) \<Longrightarrow> malloc_fresh red \<Longrightarrow> event_ok ev s
    \<Longrightarrow> cstep ok (s, ts) (s, ts[i := (h, [TEvent red ev])])"
| c_broadcast: "cstep ok (s, ts) (broadcast_step now s, ts)"

text \<open>The threads as \<open>main\<close> makes them: \<open>n\<close> workers with nothing to do.\<close>

definition idle :: "nat \<Rightarrow> pool" where
  "idle n = replicate n ([], [])"

section \<open>Which mutexes a task expects\<close>

definition expects :: "lock list \<Rightarrow> lock list \<Rightarrow> lock list \<Rightarrow> lock list option" where
  "expects before then_held h = (if h = before then Some then_held else None)"

abbreviation tabla_held :: "lock list" where "tabla_held \<equiv> [TablaLock]"
abbreviation both_held :: "resource_t \<Rightarrow> lock list" where "both_held r \<equiv> [RecursoMutex r, TablaLock]"

primrec locks_after :: "task \<Rightarrow> lock list \<Rightarrow> lock list option" where
  "locks_after (TLock l) h = (if \<forall>m\<in>set h. lock_rank m < lock_rank l then Some (l # h) else None)"
| "locks_after (TUnlock l) h = (case h of m # h' \<Rightarrow> if m = l then Some h' else None | [] \<Rightarrow> None)"
| "locks_after (TSend c d x) h = Some h"
| "locks_after (TLookup_send ip x) h = Some h"
| "locks_after (TReserve r n j c) h = expects [RecursoMutex r] [] h"
| "locks_after (TRelease r n) h = expects (both_held r) (both_held r) h"
| "locks_after (TServe r) h = expects (both_held r) (both_held r) h"
| "locks_after (TPurge_id r j) h = (if RecursoMutex r \<in> set h then Some h else None)"
| "locks_after (TPurge_conn r c) h = (if RecursoMutex r \<in> set h then Some h else None)"
| "locks_after (TRemove j b b') h = (if b = b' then expects tabla_held (if b then [] else tabla_held) h else None)"
| "locks_after (TGranted c j) h = expects [] [] h"
| "locks_after (TConfirm c j ip) h = expects tabla_held [] h"
| "locks_after (TDenied j) h = expects tabla_held [] h"
| "locks_after (TJob_begin red c m) h = expects tabla_held [] h"
| "locks_after (TJob_next red j c reqs job) h = expects tabla_held [] h"
| "locks_after (TJob_reserve red j c q reqs job) h = expects (both_held (rq_type q)) [] h"
| "locks_after (TJob_port red j c q reqs job) h = expects tabla_held [] h"
| "locks_after (TJob_connect red j c q reqs job port) h = expects tabla_held [] h"
| "locks_after (TNodes c) h = expects [] [] h"
| "locks_after (TJob_release j) h = expects tabla_held [] h"
| "locks_after (TStatus c j) h = expects tabla_held [] h"
| "locks_after (TMessage red c msg) h = expects [] [] h"
| "locks_after (TAnnounce now ip msg) h = expects [] [] h"
| "locks_after (TExtract_conn c) h = expects tabla_held [] h"
| "locks_after (TConns_delete c) h = expects [] [] h"
| "locks_after (TConns_insert ip c) h = expects tabla_held tabla_held h"
| "locks_after (TReady c) h = expects tabla_held [] h"
| "locks_after (TReady_send c msg) h = expects tabla_held tabla_held h"
| "locks_after (TFree c) h = expects [] [] h"
| "locks_after (TAccept ty as) h = expects [] [] h"
| "locks_after (TReadable red ev b) h = expects [] [] h"
| "locks_after (TRead red ev b) h = expects [] [] h"
| "locks_after (TLines red c buf) h = expects [] [] h"
| "locks_after (TWritable ev b) h = expects [] [] h"
| "locks_after (TRearm c) h = expects [] [] h"
| "locks_after (TEvent red ev) h = expects [] [] h"

fun stack_after :: "task list \<Rightarrow> lock list \<Rightarrow> lock list option" where
  "stack_after [] h = Some h"
| "stack_after (t # ts) h = locks_after t h \<bind> stack_after ts"

lemma stack_after_append [simp]: "stack_after (ts @ us) h = stack_after ts h \<bind> stack_after us"
proof (induction ts arbitrary: h)
  case (Cons t ts)
  then show ?case by (cases "locks_after t h") simp_all
qed simp

lemma expects_simps [simp]: "expects h h' h = Some h'" "(expects a b h = Some b') = (h = a \<and> b' = b)"
  by (auto simp: expects_def)

section \<open>Every list of tasks of the code keeps to it\<close>

lemma stack_purge [simp]:
  "stack_after (limpiar_colas_por_id_tasks j) [] = Some []" "stack_after (limpiar_colas_por_id_tasks j) tabla_held = Some tabla_held"
  "stack_after (limpiar_colas_por_conn_tasks c) [] = Some []"
  by (simp_all add: limpiar_colas_por_id_tasks_def limpiar_colas_por_conn_tasks_def with_recurso_def)

lemma stack_release [simp]:
  "stack_after (release_resource_tasks True r n) [] = Some []"
  "stack_after (release_resource_tasks False r n) tabla_held = Some tabla_held"
  by (simp_all add: release_resource_tasks_def with_recurso_def)

lemma stack_release_allocs [simp]:
  "stack_after (release_allocs_tasks True j as) [] = Some []"
  "stack_after (release_allocs_tasks False j as) tabla_held = Some tabla_held"
  by (induction as) auto

lemma stack_tasks [simp]:
  "stack_after (tabla_jobs_remove_tasks j True True) [] = Some []"
  "stack_after (tabla_jobs_remove_tasks j False False) tabla_held = Some tabla_held"
  "stack_after (abort_tasks j c job) tabla_held = Some []"
  "stack_after (process_disconnect_tasks c) [] = Some []" "stack_after (close_tasks c) [] = Some []"
  by (simp_all add: tabla_jobs_remove_tasks_def abort_tasks_def process_disconnect_tasks_def close_tasks_def)

lemma stack_loops [simp]:
  "stack_after (job_release_tasks as) [] = Some []" "stack_after (release_jobs_tasks js) [] = Some []"
  "stack_after (ready_tasks c reqs) tabla_held = Some tabla_held"
  by (induction as, auto, induction js, auto, induction reqs, auto)

lemma stack_announces [simp]: "stack_after (map (\<lambda>(ip, bs). TAnnounce now ip (f bs)) ds) [] = Some []"
  by (induction ds) auto

lemma stack_message: "message_tasks red c msg = Some ts \<Longrightarrow> stack_after ts [] = Some []"
  by (auto simp: message_tasks_def map_option_case split: if_splits parsed.splits option.splits)

text \<open>What a task leads to gives back what the task promises.\<close>

lemma exec_stack:
  assumes "locks_after t h = Some h'" "exec t s = Some (s', us)" "\<not> is_lock t"
  shows "stack_after us h = Some h'"
proof (cases t)
  case (TServe r)
  then show ?thesis using assms
    by (auto simp: serve_section_def bind_eq_Some_conv Let_def split: option.splits prod.splits if_splits)
next
  case (TConfirm c j ip)
  then show ?thesis using assms
    by (auto simp: confirm_section_def split_beta bind_eq_Some_conv Let_def split: option.splits if_splits)
next
  case (TMessage red c msg)
  then show ?thesis using assms stack_message by (auto split: if_splits)
next
  case (TJob_next red j c reqs job)
  then show ?thesis using assms
    by (auto simp: job_insert_section_def job_turn_tasks_def ask_remote_tasks_def bind_eq_Some_conv Let_def
        split: list.splits option.splits if_splits)
next
  case (TReadable red ev b)
  then show ?thesis using assms
    by (auto simp: readable_section_def bind_eq_Some_conv split: connection_type_t.splits) (metis connection_type_t.exhaust)
next
  case (TWritable ev b)
  then show ?thesis using assms
    by (auto simp: writable_section_def bind_eq_Some_conv Let_def split: if_splits option.splits)
next
  case (TReserve r n j c)
  then show ?thesis using assms by (auto split: prod.splits result_t.splits)
next
  case (TJob_reserve red j c q reqs job)
  then show ?thesis using assms by (auto simp: job_reserve_section_def split: prod.splits if_splits)
next
  case (TJob_connect red j c q reqs job port)
  then show ?thesis using assms by (auto simp: job_connect_section_def split: prod.splits option.splits)
next
  case (TRead red ev b)
  then show ?thesis using assms
    by (cases "ev_read ev") (auto simp: read_section_def bind_eq_Some_conv Let_def split: if_splits)
next
  case (TEvent red ev)
  then show ?thesis using assms by (auto simp: event_section_def bind_eq_Some_conv Let_def split: if_splits)
next
  case (TRearm c)
  then show ?thesis using assms
    by (cases "heap s c") (auto simp: split_beta simp del: prod.collapse)
next
  case (TLines red c buf)
  then show ?thesis using assms by (auto split: option.splits if_splits)
next
  case (TRelease r n)
  then show ?thesis using assms by (auto simp: Let_def split: if_splits)
next
  case (TAccept ty as)
  then show ?thesis using assms by (auto split: list.splits)
next
  case (TExtract_conn c)
  then show ?thesis using assms by (auto split: prod.splits)
next
  case (TRemove j b b')
  then show ?thesis using assms by (auto simp: bind_eq_Some_conv split: option.splits if_splits)
qed (use assms in \<open>auto simp: is_lock_def bind_eq_Some_conv split: option.splits if_splits\<close>)

section \<open>The pool\<close>

text \<open>Every thread keeps to it, no mutex has two holders, and no thread holds one twice.\<close>

definition pool_ok :: "pool \<Rightarrow> bool" where
  "pool_ok ts \<longleftrightarrow> (\<forall>t\<in>set ts. stack_after (snd t) (fst t) = Some []) \<and> distinct (concat (map fst ts))"

lemma pool_ok_idle: "pool_ok (idle n)"
  by (auto simp: pool_ok_def idle_def)

lemma concat_update_less:
  assumes "distinct (concat (map fst ts))" "i < length ts" "ts ! i = (h, us)" "set h' \<subseteq> set h" "distinct h'"
  shows "distinct (concat (map fst (ts[i := (h', us')])))"
proof -
  have ts: "ts = take i ts @ (h, us) # drop (Suc i) ts" using assms(2,3) id_take_nth_drop [of i ts] by simp
  have d: "distinct (concat (map fst (take i ts)) @ h @ concat (map fst (drop (Suc i) ts)))"
    using assms(1) by (subst (asm) ts) simp
  have "ts[i := (h', us')] = take i ts @ (h', us') # drop (Suc i) ts" using assms(2) by (simp add: upd_conv_take_nth_drop)
  then show ?thesis using d assms(4,5) by fastforce
qed

lemma concat_update_lock:
  assumes "distinct (concat (map fst ts))" "i < length ts" "ts ! i = (h, us)" "\<forall>t\<in>set ts. l \<notin> set (fst t)"
  shows "distinct (concat (map fst (ts[i := (l # h, us')])))"
proof -
  have ts: "ts = take i ts @ (h, us) # drop (Suc i) ts" using assms(2,3) id_take_nth_drop [of i ts] by simp
  have d: "distinct (concat (map fst (take i ts)) @ h @ concat (map fst (drop (Suc i) ts)))"
    using assms(1) by (subst (asm) ts) simp
  have l: "l \<notin> set (concat (map fst (take i ts)) @ h @ concat (map fst (drop (Suc i) ts)))"
    using assms(4) by (subst (asm) ts) auto
  have "ts[i := (l # h, us')] = take i ts @ (l # h, us') # drop (Suc i) ts" using assms(2) by (simp add: upd_conv_take_nth_drop)
  then show ?thesis using d l by auto
qed

lemma pool_ok_update:
  assumes "pool_ok ts" "stack_after us' h' = Some []" "distinct (concat (map fst (ts[i := (h', us')])))"
  shows "pool_ok (ts[i := (h', us')])"
  using assms set_update_subset_insert [of ts i "(h', us')"] by (fastforce simp: pool_ok_def)

lemma pool_nth:
  assumes "pool_ok ts" "i < length ts" "ts ! i = (h, us)"
  shows "stack_after us h = Some []" "distinct h"
proof -
  have m: "(h, us) \<in> set ts" using assms(2,3) nth_mem by metis
  then show "stack_after us h = Some []" using assms(1) by (auto simp: pool_ok_def)
  have "h \<in> set (map fst ts)" using m by force
  then show "distinct h" using assms(1) by (auto simp: pool_ok_def distinct_concat_iff)
qed

lemma unlock_top: "stack_after (TUnlock l # us) h = Some [] \<Longrightarrow> \<exists>h'. h = l # h' \<and> remove1 l h = h' \<and> stack_after us h' = Some []"
  by (cases h) (auto split: if_splits)

interpretation locking: step_invariant "cstep ok" "\<lambda>c. pool_ok (snd c)" for ok
proof
  fix c c' :: "agent \<times> pool"
  assume ok: "pool_ok (snd c)" and step: "cstep ok c c'"
  obtain s ts where c: "c = (s, ts)" by fastforce
  have ok: "pool_ok ts" using ok c by simp
  then have d: "distinct (concat (map fst ts))" by (simp add: pool_ok_def)
  from step [unfolded c] show "pool_ok (snd c')"
  proof cases
    case (c_lock i h l us)
    note n = pool_nth [OF ok c_lock(2,3)]
    from n(1) have "stack_after us (l # h) = Some []" by (auto split: if_splits)
    then show ?thesis using pool_ok_update [OF ok _ concat_update_lock [OF d c_lock(2-4)]] c_lock(1) by simp
  next
    case (c_unlock i h l us)
    note n = pool_nth [OF ok c_unlock(2,3)]
    obtain h' where h': "h = l # h'" "remove1 l h = h'" "stack_after us h' = Some []" using unlock_top [OF n(1)] by blast
    have "distinct (concat (map fst (ts[i := (remove1 l h, us)])))"
      by (rule concat_update_less [OF d c_unlock(2,3)]) (use n(2) h'(1) in auto)
    then show ?thesis using pool_ok_update [OF ok, of us "remove1 l h"] h'(2,3) c_unlock(1) by simp
  next
    case (c_task i h t us s' vs)
    note n = pool_nth [OF ok c_task(2,3)]
    obtain h' where h': "locks_after t h = Some h'" "stack_after us h' = Some []"
      using bind_SomeD [OF n(1) [unfolded stack_after.simps]] by blast
    have "stack_after (vs @ us) h = Some []" using exec_stack [OF h'(1) c_task(6,4)] h'(2) by simp
    then show ?thesis
      using pool_ok_update [OF ok _ concat_update_less [OF d c_task(2,3) subset_refl n(2)]] c_task(1) by simp
  next
    case (c_event i h red ev)
    note n = pool_nth [OF ok c_event(2,3)]
    then have "stack_after [TEvent red ev] h = Some []" by simp
    then show ?thesis
      using pool_ok_update [OF ok _ concat_update_less [OF d c_event(2,3) subset_refl n(2)]] c_event(1) by simp
  qed (use ok in simp)
qed

section \<open>No task touches data without its mutex\<close>

text \<open>
  \<open>framed F r\<close> is the outcome \<open>r\<close> with \<open>F\<close> applied to its state. A task that runs the same
  before and after \<open>F\<close>, that is with \<open>exec t (F s) = framed F (exec t s)\<close>, neither reads nor writes
  what \<open>F\<close> changes. The locale has the tasks that use neither the job table nor a resource.
\<close>

definition framed :: "(agent \<Rightarrow> agent) \<Rightarrow> (agent \<times> task list) option \<Rightarrow> (agent \<times> task list) option" where
  "framed F = map_option (\<lambda>(s, us). (F s, us))"

lemma framed_simps [simp]: "framed F None = None" "framed F (Some (s, us)) = Some (F s, us)"
  by (simp_all add: framed_def)

definition neutral :: "task \<Rightarrow> bool" where
  "neutral t = (case t of TLock _ \<Rightarrow> True | TUnlock _ \<Rightarrow> True | TSend _ _ _ \<Rightarrow> True | TLookup_send _ _ \<Rightarrow> True
     | TGranted _ _ \<Rightarrow> True | TJob_port _ _ _ _ _ _ \<Rightarrow> True | TJob_connect _ _ _ _ _ _ _ \<Rightarrow> True | TNodes _ \<Rightarrow> True
     | TMessage _ _ _ \<Rightarrow> True | TAnnounce _ _ _ \<Rightarrow> True | TConns_delete _ \<Rightarrow> True | TConns_insert _ _ \<Rightarrow> True
     | TReady_send _ _ \<Rightarrow> True | TFree _ \<Rightarrow> True | TAccept _ _ \<Rightarrow> True | TReadable _ _ _ \<Rightarrow> True | TRead _ _ _ \<Rightarrow> True
     | TLines _ _ _ \<Rightarrow> True | TWritable _ _ \<Rightarrow> True | TRearm _ \<Rightarrow> True | TEvent _ _ \<Rightarrow> True | _ \<Rightarrow> False)"

locale frame_update =
  fixes F :: "agent \<Rightarrow> agent"
  assumes same [simp]: "heap (F s) = heap s" "conns (F s) = conns s" "tabla_nodos (F s) = tabla_nodos s" "g_ip (F s) = g_ip s"
      "g_epfd (F s) = g_epfd s" "tx (F s) = tx s"
    and heap_upd: "F (s\<lparr>heap := hp\<rparr>) = (F s)\<lparr>heap := hp\<rparr>"
    and conns_upd: "F (s\<lparr>conns := cs\<rparr>) = (F s)\<lparr>conns := cs\<rparr>"
    and nodos_upd: "F (s\<lparr>tabla_nodos := ns\<rparr>) = (F s)\<lparr>tabla_nodos := ns\<rparr>"
    and tx_upd: "F (s\<lparr>tx := l\<rparr>) = (F s)\<lparr>tx := l\<rparr>"
begin

lemmas upds = heap_upd conns_upd nodos_upd tx_upd

lemma send_message_F: "send_message c d x (F s) = map_option F (send_message c d x s)"
  by (simp add: send_message_def upds Let_def split: option.split)

lemma upd_conn_F: "upd_conn c f (F s) = F (upd_conn c f s)"
  by (simp add: upd_conn_def upds)

lemma connect_F: "connect_remote_node red ip port (F s) = (case connect_remote_node red ip port s of (r, s') \<Rightarrow> (r, F s'))"
  by (simp add: connect_remote_node_def upds split: connect_result.split)

lemma exec_neutral:
  assumes "neutral t"
  shows "exec t (F s) = framed F (exec t s)"
proof (cases t)
  case (TSend c d x)
  then show ?thesis by (cases "send_message c d x s") (simp_all add: send_message_F)
next
  case (TReady_send c m)
  then show ?thesis by (auto simp: send_message_F split: Option.bind_split)
next
  case (TJob_connect red j c q reqs job port)
  then show ?thesis by (simp add: job_connect_section_def connect_F split_beta split: option.split)
next
  case (TMessage red c msg)
  then show ?thesis by (cases "message_tasks red c msg") simp_all
next
  case (TReadable red ev b)
  then show ?thesis by (cases "heap s (ev_conn ev)") (auto simp: readable_section_def split: connection_type_t.split)
next
  case (TRead red ev b)
  then show ?thesis
    by (cases "heap s (ev_conn ev)") (simp_all add: read_section_def upd_conn_F Let_def split: read_result.split)
next
  case (TWritable ev b)
  then show ?thesis
    by (cases "heap s (ev_conn ev)") (simp_all add: writable_section_def upd_conn_F Let_def split: option.split)
next
  case (TEvent red ev)
  then show ?thesis by (cases "heap s (ev_conn ev)") (simp_all add: event_section_def upd_conn_F Let_def)
next
  case (TRearm c)
  then show ?thesis by (cases "heap s c") (simp_all add: upd_conn_F split: prod.split)
next
  case (TNodes c)
  then show ?thesis by (cases "format_no_args (nodes_reply (tabla_nodos s))") simp_all
next
  case (TAccept ty as)
  then show ?thesis by (simp add: upds split: list.split option.split)
next
  case (TLines red c buf)
  then show ?thesis by (simp add: upd_conn_F split: option.split)
qed (use assms in \<open>auto simp: neutral_def free_conn_def process_announce_def upds split: parsed.split\<close>)

end

text \<open>The job table.\<close>

interpretation tabla_frame: frame_update "tabla_update (\<lambda>_. t)" for t
  by unfold_locales simp_all

lemma exec_tabla:
  assumes "locks_after t h = Some h'" "TablaLock \<notin> set h"
  shows "exec t (s\<lparr>tabla := x\<rparr>) = framed (tabla_update (\<lambda>_. x)) (exec t s)"
proof (cases "neutral t")
  case True
  then show ?thesis by (rule tabla_frame.exec_neutral)
next
  case False
  show ?thesis
  proof (cases t)
    case (TReserve r n j c)
    have "reserve_resource r n j c orig (s\<lparr>tabla := x\<rparr>) = (case reserve_resource r n j c orig s of (res, s') \<Rightarrow> (res, s'\<lparr>tabla := x\<rparr>))" for orig
      by (simp add: reserve_resource_def upd_recurso_def Let_def split: prod.split)
    with TReserve show ?thesis by (simp add: split_beta)
  qed (use assms False in \<open>auto simp: expects_def upd_recurso_def neutral_def split: if_splits\<close>)
qed

text \<open>A resource.\<close>

interpretation recurso_frame: frame_update "upd_recurso r (\<lambda>_. x)" for r x
  by unfold_locales (simp_all add: upd_recurso_def)

lemma upd_recurso_other: "r' \<noteq> r \<Longrightarrow> upd_recurso r' f (upd_recurso r g s) = upd_recurso r g (upd_recurso r' f s)"
  by (simp add: upd_recurso_def fun_upd_twist)

lemma upd_recurso_tabla: "(upd_recurso r f s)\<lparr>tabla := t\<rparr> = upd_recurso r f (s\<lparr>tabla := t\<rparr>)"
  by (simp add: upd_recurso_def)

lemma reserve_other: "r' \<noteq> r \<Longrightarrow> reserve_resource r' n j c orig (upd_recurso r f s)
  = (case reserve_resource r' n j c orig s of (res, s') \<Rightarrow> (res, upd_recurso r f s'))"
  by (simp add: reserve_resource_def upd_recurso_other Let_def split: prod.split)

lemma exec_recurso:
  assumes "locks_after t h = Some h'" "RecursoMutex r \<notin> set h"
  shows "exec t (upd_recurso r (\<lambda>_. x) s) = framed (upd_recurso r (\<lambda>_. x)) (exec t s)"
proof (cases "neutral t")
  case True
  then show ?thesis by (rule recurso_frame.exec_neutral)
next
  case False
  show ?thesis
  proof (cases t)
    case (TReserve r' n j c)
    then show ?thesis using assms by (auto simp: reserve_other split_beta)
  next
    case (TJob_reserve red j c q reqs job)
    then show ?thesis using assms by (auto simp: job_reserve_section_def reserve_other split_beta)
  next
    case (TServe r')
    then have "r' \<noteq> r" using assms by auto
    then show ?thesis using TServe
      by (auto simp: serve_section_def upd_recurso_other upd_recurso_tabla Let_def split: prod.split option.split Option.bind_split)
  next
    case (TConfirm c j ip)
    then show ?thesis
      by (auto simp: confirm_section_def upd_recurso_tabla Let_def split: prod.split option.split Option.bind_split)
  next
    case (TJob_next red j c reqs job)
    then show ?thesis
      by (auto simp: job_insert_section_def job_turn_tasks_def upd_recurso_tabla Let_def split: list.split Option.bind_split)
  next
    case (TRelease r' n)
    then show ?thesis using assms by (auto simp: upd_recurso_other Let_def)
  next
    case (TPurge_id r' j)
    then have "r' \<noteq> r" using assms by (auto split: if_splits)
    then show ?thesis using TPurge_id by (simp add: upd_recurso_other)
  next
    case (TPurge_conn r' j)
    then have "r' \<noteq> r" using assms by (auto split: if_splits)
    then show ?thesis using TPurge_conn by (simp add: upd_recurso_other)
  qed (use False in \<open>auto simp: upd_recurso_tabla neutral_def split: prod.split option.split Option.bind_split\<close>)
qed

section \<open>A thread alone\<close>

lemma lock_free: "locks_after (TLock l) h = Some h' \<Longrightarrow> l \<notin> set h"
  by (auto split: if_splits)

lemma alone_csteps:
  "alone ok ts s r \<Longrightarrow> r = Some s' \<Longrightarrow> stack_after ts h = Some [] \<Longrightarrow>
   (cstep ok)\<^sup>*\<^sup>* (s, (h, ts) # idle n) (s', ([], []) # idle n)"
proof (induction arbitrary: h rule: alone.induct)
  case (alone_Nil s)
  then show ?case by simp
next
  case (alone_fault t s ts)
  then show ?case by simp
next
  case (alone_step t s s1 us ts r)
  obtain h' where h': "locks_after t h = Some h'" "stack_after ts h' = Some []"
    using bind_SomeD [OF alone_step.prems(2) [unfolded stack_after.simps]] by blast
  have step: "cstep ok (s, (h, t # ts) # idle n) (s1, (h', us @ ts) # idle n)" if l: "is_lock t"
  proof -
    from l consider l where "t = TLock l" | l where "t = TUnlock l" by (auto simp: is_lock_def)
    then show ?thesis
    proof cases
      case (1 l)
      have "l \<notin> set h" by (rule lock_free [OF h'(1) [unfolded 1]])
      then have "\<forall>t\<in>set ((h, TLock l # ts) # idle n). l \<notin> set (fst t)" by (simp add: idle_def)
      from cstep.c_lock [OF _ _ this, of 0 h ts ok s] show ?thesis
        using 1 h'(1) alone_step.hyps(2) by (simp split: if_splits)
    next
      case (2 l)
      then have "h = l # h'" using h'(1) by (auto split: list.splits if_splits)
      then show ?thesis
        using cstep.c_unlock [of 0 "(h, TUnlock l # ts) # idle n" h l ts ok s] 2 alone_step.hyps(2) by simp
    qed
  qed
  show ?case
  proof (cases "is_lock t")
    case True
    then have us: "us = []" using alone_step.hyps(2) by (auto simp: is_lock_def)
    show ?thesis using step [OF True] alone_step.IH [OF alone_step.prems(1), of h'] us h'(2)
      by (simp add: converse_rtranclp_into_rtranclp)
  next
    case False
    have "cstep ok (s, (h, t # ts) # idle n) (s1, (h, us @ ts) # idle n)"
      using cstep.c_task [of 0 "(h, t # ts) # idle n" h t ts ok s s1 us] False alone_step.hyps(1,2) by simp
    moreover have "stack_after (us @ ts) h = Some []"
      using exec_stack [OF h'(1) alone_step.hyps(2) False] h'(2) by simp
    ultimately show ?thesis using alone_step.IH [OF alone_step.prems(1)]
      by (meson converse_rtranclp_into_rtranclp)
  qed
qed

lemma agent_step_csteps:
  assumes "agent_step ok s s'" "unmarked ok"
  shows "(cstep ok)\<^sup>*\<^sup>* (s, idle (Suc n)) (s', idle (Suc n))"
proof -
  have idle: "idle (Suc n) = ([], []) # idle n" by (simp add: idle_def)
  from assms(1) show ?thesis
  proof cases
    case (step_event red ev)
    have "cstep ok (s, idle (Suc n)) (s, ([], [TEvent red ev]) # idle n)"
      using cstep.c_event [of 0 "idle (Suc n)" "[]" red ev s ok] step_event(1,2) by (simp add: idle)
    moreover have "(cstep ok)\<^sup>*\<^sup>* (s, ([], [TEvent red ev]) # idle n) (s', idle (Suc n))"
      unfolding idle by (rule alone_csteps [OF alone_event [OF step_event(3) assms(2)] step_event(4)]) simp
    ultimately show ?thesis by (meson converse_rtranclp_into_rtranclp)
  next
    case (step_broadcast now)
    then show ?thesis using cstep.c_broadcast by blast
  qed
qed

lemma agent_run_csteps: "(agent_step ok)\<^sup>*\<^sup>* s s' \<Longrightarrow> unmarked ok \<Longrightarrow> (cstep ok)\<^sup>*\<^sup>* (s, idle (Suc n)) (s', idle (Suc n))"
proof (induction rule: rtranclp_induct)
  case (step s' s'')
  then show ?case using agent_step_csteps by (meson rtranclp_trans)
qed simp

section \<open>Threads do not block each other\<close>

text \<open>A thread whose next task is to lock a mutex somebody holds has to wait; any other can go on.\<close>

definition waits :: "pool \<Rightarrow> nat \<Rightarrow> bool" where
  "waits ts i \<longleftrightarrow> (\<exists>h l us. ts ! i = (h, TLock l # us) \<and> (\<exists>t\<in>set ts. l \<in> set (fst t)))"

lemma holder_can_go:
  assumes "pool_ok ts" "t \<in> set ts" "l \<in> set (fst t)"
  shows "\<exists>i<length ts. snd (ts ! i) \<noteq> [] \<and> \<not> waits ts i"
proof -
  have "\<forall>t\<in>set ts. \<forall>l\<in>set (fst t). 5 - lock_rank l = n \<longrightarrow> (\<exists>i<length ts. snd (ts ! i) \<noteq> [] \<and> \<not> waits ts i)" for n
  proof (induction n rule: less_induct)
    case (less n)
    show ?case
    proof (intro ballI impI)
      fix t l
      assume t: "t \<in> set ts" "l \<in> set (fst t)" "5 - lock_rank l = n"
      obtain i where i: "i < length ts" "ts ! i = t" using t(1) by (auto simp: in_set_conv_nth)
      obtain h us where hu: "t = (h, us)" by fastforce
      have st: "stack_after us h = Some []" using pool_nth [OF assms(1) i(1)] i(2) hu by simp
      then have ne: "us \<noteq> []" using t(2) hu by auto
      show "\<exists>i<length ts. snd (ts ! i) \<noteq> [] \<and> \<not> waits ts i"
      proof (cases "waits ts i")
        case False
        then show ?thesis using i ne hu by auto
      next
        case True
        then obtain m us' u where m: "us = TLock m # us'" "u \<in> set ts" "m \<in> set (fst u)"
          using i(2) hu by (auto simp: waits_def)
        have "lock_rank l < lock_rank m" using st m(1) t(2) hu by (auto split: if_splits)
        moreover have "lock_rank m < 5" by (cases m) auto
        ultimately have "5 - lock_rank m < n" using t(3) by simp
        then show ?thesis using less m(2,3) by blast
      qed
    qed
  qed
  then show ?thesis using assms(2,3) by blast
qed

lemma some_can_go:
  assumes "pool_ok ts" "i < length ts" "snd (ts ! i) \<noteq> []"
  shows "\<exists>i<length ts. snd (ts ! i) \<noteq> [] \<and> \<not> waits ts i"
proof (cases "waits ts i")
  case True
  then show ?thesis using holder_can_go [OF assms(1)] by (auto simp: waits_def)
qed (use assms in blast)

end
