(* ===== verification/Thread_Bounds.thy ===== *)
theory Thread_Bounds
  imports Threads
begin

text \<open>
  Invariants of the data under every interleaving of the threads. The locale
  \<open>task_invariant\<close> has what it takes: a predicate of the shared state and one of the tasks,
  such that a task keeps the first and leads to tasks that satisfy the second. Its facts
  are for interleaved threads and for a thread alone, so that one proof for each task gives
  both. It is interpreted for the amounts of the resources and for their totals.
\<close>

section \<open>Invariants of tasks\<close>

locale task_invariant =
  fixes ok :: "event \<Rightarrow> agent \<Rightarrow> bool"
    and inv :: "agent \<Rightarrow> bool"
    and task_ok :: "task \<Rightarrow> bool"
  assumes exec_keeps: "inv s \<Longrightarrow> task_ok t \<Longrightarrow> permits ok t s \<Longrightarrow> exec t s = Some (s', us) \<Longrightarrow> inv s' \<and> list_all task_ok us"
    and event_task: "event_ok ev s \<Longrightarrow> task_ok (TEvent red ev)"
    and broadcast_keeps: "inv s \<Longrightarrow> inv (broadcast_step now s)"
begin

lemma alone_keeps: "alone ok ts s r \<Longrightarrow> r = Some s' \<Longrightarrow> inv s \<Longrightarrow> list_all task_ok ts \<Longrightarrow> inv s'"
proof (induction rule: alone.induct)
  case (alone_step t s s1 us ts r)
  then show ?case using exec_keeps [of s t s1 us] by simp
qed simp_all

lemma cstep_keeps:
  assumes "inv (fst c) \<and> (\<forall>t\<in>set (snd c). list_all task_ok (snd t))" "cstep ok c c'"
  shows "inv (fst c') \<and> (\<forall>t\<in>set (snd c'). list_all task_ok (snd t))"
proof -
  obtain s ts where c: "c = (s, ts)" by fastforce
  have inv: "inv s" and tasks: "\<And>t. t \<in> set ts \<Longrightarrow> list_all task_ok (snd t)" using assms(1) c by auto
  have upd: "\<forall>t\<in>set (ts[i := (h, us)]). list_all task_ok (snd t)" if "list_all task_ok us" for i h us
    using tasks that set_update_subset_insert [of ts i "(h, us)"] by auto
  have nth: "list_all task_ok us" if "i < length ts" "ts ! i = (h, us)" for i h us
    using tasks [OF nth_mem [OF that(1)]] that(2) by simp
  from assms(2) [unfolded c] show ?thesis
  proof cases
    case (c_lock i h l us)
    then show ?thesis using upd [of us i "l # h"] nth [of i h "TLock l # us"] inv by simp
  next
    case (c_unlock i h l us)
    then show ?thesis using upd [of us i "remove1 l h"] nth [of i h "TUnlock l # us"] inv by simp
  next
    case (c_task i h t us s' vs)
    note n = nth [OF c_task(2,3)]
    have "inv s' \<and> list_all task_ok vs" by (rule exec_keeps [OF inv _ c_task(5,6)]) (use n in simp)
    then show ?thesis using upd [of "vs @ us" i h] n c_task(1) by simp
  next
    case (c_event i h red ev)
    then show ?thesis using upd [of "[TEvent red ev]" i h] event_task [of ev s] inv by simp
  next
    case (c_broadcast now)
    then show ?thesis using broadcast_keeps [OF inv] tasks by simp
  qed
qed

lemma threads_keep:
  assumes "(cstep ok)\<^sup>*\<^sup>* (s, idle n) (s', ts)" "inv s"
  shows "inv s'" "\<forall>t\<in>set ts. list_all task_ok (snd t)"
proof -
  have "inv (fst c') \<and> (\<forall>t\<in>set (snd c'). list_all task_ok (snd t))"
    if "(cstep ok)\<^sup>*\<^sup>* c c'" "inv (fst c) \<and> (\<forall>t\<in>set (snd c). list_all task_ok (snd t))" for c c'
    using that by (induction rule: rtranclp_induct) (use cstep_keeps in blast)+
  from this [OF assms(1)] show "inv s'" "\<forall>t\<in>set ts. list_all task_ok (snd t)"
    using assms(2) by (auto simp: idle_def)
qed

end

section \<open>What a task leaves alone\<close>

lemma framed_same: "exec t s = framed F (exec t s) \<Longrightarrow> exec t s = Some (s', us) \<Longrightarrow> F s' = s'"
  by simp

lemma neutral_same:
  assumes "neutral t" "exec t s = Some (s', us)"
  shows "tabla s' = tabla s" "recursos s' = recursos s"
proof -
  have "exec t s = framed (tabla_update (\<lambda>_. tabla s)) (exec t s)"
    using tabla_frame.exec_neutral [OF assms(1), of "tabla s" s] by simp
  from framed_same [OF this assms(2)] have "tabla (s'\<lparr>tabla := tabla s\<rparr>) = tabla s'" by simp
  then show "tabla s' = tabla s" by simp
  have "recursos s' r = recursos s r" for r
  proof -
    have e: "upd_recurso r (\<lambda>_. recursos s r) s = s" by (simp add: upd_recurso_def)
    have "exec t s = framed (upd_recurso r (\<lambda>_. recursos s r)) (exec t s)"
      using recurso_frame.exec_neutral [OF assms(1), of r "recursos s r" s] unfolding e .
    from framed_same [OF this assms(2)] have "recursos (upd_recurso r (\<lambda>_. recursos s r) s') r = recursos s' r" by simp
    then show ?thesis by simp
  qed
  then show "recursos s' = recursos s" by blast
qed

section \<open>What the two sections with several branches do\<close>

lemma serve_section_cases:
  assumes "serve_section r s = Some (s', us)"
  obtains (stop) "s' = s" "us = []"
  | (grant) p resto t where "items (cola (recursos s r)) = p # items resto" "q_amount resto = s32 (q_amount (cola (recursos s r)) - pr_amount p)"
      "pr_amount p \<le> available_amount (recursos s r)"
      "tabla_jobs_cambio_alloc (tabla s) (pr_job_id p) (owner_conn p) r = Some t"
      "s' = (upd_recurso r (\<lambda>x. x\<lparr>cola := resto, available_amount := s32 (available_amount x - pr_amount p)\<rparr>) s)\<lparr>tabla := t\<rparr>"
      "us = [TServe r] \<or> (\<exists>c d x. us = [TSend c d x, TServe r])"
proof -
  obtain p resto where deq: "queue_dequeue (cola (recursos s r)) = (p, resto)" by fastforce
  show thesis
  proof (cases "\<exists>q. p = Some q \<and> pr_amount q \<le> available_amount (recursos s r)")
    case False
    then show thesis using assms deq stop by (auto simp: serve_section_def Let_def split: option.splits)
  next
    case True
    then obtain q where q: "p = Some q" "pr_amount q \<le> available_amount (recursos s r)" by blast
    have items: "items (cola (recursos s r)) = q # items resto" "q_amount resto = s32 (q_amount (cola (recursos s r)) - pr_amount q)"
      using deq q(1) by (auto simp: queue_dequeue_def split: list.splits)
    from assms deq q show thesis
      by (auto simp: serve_section_def Let_def bind_eq_Some_conv split: if_splits intro!: grant [OF items q(2)])
  qed
qed

lemma confirm_section_cases:
  assumes "confirm_section c j ip s = Some (s', us)"
  obtains i where "list_all (\<lambda>t. \<exists>c d x. t = TSend c d x) (butlast us)" "us \<noteq> []" "last us = TUnlock TablaLock" "job_idx j = Some i"
    "s' = s \<or> s' = s\<lparr>tabla := update_job (tabla s) i j (\<lambda>job. snd (job_confirmar job ip j))\<rparr>"
proof -
  obtain i where "job_idx j = Some i"
    using assms by (cases "job_idx j") (auto simp: confirm_section_def tabla_jobs_buscar_por_id_def)
  then show thesis using assms that
    by (auto simp: confirm_section_def split_beta bind_eq_Some_conv Let_def split: option.splits if_splits)
qed

lemma confirm_section_list_all:
  assumes "confirm_section c j ip s = Some (s', us)" "\<And>c d x. P (TSend c d x)" "P (TUnlock TablaLock)"
  shows "list_all P us"
  using assms(1)
proof (cases rule: confirm_section_cases)
  case (1 i)
  then have "list_all P (butlast us @ [last us])" using assms(2,3) by (auto simp: list_all_iff)
  then show ?thesis using 1(2) by simp
qed

section \<open>Tasks that carry numbers\<close>

text \<open>The tasks whose arguments come from a message, apart from the amount of a release.\<close>

definition carries :: "task \<Rightarrow> bool" where
  "carries t = (case t of TReserve _ _ _ _ \<Rightarrow> True | TGranted _ _ \<Rightarrow> True | TConfirm _ _ _ \<Rightarrow> True | TJob_begin _ _ _ \<Rightarrow> True
     | TJob_next _ _ _ _ _ \<Rightarrow> True | TJob_reserve _ _ _ _ _ _ \<Rightarrow> True | TJob_port _ _ _ _ _ _ \<Rightarrow> True
     | TJob_connect _ _ _ _ _ _ _ \<Rightarrow> True | _ \<Rightarrow> False)"

definition no_carry :: "task list \<Rightarrow> bool" where
  "no_carry ts \<longleftrightarrow> list_all (\<lambda>t. \<not> carries t) ts"

lemma no_carry_simps [simp]: "no_carry []" "no_carry (t # ts) = (\<not> carries t \<and> no_carry ts)" "no_carry (ts @ us) = (no_carry ts \<and> no_carry us)"
  by (simp_all add: no_carry_def)

lemma no_carry_tasks [simp]:
  "no_carry (limpiar_colas_por_id_tasks j)" "no_carry (limpiar_colas_por_conn_tasks c)" "no_carry (release_resource_tasks b r n)"
  "no_carry (tabla_jobs_remove_tasks j b b')" "no_carry (close_tasks c)"
  by (simp_all add: limpiar_colas_por_id_tasks_def limpiar_colas_por_conn_tasks_def with_recurso_def
      release_resource_tasks_def tabla_jobs_remove_tasks_def close_tasks_def process_disconnect_tasks_def carries_def)

lemma no_carry_allocs [simp]: "no_carry (release_allocs_tasks b j as)" "no_carry (job_release_tasks as)"
  by (induction as) (simp_all add: carries_def)

lemma no_carry_loops [simp]: "no_carry (release_jobs_tasks js)" "no_carry (ready_tasks c reqs)"
  by (induction js, simp_all, induction reqs, simp_all add: carries_def)

lemma no_carry_abort [simp]: "no_carry (abort_tasks j c job)"
  by (simp add: abort_tasks_def carries_def)

text \<open>Apart from these, only the tasks of a message and of its answers lead to tasks that carry numbers.\<close>

lemma exec_no_carry:
  assumes "exec t s = Some (s', us)" "\<not> carries t" "\<And>red c msg. t \<noteq> TMessage red c msg"
  shows "no_carry us"
proof (cases t)
  case (TServe r)
  then have "serve_section r s = Some (s', us)" using assms(1) by simp
  then show ?thesis by (cases rule: serve_section_cases) (auto simp: carries_def)
next
  case (TReadable red ev b)
  then show ?thesis using assms(1)
    by (cases "heap s (ev_conn ev)"; cases "ctype (the (heap s (ev_conn ev)))")
      (auto simp: readable_section_def carries_def no_carry_def list_all_iff)
next
  case (TRead red ev b)
  then show ?thesis using assms(1)
    by (cases "ev_read ev") (auto simp: read_section_def bind_eq_Some_conv Let_def carries_def split: if_splits)
next
  case (TWritable ev b)
  then show ?thesis using assms(1)
    by (auto simp: writable_section_def bind_eq_Some_conv Let_def carries_def split: if_splits option.splits)
next
  case (TEvent red ev)
  then show ?thesis using assms(1) by (auto simp: event_section_def bind_eq_Some_conv Let_def carries_def split: if_splits)
next
  case (TRearm c)
  then show ?thesis using assms(1) by (cases "heap s c") (auto simp: split_beta simp del: prod.collapse)
next
  case (TExtract_conn c)
  then show ?thesis using assms(1) by (auto simp: carries_def split: prod.splits)
qed (use assms in \<open>auto simp: carries_def bind_eq_Some_conv Let_def split: option.splits if_splits list.splits\<close>)

section \<open>Amounts\<close>

text \<open>The amounts a task carries are in range.\<close>

definition task_amounts :: "task \<Rightarrow> bool" where
  "task_amounts t = (case t of
      TReserve _ n _ _ \<Rightarrow> 0 \<le> n
    | TRelease _ n \<Rightarrow> n \<le> MAX_AMOUNT
    | TJob_begin _ _ m \<Rightarrow> list_all request_ok (request_list m)
    | TJob_next _ _ _ reqs job \<Rightarrow> list_all request_ok reqs \<and> job_books job
    | TJob_reserve _ _ _ q reqs job \<Rightarrow> list_all request_ok (q # reqs) \<and> job_books job
    | TJob_port _ _ _ q reqs job \<Rightarrow> list_all request_ok (q # reqs) \<and> job_books job
    | TJob_connect _ _ _ q reqs job _ \<Rightarrow> list_all request_ok (q # reqs) \<and> job_books job
    | TMessage _ _ msg \<Rightarrow> amounts_ok msg
    | TLines _ _ buf \<Rightarrow> list_all amounts_ok (fst (lines_of buf))
    | _ \<Rightarrow> True)"

lemma amounts_tasks [simp]:
  "list_all task_amounts (limpiar_colas_por_id_tasks j)" "list_all task_amounts (limpiar_colas_por_conn_tasks c)"
  "list_all task_amounts (release_resource_tasks b r n) = (n \<le> MAX_AMOUNT)"
  "list_all task_amounts (tabla_jobs_remove_tasks j b b')" "list_all task_amounts (close_tasks c)"
  by (simp_all add: limpiar_colas_por_id_tasks_def limpiar_colas_por_conn_tasks_def with_recurso_def
      release_resource_tasks_def tabla_jobs_remove_tasks_def close_tasks_def process_disconnect_tasks_def task_amounts_def)

lemma amounts_allocs [simp]:
  "list_all alloc_ok as \<Longrightarrow> list_all task_amounts (release_allocs_tasks b j as)"
  "list_all alloc_ok as \<Longrightarrow> list_all task_amounts (job_release_tasks as)"
  by (induction as) (simp_all add: alloc_ok_def task_amounts_def)

lemma amounts_jobs [simp]:
  "\<forall>job\<in>set js. list_all alloc_ok (confirmadas job) \<Longrightarrow> list_all task_amounts (release_jobs_tasks js)"
  "list_all task_amounts (ready_tasks c reqs)"
  by (induction js, auto, induction reqs, auto simp: task_amounts_def)

lemma amounts_abort [simp]: "job_books job \<Longrightarrow> list_all task_amounts (abort_tasks j c job)"
  by (simp add: abort_tasks_def job_books_def task_amounts_def)

lemma amounts_message: "amounts_ok msg \<Longrightarrow> message_tasks red c msg = Some ts \<Longrightarrow> list_all task_amounts ts"
  using parse_job_request_list [of msg]
  by (auto simp: message_tasks_def amounts_ok_def parsed_ok_def task_amounts_def map_option_case list_all_iff [of request_ok]
      split: if_splits parsed.splits option.splits)

lemma exec_amounts:
  assumes "books_ok s" "task_amounts t" "permits amounts_event_ok t s" "exec t s = Some (s', us)"
  shows "list_all task_amounts us"
proof (cases t)
  case (TServe r)
  then have "serve_section r s = Some (s', us)" using assms(4) by simp
  then show ?thesis by (cases rule: serve_section_cases) (auto simp: task_amounts_def)
next
  case (TConfirm c j ip)
  then have "confirm_section c j ip s = Some (s', us)" using assms(4) by simp
  then show ?thesis by (rule confirm_section_list_all) (simp_all add: task_amounts_def)
next
  case (TReserve r n j c)
  then show ?thesis using assms(4) by (auto simp: task_amounts_def split: prod.splits result_t.splits)
next
  case (TJob_reserve red j c q reqs job)
  then obtain res s1 where r: "reserve_resource (rq_type q) (rq_amount q) j c ORIGIN_LOCAL s = (res, s1)" by fastforce
  have "0 \<le> rq_amount q" using TJob_reserve assms(2) by (simp add: task_amounts_def request_ok_def)
  from reserve_resource_books [OF assms(1) this r] show ?thesis
    using TJob_reserve assms(2,4) r
    by (auto simp: task_amounts_def job_reserve_section_def job_books_def alloc_ok_def crear_allocation_def split: if_splits)
next
  case (TMessage red c msg)
  then show ?thesis using assms amounts_message by (auto simp: task_amounts_def split: if_splits)
next
  case (TJob_next red j c reqs job)
  then show ?thesis using assms
    by (auto simp: task_amounts_def job_insert_section_def job_turn_tasks_def ask_remote_tasks_def job_books_def bind_eq_Some_conv
        Let_def split: list.splits option.splits if_splits)
next
  case (TReadable red ev b)
  then show ?thesis using assms
    by (cases "heap s (ev_conn ev)"; cases "ctype (the (heap s (ev_conn ev)))")
      (auto simp: readable_section_def task_amounts_def list_all_iff)
next
  case (TRead red ev b)
  then show ?thesis using assms
    by (cases "ev_read ev")
      (auto simp: read_section_def task_amounts_def permits_def amounts_event_ok_def read_amounts_ok_def bind_eq_Some_conv
        Let_def split: if_splits)
next
  case (TWritable ev b)
  then show ?thesis using assms
    by (auto simp: writable_section_def task_amounts_def bind_eq_Some_conv Let_def split: if_splits option.splits)
next
  case (TEvent red ev)
  then show ?thesis using assms
    by (auto simp: event_section_def task_amounts_def bind_eq_Some_conv Let_def split: if_splits)
next
  case (TRearm c)
  then show ?thesis using assms by (cases "heap s c") (auto simp: task_amounts_def split_beta simp del: prod.collapse)
next
  case (TExtract_conn c)
  then show ?thesis using assms extract_conn_books [OF assms(1)] by (auto simp: task_amounts_def split: prod.splits)
next
  case (TRemove j b b')
  then show ?thesis using assms extract_books [OF assms(1)]
    by (auto simp: task_amounts_def bind_eq_Some_conv split: option.splits)
next
  case (TJob_release j)
  then show ?thesis using assms extract_books [OF assms(1)]
    by (auto simp: task_amounts_def bind_eq_Some_conv split: option.splits)
next
  case (TJob_connect red j c q reqs job port)
  then show ?thesis using assms
    by (auto simp: job_connect_section_def task_amounts_def job_books_def split: prod.splits option.splits)
qed (use assms in \<open>auto simp: task_amounts_def job_books_def lines_of_Some bind_eq_Some_conv Let_def
    split: option.splits if_splits list.splits\<close>)

lemma exec_books:
  assumes "books_ok s" "task_amounts t" "exec t s = Some (s', us)"
  shows "books_ok s'"
proof (cases "neutral t")
  case True
  from books_ok_same [OF neutral_same(2,1) [OF True assms(3)]] show ?thesis using assms(1) by simp
next
  case False
  show ?thesis
  proof (cases t)
    case (TServe r)
    then have "serve_section r s = Some (s', us)" using assms(3) by simp
    then show ?thesis
    proof (cases rule: serve_section_cases)
      case (grant p resto t')
      note rec = books_okD(1) [OF assms(1), of r]
      have "recurso_ok ((recursos s r)\<lparr>cola := resto, available_amount := s32 (available_amount (recursos s r) - pr_amount p)\<rparr>)"
        using take_amount [OF rec _ grant(3)] rec grant(1) by (simp add: recurso_ok_def)
      then have "books_ok (upd_recurso r (\<lambda>x. x\<lparr>cola := resto, available_amount := s32 (available_amount x - pr_amount p)\<rparr>) s)"
        by (rule upd_recurso_books [OF assms(1)])
      from cambio_alloc_books [OF this] show ?thesis using grant(4,5) by simp
    qed (use assms(1) in simp)
  next
    case (TConfirm c j ip)
    then have "confirm_section c j ip s = Some (s', us)" using assms(3) by simp
    then show ?thesis by (cases rule: confirm_section_cases) (use assms(1) confirm_books in auto)
  next
    case (TReserve r n j c)
    then show ?thesis using assms reserve_resource_books [OF assms(1)] by (auto simp: task_amounts_def split: prod.splits)
  next
    case (TJob_reserve red j c q reqs job)
    then have "0 \<le> rq_amount q" using assms(2) by (simp add: task_amounts_def request_ok_def)
    then show ?thesis using TJob_reserve assms(3) reserve_resource_books [OF assms(1)]
      by (auto simp: job_reserve_section_def split: prod.splits)
  next
    case (TRelease r n)
    then show ?thesis using assms give_amount [OF books_okD(1) [OF assms(1)]]
      by (auto simp: task_amounts_def Let_def intro!: upd_recurso_books split: if_splits)
  next
    case (TPurge_id r j)
    have "recurso_ok ((recursos s r)\<lparr>cola := queue_delete_by_job_id (cola (recursos s r)) j\<rparr>)"
      using books_okD(1) [OF assms(1), of r] by (auto simp: recurso_ok_def)
    with TPurge_id assms(3) show ?thesis using upd_recurso_books [OF assms(1)] by auto
  next
    case (TPurge_conn r c)
    have "recurso_ok ((recursos s r)\<lparr>cola := queue_delete_by_conn (cola (recursos s r)) c\<rparr>)"
      using books_okD(1) [OF assms(1), of r] by (auto simp: recurso_ok_def)
    with TPurge_conn assms(3) show ?thesis using upd_recurso_books [OF assms(1)] by auto
  next
    case (TJob_next red j c reqs job)
    then show ?thesis using assms insert_books [OF assms(1)]
      by (auto simp: task_amounts_def job_insert_section_def job_books_def bind_eq_Some_conv Let_def split: list.splits)
  next
    case (TExtract_conn c)
    then show ?thesis using assms(3) extract_conn_books [OF assms(1)] by (auto split: prod.splits)
  next
    case (TRemove j b b')
    then show ?thesis using assms(3) extract_books [OF assms(1)] by (auto simp: bind_eq_Some_conv)
  next
    case (TJob_release j)
    then show ?thesis using assms(3) extract_books [OF assms(1)] by (auto simp: bind_eq_Some_conv)
  qed (use assms False in \<open>auto simp: neutral_def bind_eq_Some_conv\<close>)
qed

interpretation books: task_invariant amounts_event_ok books_ok task_amounts
proof unfold_locales
  show "books_ok s' \<and> list_all task_amounts us"
    if "books_ok s" "task_amounts t" "permits amounts_event_ok t s" "exec t s = Some (s', us)" for s t s' us
    using exec_books [OF that(1,2,4)] exec_amounts [OF that] by blast
  show "task_amounts (TEvent red ev)" for red ev by (simp add: task_amounts_def)
  show "books_ok (broadcast_step now s)" if "books_ok s" for now s using that by (simp add: broadcast_step_def books_ok_def)
qed

lemma process_message_books:
  "books_ok s \<Longrightarrow> amounts_ok msg \<Longrightarrow> process_message red c msg s = Some s' \<Longrightarrow> books_ok s'"
  using books.alone_keeps [OF alone_message] by (simp add: task_amounts_def)

text \<open>No task changes a total.\<close>

lemma exec_totals:
  assumes "exec t s = Some (s', us)"
  shows "total_amount (recursos s' r) = total_amount (recursos s r)"
proof (cases "neutral t")
  case True
  then show ?thesis using neutral_same(2) [OF True assms] by simp
next
  case False
  have res: "total_amount (recursos s1 r) = total_amount (recursos s r)" if "reserve_resource r' n j c orig s = (x, s1)" for r' n j c orig x s1
    using that by (auto simp: reserve_resource_def Let_def split: if_splits prod.splits)
  show ?thesis
  proof (cases t)
    case (TServe r')
    then have "serve_section r' s = Some (s', us)" using assms by simp
    then show ?thesis by (cases rule: serve_section_cases) auto
  next
    case (TConfirm c j ip)
    then have "confirm_section c j ip s = Some (s', us)" using assms by simp
    then show ?thesis by (cases rule: confirm_section_cases) auto
  qed (use assms False res in \<open>auto simp: neutral_def bind_eq_Some_conv Let_def job_reserve_section_def job_insert_section_def
      split: prod.splits list.splits if_splits\<close>)
qed

interpretation totals: task_invariant ok "\<lambda>s. \<forall>r. total_amount (recursos s r) = tot r" "\<lambda>_. True" for ok tot
proof unfold_locales
  show "(\<forall>r. total_amount (recursos s' r) = tot r) \<and> list_all (\<lambda>_. True) us"
    if "\<forall>r. total_amount (recursos s r) = tot r" "exec t s = Some (s', us)" for s t s' us
    using exec_totals [OF that(2)] that(1) by (simp add: list_all_iff)
qed (simp_all add: broadcast_step_def)

end
