(* ===== verification/Example_Run.thy ===== *)
theory Example_Run
  imports Thread_Bounds
begin

text \<open>
  Runs of a small agent that the concrete instances of the theorems use: it starts at
  10.0.0.1 with 4 CPUs, 8 units of memory and 1 GPU, another agent (connection 4) and the
  planner (connection 5) connect, and lines arrive on these connections. The states such
  runs reach satisfy the invariants, so that an instance need only evaluate the run.
\<close>

definition example_los :: los where
  "example_los h ty = (let c = (if ty = CONN_TCP_PUBLIC_LISTEN then 1 else if ty = CONN_TCP_LOCAL_LISTEN then 2 else 3) in
     case h c of None \<Rightarrow> Some (c, int c) | Some _ \<Rightarrow> None)"

definition example_accept :: "conn_ptr \<Rightarrow> accepted" where
  "example_accept c = \<lparr>client_fd = int c, malloc_conn = (\<lambda>h. case h c of None \<Rightarrow> Some c | Some _ \<Rightarrow> None), epoll_add = True\<rparr>"

definition example_red :: red where
  "example_red h ip port = (case h 6 of None \<Rightarrow> Connected 6 6 | Some _ \<Rightarrow> ConnectError)"

definition example_args :: "string list" where
  "example_args = [''agente'', ''10.0.0.1'', ''9000'', ''4'', ''8'', ''1'']"

definition example_boot :: agent where
  "example_boot = (case main_agent example_args (Some (\<lambda>_. True)) example_los of
      Started s \<Rightarrow> s | ExitFailure \<Rightarrow> agent_start (\<lambda>_. True))"

definition example_start :: agent where
  "example_start = handle_accept CONN_TCP_CLIENT_LOCAL [example_accept 5]
     (handle_accept CONN_TCP_CLIENT_REMOTE [example_accept 4] example_boot)"

fun example_run :: "(conn_ptr \<times> string) list \<Rightarrow> agent \<Rightarrow> agent option" where
  "example_run [] s = Some s"
| "example_run ((c, line) # ls) s = process_message example_red c line s \<bind> example_run ls"

definition example_line :: "conn_ptr \<times> string \<Rightarrow> bool" where
  "example_line l \<longleftrightarrow> (fst l = 4 \<or> fst l = 5) \<and> message_ok (snd l) \<and> amounts_ok (snd l)"

lemma example_fresh: "los_fresh example_los" "malloc_fresh example_red" "malloc_conn_ok (example_accept c)"
  by (auto simp: los_fresh_def malloc_fresh_def malloc_conn_ok_def example_los_def example_red_def example_accept_def
      Let_def split: option.splits if_splits)

lemma example_main: "main_agent example_args (Some (\<lambda>_. True)) example_los = Started example_boot
   \<and> ctype (the (heap example_start 4)) = CONN_TCP_CLIENT_REMOTE \<and> ctype (the (heap example_start 5)) = CONN_TCP_CLIENT_LOCAL
   \<and> heap example_start 4 \<noteq> None \<and> heap example_start 5 \<noteq> None"
proof -
  have cfg: "config_of_args example_args = Some \<lparr>cfg_ip = ''10.0.0.1'', cfg_port = 9000, cfg_cpu = 4, cfg_mem = 8, cfg_gpu = 1\<rparr>"
    by code_simp
  show ?thesis
    unfolding main_agent_def cfg
    by (simp add: Let_def init_server_sockets_def example_los_def manager_set_ip_def manager_init_def
        agent_start_def example_start_def example_boot_def main_agent_def cfg manager_set_epoll_def example_accept_def new_connection_def)
qed

lemma example_boot_ok: "agent_ok example_boot" "books_ok example_boot"
proof -
  have boot: "main_agent example_args (Some (\<lambda>_. True)) example_los = Started example_boot" using example_main by blast
  show "agent_ok example_boot" by (rule main_agent_ok [OF boot example_fresh(1)])
  have "config_of_args example_args = Some \<lparr>cfg_ip = ''10.0.0.1'', cfg_port = 9000, cfg_cpu = 4, cfg_mem = 8, cfg_gpu = 1\<rparr>"
    by code_simp
  then show "books_ok example_boot" by (rule main_agent_books [OF boot]) (simp add: config_ok_def)
qed

lemma example_start_ok: "agent_ok example_start" "books_ok example_start"
proof -
  show "agent_ok example_start"
    unfolding example_start_def by (intro conjunct1 [OF handle_accept_safe] example_boot_ok(1)) (simp_all add: example_fresh(3))
  show "books_ok example_start"
    using example_boot_ok(2) unfolding example_start_def
    by (simp add: books_ok_def handle_accept_frame del: handle_accept.simps)
qed

lemma example_run_safe:
  "agent_ok s \<Longrightarrow> books_ok s \<Longrightarrow> {4, 5} \<subseteq> dom (heap s) \<Longrightarrow> \<not> connecting s 4 \<Longrightarrow> \<not> connecting s 5 \<Longrightarrow>
   list_all example_line ls \<Longrightarrow> \<exists>s'. example_run ls s = Some s' \<and> agent_ok s' \<and> books_ok s' \<and> {4, 5} \<subseteq> dom (heap s')"
proof (induction ls arbitrary: s)
  case (Cons l ls)
  obtain c line where l: "l = (c, line)" by fastforce
  have c: "c \<in> dom (heap s)" "\<not> connecting s c" "message_ok line" "amounts_ok line"
    using Cons.prems l by (auto simp: example_line_def)
  obtain s1 where s1: "process_message example_red c line s = Some s1" "agent_ok s1" "keeps_conns s s1"
    using process_message_safe [OF Cons.prems(1) c(1,2) example_fresh(2) c(3)] by (auto simp: safe_def)
  have "{4, 5} \<subseteq> dom (heap s1)" using Cons.prems(3) keeps_dom [OF s1(3)] by blast
  moreover have "\<not> connecting s1 4" "\<not> connecting s1 5"
    using keeps_not_connecting [OF s1(3)] Cons.prems(3-5) by auto
  moreover have "books_ok s1" using process_message_books [OF Cons.prems(2) c(4) s1(1)] .
  ultimately show ?case using Cons.IH [OF s1(2)] Cons.prems(6) s1(1) l by simp
qed simp

lemma example_run_ok:
  assumes "list_all example_line ls"
  shows "\<exists>s. example_run ls example_start = Some s \<and> agent_ok s \<and> books_ok s \<and> {4, 5} \<subseteq> dom (heap s)"
proof -
  have "heap example_start 4 \<noteq> None" "heap example_start 5 \<noteq> None"
    "\<not> connecting example_start 4" "\<not> connecting example_start 5"
    using example_main by (auto simp: connecting_def simp del: handle_accept.simps)
  then show ?thesis by (intro example_run_safe [OF example_start_ok _ _ _ assms]) auto
qed

lemma example_state:
  assumes "list_all example_line ls" "map_option f (example_run ls example_start) = Some v"
  shows "\<exists>s. example_run ls example_start = Some s \<and> agent_ok s \<and> books_ok s \<and> 4 \<in> dom (heap s) \<and> 5 \<in> dom (heap s) \<and> f s = v"
  using example_run_ok [OF assms(1)] assms(2) by auto

text \<open>
  A job that needs another node: 10.0.0.2 announces itself, the planner asks for 2 of its
  CPUs, the agent connects to it (connection 6) and the connection is established.
\<close>

definition example_remote :: "agent option" where
  "example_remote = do {
     s \<leftarrow> example_run [(5, ''JOB_REQUEST 7 @10.0.0.2:cpu:2'')]
       (process_announce 0 ''10.0.0.2'' ''ANNOUNCE 9001 cpu:4 mem:8 gpu:0'' example_start);
     map_option snd (handle_outgoing_connection_event True 6 s)
   }"

lemma example_remote_ok: "\<exists>s. example_remote = Some s \<and> agent_ok s \<and> 6 \<in> dom (heap s)"
proof -
  let ?s = "process_announce 0 ''10.0.0.2'' ''ANNOUNCE 9001 cpu:4 mem:8 gpu:0'' example_start"
  let ?ls = "[(5, ''JOB_REQUEST 7 @10.0.0.2:cpu:2'')]"
  have same: "heap ?s = heap example_start" "recursos ?s = recursos example_start" "tabla ?s = tabla example_start"
    by (simp_all add: process_announce_def split: parsed.split)
  have ok: "agent_ok ?s" "books_ok ?s"
    using process_announce_ok [OF example_start_ok(1)] example_start_ok(2) same by (auto simp: plain_def books_ok_def)
  have ls: "list_all example_line ?ls" by code_simp
  have conns: "{4, 5} \<subseteq> dom (heap ?s)" "\<not> connecting ?s 4" "\<not> connecting ?s 5"
    using example_main same by (auto simp: connecting_def simp del: handle_accept.simps)
  obtain s1 where s1: "example_run ?ls ?s = Some s1" "agent_ok s1" using example_run_safe [OF ok conns ls] by blast
  have "map_option (\<lambda>s. map_option ctype (heap s 6)) (example_run ?ls ?s) = Some (Some CONN_TCP_OUTGOING)" by code_simp
  then have "connecting s1 6" using s1(1) by (auto simp: connecting_def)
  from handle_outgoing_safe [OF s1(2) this, of True] obtain closed s2 where
    s2: "handle_outgoing_connection_event True 6 s1 = Some (closed, s2)" "agent_ok s2"
      "\<not> closed \<longrightarrow> (\<exists>k. heap s2 6 = Some k)" unfolding handled_def by (auto split: if_splits)
  from s2(1) have "\<not> closed" by (auto simp: handle_outgoing_connection_event_def bind_eq_Some_conv)
  with s1(1) s2 show ?thesis by (auto simp: example_remote_def)
qed

lemma example_remote_state:
  assumes "map_option f example_remote = Some v"
  shows "\<exists>s. example_remote = Some s \<and> agent_ok s \<and> 6 \<in> dom (heap s) \<and> f s = v"
  using example_remote_ok assms by (metis option.map_sel option.sel option.simps(3))

text \<open>Two events: another agent connects to the public listener, and a line of it arrives.\<close>

definition example_event :: "conn_ptr \<Rightarrow> string \<Rightarrow> event" where
  "example_event c bs = \<lparr>ev_conn = c, ev_err = False, ev_in = True, ev_out = False, ev_read = Read bs,
     ev_write = (\<lambda>_. WriteError True), ev_connected = True, ev_accepts = [example_accept 4], ev_datagrams = [], ev_now = 0\<rparr>"

definition example_bytes :: string where
  "example_bytes = ''RESERVE 1 cpu 3'' @ [NL]"

lemma example_event_ok:
  assumes "heap s c = Some k" "ctype k \<noteq> CONN_TCP_OUTGOING" "read_buf k = []" "bs = [] \<or> bs = example_bytes"
  shows "event_ok (example_event c bs) s" "amounts_event_ok (example_event c bs) s"
proof -
  have "length example_bytes = 16" "lines_of example_bytes = ([''RESERVE 1 cpu 3''], [])" "lines_of [] = ([], [])"
    "message_ok ''RESERVE 1 cpu 3''" "amounts_ok ''RESERVE 1 cpu 3''" by code_simp+
  then show "event_ok (example_event c bs) s" "amounts_event_ok (example_event c bs) s"
    using assms by (auto simp: event_ok_def amounts_event_ok_def read_result_ok_def read_amounts_ok_def example_event_def
        write_result_ok_def example_fresh(3))
qed

definition example_connected :: "agent option" where
  "example_connected = worker_event example_red (example_event 1 []) example_boot"

definition example_served :: "agent option" where
  "example_served = example_connected \<bind> worker_event example_red (example_event 4 example_bytes)"

lemma example_connected_reach:
  "\<exists>s k. example_connected = Some s \<and> (agent_step amounts_event_ok)\<^sup>*\<^sup>* example_boot s \<and> heap s 4 = Some k
     \<and> ctype k \<noteq> CONN_TCP_OUTGOING \<and> read_buf k = []"
proof -
  have "map_option (\<lambda>k. (ctype k, read_buf k)) (heap example_boot 1) = Some (CONN_TCP_PUBLIC_LISTEN, [])" by code_simp
  then obtain k where "heap example_boot 1 = Some k" "ctype k \<noteq> CONN_TCP_OUTGOING" "read_buf k = []" by auto
  note ok = example_event_ok [OF this, of "[]"]
  have "map_option (\<lambda>s. map_option (\<lambda>k. (ctype k, read_buf k)) (heap s 4)) example_connected
      = Some (Some (CONN_TCP_CLIENT_REMOTE, []))" by code_simp
  then obtain s k' where s: "example_connected = Some s" "heap s 4 = Some k'"
    "ctype k' \<noteq> CONN_TCP_OUTGOING" "read_buf k' = []" by auto
  have "agent_step amounts_event_ok example_boot s"
    using ok s(1) example_fresh(2) by (auto intro: step_event simp: example_connected_def)
  then show ?thesis using s by blast
qed

lemma example_served_reach: "\<exists>s. example_served = Some s \<and> (agent_step amounts_event_ok)\<^sup>*\<^sup>* example_boot s"
proof -
  obtain s k where s: "example_connected = Some s" "(agent_step amounts_event_ok)\<^sup>*\<^sup>* example_boot s"
    "heap s 4 = Some k" "ctype k \<noteq> CONN_TCP_OUTGOING" "read_buf k = []" using example_connected_reach by blast
  note ok = example_event_ok [OF s(3-5), of example_bytes]
  have "map_option (\<lambda>_. ()) example_served = Some ()" by code_simp
  then obtain s' where s': "example_served = Some s'" by auto
  then have "worker_event example_red (example_event 4 example_bytes) s = Some s'"
    unfolding example_served_def s(1) by simp
  then have "agent_step amounts_event_ok s s'" using ok example_fresh(2) by (auto intro: step_event)
  with s(2) have "(agent_step amounts_event_ok)\<^sup>*\<^sup>* example_boot s'" by (rule rtranclp.rtrancl_into_rtrancl)
  with s' show ?thesis by blast
qed

lemma example_served_state:
  assumes "map_option f example_served = Some v"
  shows "\<exists>s. example_served = Some s \<and> (agent_step amounts_event_ok)\<^sup>*\<^sup>* example_boot s \<and> f s = v"
  using example_served_reach assms by (metis option.map_sel option.sel option.simps(3))

lemma example_served_epoll: "example_served = Some s \<Longrightarrow> \<forall>f. g_epfd s f"
proof
  fix f
  assume s: "example_served = Some s"
  have "map_option (\<lambda>s. g_epfd s f) example_served = Some True" by code_simp
  then show "g_epfd s f" unfolding s by simp
qed

end
