(* ===== verification/Manager_Behaviour.thy ===== *)
theory Manager_Behaviour
  imports Example_Run
begin

text \<open>
  What the operations and handlers of the manager do, branch by branch: the abstract
  specification \<open>drain\<close> of a release and its refinement, the answers to the messages, and
  the situations in which resources are lost.
\<close>

section \<open>A release serves the queue in order\<close>

text \<open>
  The abstract specification: from the head of the queue, serve while there is enough.
  The results are the requests served, what is left of the resource, and of the queue.
\<close>

fun drain :: "int \<Rightarrow> PendingRequest list \<Rightarrow> PendingRequest list \<times> int \<times> PendingRequest list" where
  "drain a [] = ([], a, [])"
| "drain a (p # ps) = (if pr_amount p \<le> a
     then (case drain (a - pr_amount p) ps of (served, a', rest) \<Rightarrow> (p # served, a', rest))
     else ([], a, p # ps))"

definition remote_grants :: "PendingRequest list \<Rightarrow> (dest_t \<times> conn_ptr \<times> string) list" where
  "remote_grants ps = map (\<lambda>p. (DEST_AGENTE_REMOTO, owner_conn p, snprintf BUFF_SIZE (msg_granted \<lparr>gm_job_id = pr_job_id p\<rparr> @ [NL])))
     (filter (\<lambda>p. origen p = ORIGIN_REMOTE) ps)"

abbreviation sent_to_agents :: "(dest_t \<times> conn_ptr \<times> string) list \<Rightarrow> (dest_t \<times> conn_ptr \<times> string) list" where
  "sent_to_agents \<equiv> filter (\<lambda>m. fst m = DEST_AGENTE_REMOTO)"

lemma drain_append: "drain a ps = (served, a', rest) \<Longrightarrow> ps = served @ rest"
  by (induction a ps arbitrary: served a' rest rule: drain.induct) (auto split: if_splits prod.splits)

lemma drain_amount: "drain a ps = (served, a', rest) \<Longrightarrow> a' = a - pending_total served"
  by (induction a ps arbitrary: served a' rest rule: drain.induct) (auto split: if_splits prod.splits)

lemma drain_stops: "drain a ps = (served, a', rest) \<Longrightarrow> rest = [] \<or> a' < pr_amount (hd rest)"
  by (induction a ps arbitrary: served a' rest rule: drain.induct) (auto split: if_splits prod.splits)

lemma grant_pending_tx:
  assumes "grant_pending r p s = Some s'"
  shows "sent_to_agents (tx s') = sent_to_agents (tx s) @ remote_grants [p]"
  using assms
  by (auto simp: grant_pending_def Let_def bind_eq_Some_conv remote_grants_def dest!: send_message_frame(8)
      split: if_splits origin_t.splits)

lemma release_loop_drain:
  assumes "books_ok s" "release_loop r s = Some s'" "drain (available_amount (recursos s r)) (queue s r) = (served, a, rest)"
  shows "available_amount (recursos s' r) = a \<and> queue s' r = rest
    \<and> sent_to_agents (tx s') = sent_to_agents (tx s) @ remote_grants served"
proof -
  have "books_ok s \<longrightarrow> (\<forall>s' served a rest. release_loop r s = Some s'
      \<longrightarrow> drain (available_amount (recursos s r)) (queue s r) = (served, a, rest)
      \<longrightarrow> available_amount (recursos s' r) = a \<and> queue s' r = rest
        \<and> sent_to_agents (tx s') = sent_to_agents (tx s) @ remote_grants served)"
  proof (rule release_loop_rule, goal_cases)
    case (1 s)
    then show ?case by (cases "queue s r") (auto simp: remote_grants_def)
  next
    case (2 s p ps c res)
    show ?case
    proof (intro impI allI)
      fix s' served a rest
      assume ok: "books_ok s" and run: "res \<bind> release_loop r = Some s'"
        and d: "drain (available_amount (recursos s r)) (queue s r) = (served, a, rest)"
      let ?s = "upd_recurso r (\<lambda>x. x\<lparr>cola := c\<rparr>) s"
      have rec: "recurso_ok (recursos s r)" using ok by (simp add: books_ok_def)
      with 2(1,3) have ok1: "books_ok ?s" by (intro upd_recurso_books [OF ok]) (simp add: recurso_ok_def)
      obtain s1 where s1: "res = Some s1" "release_loop r s1 = Some s'" using bind_SomeD [OF run] by blast
      have g: "grant_pending r p ?s = Some s1" using s1(1) 2(4) by simp
      have ok2: "books_ok s1"
        by (rule grant_pending_books [OF ok1 _ _ g]) (use 2(1,2) rec in \<open>auto simp: recurso_ok_def\<close>)
      have "s32 (available_amount (recursos s r) - pr_amount p) = available_amount (recursos s r) - pr_amount p"
        using rec 2(1,2) by (intro s32_id) (auto simp: recurso_ok_def in_s32_def)
      then have q: "available_amount (recursos s1 r) = available_amount (recursos s r) - pr_amount p" "queue s1 r = ps"
        using grant_pending_recursos [OF g] 2(3) by simp_all
      obtain served' where d': "drain (available_amount (recursos s1 r)) (queue s1 r) = (served', a, rest)"
        and served: "served = p # served'" using d 2(1,2) q by (auto split: prod.splits)
      show "available_amount (recursos s' r) = a \<and> queue s' r = rest
          \<and> sent_to_agents (tx s') = sent_to_agents (tx s) @ remote_grants served"
        using 2(5) [OF s1(1)] ok2 s1(2) d' grant_pending_tx [OF g] by (simp add: served remote_grants_def)
    qed
  qed
  with assms show ?thesis by blast
qed

lemma grant_pending_others:
  assumes "release_loop r s = Some s'"
  shows "recursos s' = (recursos s)(r := recursos s' r)"
proof -
  have "\<forall>s'. release_loop r s = Some s' \<longrightarrow> recursos s' = (recursos s)(r := recursos s' r)"
  proof (rule release_loop_rule, simp, intro allI impI)
    fix s p ps c res s'
    assume res: "res = grant_pending r p (upd_recurso r (\<lambda>x. x\<lparr>cola := c\<rparr>) s)" and run: "res \<bind> release_loop r = Some s'"
      and IH: "\<And>s1. res = Some s1 \<Longrightarrow> \<forall>s'. release_loop r s1 = Some s' \<longrightarrow> recursos s' = (recursos s1)(r := recursos s' r)"
    obtain s1 where s1: "res = Some s1" "release_loop r s1 = Some s'" using bind_SomeD [OF run] by blast
    have "recursos s' = (recursos s1)(r := recursos s' r)" using IH [OF s1(1)] s1(2) by blast
    also have "\<dots> = (recursos s)(r := recursos s' r)" using grant_pending_recursos [of r p _ s1] s1(1) res by simp
    finally show "recursos s' = (recursos s)(r := recursos s' r)" .
  qed
  with assms show ?thesis by blast
qed

lemma release_resource_drain:
  assumes ok: "agent_ok s" "books_ok s" and n: "0 \<le> n" "available_amount (recursos s r) + n \<le> total_amount (recursos s r)"
    and d: "drain (available_amount (recursos s r) + n) (queue s r) = (served, a, rest)"
  shows "\<exists>s'. release_resource r n s = Some s' \<and> available_amount (recursos s' r) = a \<and> queue s' r = rest
    \<and> recursos s' = (recursos s)(r := recursos s' r)
    \<and> sent_to_agents (tx s') = sent_to_agents (tx s) @ remote_grants served"
proof -
  let ?s = "upd_recurso r (\<lambda>x. x\<lparr>available_amount := s32 (available_amount x + n)\<rparr>) s"
  have rec: "recurso_ok (recursos s r)" using ok(2) by (simp add: books_ok_def)
  then have e: "s32 (available_amount (recursos s r) + n) = available_amount (recursos s r) + n"
    using n by (intro s32_id) (auto simp: recurso_ok_def in_s32_def)
  have books: "books_ok ?s" using rec n e by (intro upd_recurso_books [OF ok(2)]) (auto simp: recurso_ok_def)
  have run: "release_resource r n s = release_loop r ?s" using n e by (simp add: release_resource_def Let_def)
  obtain s' where s': "release_loop r ?s = Some s'"
    using release_resource_runs [OF ok(1), of r n] run by (auto simp: runs_def)
  have "drain (available_amount (recursos ?s r)) (queue ?s r) = (served, a, rest)" using d e by simp
  from release_loop_drain [OF books s' this] grant_pending_others [OF s'] show ?thesis
    using s' run by auto
qed

text \<open>
  \<open>C3\<close>. A valid release refines \<open>drain\<close>: it returns, adds the amount, and serves the
  waiting requests strictly in order of arrival while the head fits. Exactly the requests
  \<open>drain\<close> serves leave the queue, what is left is what \<open>drain\<close> leaves, the agents that own
  served requests, and no other, are sent GRANTED, in that order, and the other two
  resources are untouched.
\<close>

theorem release_refines_drain:
  assumes "agent_ok s" "books_ok s" "0 \<le> n" "available_amount (recursos s r) + n \<le> total_amount (recursos s r)"
    and "drain (available_amount (recursos s r) + n) (queue s r) = (served, a, rest)"
  shows "\<exists>s'. release_resource r n s = Some s' \<and> available_amount (recursos s' r) = a \<and> queue s' r = rest
    \<and> recursos s' = (recursos s)(r := recursos s' r)
    \<and> sent_to_agents (tx s') = sent_to_agents (tx s) @ remote_grants served"
  using assms by (rule release_resource_drain)

text \<open>The other agent holds 3 of the 4 CPUs and waits for 2 and for 4 more; 3 are released.\<close>

theorem release_refines_drain_witness:
  "\<exists>s s'. example_run [(4, ''RESERVE 1 cpu 3''), (4, ''RESERVE 2 cpu 2''), (4, ''RESERVE 3 cpu 4'')] example_start = Some s
     \<and> release_resource RESOURCE_CPU 3 s = Some s' \<and> available_amount (recursos s' RESOURCE_CPU) = 2
     \<and> map pr_job_id (queue s' RESOURCE_CPU) = [3]
     \<and> sent_to_agents (tx s') = sent_to_agents (tx s) @ [(DEST_AGENTE_REMOTO, 4, ''GRANTED 2'' @ [NL])]"
proof -
  let ?ls = "[(4, ''RESERVE 1 cpu 3''), (4, ''RESERVE 2 cpu 2''), (4, ''RESERVE 3 cpu 4'')]"
  let ?p = "\<lambda>j n. \<lparr>pr_job_id = j, pr_amount = n, owner_conn = 4, origen = ORIGIN_REMOTE\<rparr>"
  have ls: "list_all example_line ?ls" by code_simp
  have run: "map_option (\<lambda>s. (available_amount (recursos s RESOURCE_CPU), total_amount (recursos s RESOURCE_CPU),
      queue s RESOURCE_CPU)) (example_run ?ls example_start) = Some (1, 4, [?p 2 2, ?p 3 4])" by code_simp
  obtain s where s: "example_run ?ls example_start = Some s" "agent_ok s" "books_ok s"
    "available_amount (recursos s RESOURCE_CPU) = 1" "total_amount (recursos s RESOURCE_CPU) = 4"
    "queue s RESOURCE_CPU = [?p 2 2, ?p 3 4]" using example_state [OF ls run] by auto
  have "remote_grants [?p 2 2] = [(DEST_AGENTE_REMOTO, 4, ''GRANTED 2'' @ [NL])]" by code_simp
  then show ?thesis
    using release_refines_drain [of s 3 RESOURCE_CPU "[?p 2 2]" 2 "[?p 3 4]"] s by auto
qed

lemma drain_prefix:
  assumes "pending_total ps \<le> a" "\<forall>p\<in>set ps. 0 \<le> pr_amount p" "drain a (ps @ qs) = (served, a', rest)"
  shows "\<exists>more. served = ps @ more \<and> rest = drop (length more) qs"
  using assms
proof (induction ps arbitrary: a served)
  case Nil
  then show ?case using drain_append [of a qs served a' rest] by auto
next
  case (Cons p ps)
  have "0 \<le> pending_total ps" using Cons.prems(2) by (auto simp: pending_total_def intro!: sum_list_nonneg)
  then have "pr_amount p \<le> a" using Cons.prems(1) by simp
  with Cons.prems(3) obtain served' where "drain (a - pr_amount p) (ps @ qs) = (served', a', rest)" "served = p # served'"
    by (auto split: prod.splits)
  with Cons.IH [of "a - pr_amount p" served'] Cons.prems(1,2) show ?case by auto
qed



section \<open>The answer to a RESERVE\<close>

lemma snprintf_short: "length m < n \<Longrightarrow> snprintf n m = m"
  by (simp add: snprintf_def)

lemma snprintf_msg_job:
  assumes "in_s32 j" "length w \<le> 20"
  shows "snprintf BUFF_SIZE (msg_job w j @ [NL]) = msg_job w j @ [NL]"
  using length_show_int [OF assms(1)] assms(2) by (intro snprintf_short) (simp add: msg_job_def)

lemma send_message_exact:
  assumes "conn \<in> dom (heap s)" "length m < BUFF_SIZE"
  shows "\<exists>s'. send_message conn d m s = Some s' \<and> recursos s' = recursos s \<and> tabla s' = tabla s \<and> conns s' = conns s
    \<and> dom (heap s') = dom (heap s) \<and> tx s' = tx s @ [(d, conn, m)]"
  using send_message_live [OF assms(1), of d m] send_message_frame snprintf_short [OF assms(2)] by metis

lemma reserve_line:
  assumes "heap s conn \<noteq> None" "in_s32 j" "in_s32 n"
  shows "\<exists>s'. process_message red conn (msg_reserve \<lparr>rm_job_id = j, rm_type = r, rm_amount = n\<rparr>) s = Some s'
    \<and> dom (heap s') = dom (heap s) \<and> tabla s' = tabla s \<and>
    (if n \<le> available_amount (recursos s r) then
       tx s' = tx s @ [(DEST_AGENTE_REMOTO, conn, msg_granted \<lparr>gm_job_id = j\<rparr> @ [NL])]
       \<and> recursos s' = (recursos s)(r := (recursos s r)\<lparr>available_amount := s32 (available_amount (recursos s r) - n)\<rparr>)
     else if total_amount (recursos s r) < n then
       tx s' = tx s @ [(DEST_AGENTE_REMOTO, conn, msg_denied \<lparr>gm_job_id = j\<rparr> @ [NL])] \<and> recursos s' = recursos s
     else tx s' = tx s \<and> available_amount (recursos s' r) = available_amount (recursos s r)
       \<and> queue s' r = queue s r @ [\<lparr>pr_job_id = j, pr_amount = n, owner_conn = conn, origen = ORIGIN_REMOTE\<rparr>])"
proof -
  let ?m = "\<lparr>rm_job_id = j, rm_type = r, rm_amount = n\<rparr>"
  have parse: "parse_reserve (msg_reserve ?m) = Valido ?m" using assms by (intro reserve_codec.parse_render) simp
  have "strncmp_eq (msg_reserve ?m) ''RESERVE''" by (simp add: strncmp_eq_def msg_reserve_def msg_resource_def)
  then have run: "process_message red conn (msg_reserve ?m) s = on_reserve conn (msg_reserve ?m) s"
    using assms(1) by (auto simp: process_message_def)
  have len: "length (msg_granted \<lparr>gm_job_id = j\<rparr> @ [NL]) < BUFF_SIZE" "length (msg_denied \<lparr>gm_job_id = j\<rparr> @ [NL]) < BUFF_SIZE"
    using length_show_int [OF assms(2)] by (simp_all add: msg_granted_def msg_denied_def msg_job_def)
  have live: "conn \<in> dom (heap (upd_recurso r (\<lambda>x. x\<lparr>available_amount := s32 (available_amount x - n)\<rparr>) s))"
    "conn \<in> dom (heap s)" using assms(1) by auto
  note sent = send_message_exact [OF live(1) len(1), where d = DEST_AGENTE_REMOTO]
    send_message_exact [OF live(2) len(2), where d = DEST_AGENTE_REMOTO]
  show ?thesis
    using sent unfolding run on_reserve_def parse
    by (auto simp: reserve_resource_def Let_def queue_enqueue_def split: prod.splits if_splits)
qed

text \<open>
  \<open>C19\<close>. The line a peer writes to reserve is answered on every branch: enough is available,
  GRANTED and the amount is taken; more than the total, DENIED and nothing changes;
  otherwise there is no answer yet and the request joins the end of the queue.
\<close>

theorem reserve_outcome:
  assumes "heap s conn \<noteq> None" "in_s32 j" "in_s32 n"
  shows "\<exists>s'. process_message red conn (msg_reserve \<lparr>rm_job_id = j, rm_type = r, rm_amount = n\<rparr>) s = Some s' \<and> tabla s' = tabla s \<and>
    (if n \<le> available_amount (recursos s r) then
       tx s' = tx s @ [(DEST_AGENTE_REMOTO, conn, msg_granted \<lparr>gm_job_id = j\<rparr> @ [NL])]
       \<and> recursos s' = (recursos s)(r := (recursos s r)\<lparr>available_amount := s32 (available_amount (recursos s r) - n)\<rparr>)
     else if total_amount (recursos s r) < n then
       tx s' = tx s @ [(DEST_AGENTE_REMOTO, conn, msg_denied \<lparr>gm_job_id = j\<rparr> @ [NL])] \<and> recursos s' = recursos s
     else tx s' = tx s \<and> available_amount (recursos s' r) = available_amount (recursos s r)
       \<and> queue s' r = queue s r @ [\<lparr>pr_job_id = j, pr_amount = n, owner_conn = conn, origen = ORIGIN_REMOTE\<rparr>])"
  using reserve_line [OF assms] by blast

theorem reserve_outcome_witness:
  "\<exists>s'. process_message example_red 4 (msg_reserve \<lparr>rm_job_id = 7, rm_type = RESOURCE_GPU, rm_amount = 1\<rparr>) example_start = Some s'
     \<and> tx s' = tx example_start @ [(DEST_AGENTE_REMOTO, 4, msg_granted \<lparr>gm_job_id = 7\<rparr> @ [NL])]
     \<and> available_amount (recursos s' RESOURCE_GPU) = 0"
proof -
  have "available_amount (recursos example_start RESOURCE_GPU) = 1" by code_simp
  moreover have "heap example_start 4 \<noteq> None" using example_main by blast
  ultimately show ?thesis
    using reserve_outcome [of example_start 4 7 1 example_red RESOURCE_GPU] by (auto simp: in_s32_def)
qed

end
