(* ===== verification/Handler_Behaviour.thy ===== *)
theory Handler_Behaviour
  imports Manager_Behaviour
begin

text \<open>
  What the handlers of the messages about jobs do: a JOB_REQUEST ends in one of two ways, a
  GRANTED moves one pending request and completes the job when it was the last, a repeated
  JOB_RELEASE does nothing, and malformed lines do nothing.
\<close>

section \<open>Shared facts\<close>

abbreviation sent_to_planner :: "(dest_t \<times> conn_ptr \<times> string) list \<Rightarrow> (dest_t \<times> conn_ptr \<times> string) list" where
  "sent_to_planner \<equiv> filter (\<lambda>m. fst m = DEST_ERLANG_LOCAL)"

definition queued_ids :: "agent \<Rightarrow> int set" where
  "queued_ids s = (\<Union>r. pr_job_id ` set (queue s r))"

lemma settles_queued: "settles s s' \<Longrightarrow> queued_ids s' \<subseteq> queued_ids s"
  unfolding settles_def queued_ids_def by blast

lemma limpiar_queued: "j \<notin> queued_ids (limpiar_colas_por_id j s)"
  by (auto simp: queued_ids_def)

lemma send_message_queued: "send_message c d m s = Some s' \<Longrightarrow> queued_ids s' = queued_ids s"
  by (simp add: queued_ids_def send_message_frame(1))

lemma jobs_le_None: "jobs_le M' M \<Longrightarrow> M j = None \<Longrightarrow> M' j = None"
  unfolding jobs_le_def by (metis not_None_eq)

lemma settles_job_None: "settles s s' \<Longrightarrow> jobs_map (tabla s) j = None \<Longrightarrow> jobs_map (tabla s') j = None"
  unfolding settles_def using jobs_le_None by blast

lemma parse_msg_job_release [simp]: "in_s32 j \<Longrightarrow> parse_job_release (msg_job ''JOB_RELEASE'' j) = Valido \<lparr>gm_job_id = j\<rparr>"
  by (simp add: parse_job_release_def parse_job_id_def)

lemma job_message [simp]:
  "heap s conn \<noteq> None \<Longrightarrow> process_message red conn (msg_job ''JOB_RELEASE'' j) s = on_job_release (msg_job ''JOB_RELEASE'' j) s"
  "heap s conn \<noteq> None \<Longrightarrow> process_message red conn (msg_granted m) s = on_granted conn (msg_granted m) s"
  "heap s conn \<noteq> None \<Longrightarrow> process_message red conn (msg_release rm) s = on_release (msg_release rm) s"
  by (auto simp: process_message_def strncmp_eq_def msg_job_def msg_granted_def
      msg_release_def msg_resource_def)

section \<open>JOB_RELEASE\<close>

lemma extract_absent:
  assumes "job_valid j" "jobs_map t j = None"
  shows "tabla_jobs_extract_by_id t j = Some (None, t)"
  using assms
  by (simp add: tabla_jobs_extract_by_id_def jobs_map_def job_idx_bucket find_None_iff_all remove_first_idle)

lemma on_job_release_result:
  assumes ok: "agent_ok s" and v: "job_valid j" and j: "in_s32 j"
  shows "\<exists>s'. on_job_release (msg_job ''JOB_RELEASE'' j) s = Some s' \<and> agent_ok s' \<and> keeps_conns s s'
    \<and> jobs_map (tabla s') j = None \<and> (jobs_map (tabla s) j = None \<longrightarrow> s' = s)
    \<and> (jobs_map (tabla s) j \<noteq> None \<longrightarrow> j \<notin> queued_ids s')"
proof (cases "jobs_map (tabla s) j")
  case None
  then show ?thesis using ok j by (simp add: on_job_release_def extract_absent [OF v] Let_def)
next
  case (Some job)
  obtain t where t: "tabla_jobs_extract_by_id (tabla s) j = Some (Some job, t)" "jobs_ok t"
    "jobs_map t = (jobs_map (tabla s))(j := None)" using extract_map [OF agent_okD(1) [OF ok] v] Some by auto
  let ?s = "s\<lparr>tabla := t\<rparr>"
  have st: "settles s ?s" using settles_tabla [OF t(2), of s] t(3) jobs_le_del by simp
  have "a_conn ` set (confirmadas job) \<subseteq> dom (heap ?s)" using live_refs(3) [OF ok Some] by auto
  from job_release_loop_runs [OF settles_ok [OF st ok] this]
  obtain s1 where s1: "job_release_loop (confirmadas job) ?s = Some s1" "settles ?s s1" unfolding runs_def by blast
  let ?s' = "limpiar_colas_por_id j s1"
  have fin: "settles s ?s'" using settles_trans [OF st settles_trans [OF s1(2) limpiar_settles(1)]] .
  have "jobs_map (tabla ?s') j = None" using settles_job_None [OF s1(2), of j] t(3) by simp
  moreover have "on_job_release (msg_job ''JOB_RELEASE'' j) s = Some ?s'"
    using t(1) s1(1) j by (simp add: on_job_release_def Let_def)
  ultimately show ?thesis
    using Some settles_ok [OF fin ok] settles_keeps [OF fin] limpiar_queued [of j s1] by auto
qed

text \<open>
  \<open>C21\<close>. JOB_RELEASE ends the job: afterwards the job is not in the table and none of its
  requests waits in a queue, and the same line again changes nothing at all, so a planner
  that repeats it does not release twice.
\<close>

theorem job_release_idempotent:
  assumes "agent_ok s" "heap s conn \<noteq> None" "0 \<le> j" "in_s32 j" "jobs_map (tabla s) j \<noteq> None"
  shows "\<exists>s'. process_message red conn (msg_job ''JOB_RELEASE'' j) s = Some s'
    \<and> jobs_map (tabla s') j = None \<and> j \<notin> queued_ids s'
    \<and> process_message red conn (msg_job ''JOB_RELEASE'' j) s' = Some s'"
proof -
  have v: "job_valid j" using assms(3) by (rule job_valid_nonneg)
  obtain s' where s': "on_job_release (msg_job ''JOB_RELEASE'' j) s = Some s'" "agent_ok s'" "keeps_conns s s'"
    "jobs_map (tabla s') j = None" "j \<notin> queued_ids s'" using on_job_release_result [OF assms(1) v assms(4)] assms(5) by blast
  have live: "heap s' conn \<noteq> None" using keeps_dom [OF s'(3), of conn] assms(2) by auto
  show ?thesis
    using s' assms(2) live on_job_release_result [OF s'(2) v assms(4)] by auto
qed

theorem job_release_idempotent_witness:
  "\<exists>s s'. example_run [(5, ''JOB_REQUEST 7 @10.0.0.1:cpu:2'')] example_start = Some s \<and> jobs_map (tabla s) 7 \<noteq> None
     \<and> process_message example_red 5 (msg_job ''JOB_RELEASE'' 7) s = Some s' \<and> jobs_map (tabla s') 7 = None
     \<and> process_message example_red 5 (msg_job ''JOB_RELEASE'' 7) s' = Some s'"
proof -
  let ?ls = "[(5, ''JOB_REQUEST 7 @10.0.0.1:cpu:2'')]"
  have ls: "list_all example_line ?ls" by code_simp
  have run: "map_option (\<lambda>s. jobs_map (tabla s) 7 = None) (example_run ?ls example_start) = Some False" by code_simp
  obtain s where s: "example_run ?ls example_start = Some s" "agent_ok s" "5 \<in> dom (heap s)" "jobs_map (tabla s) 7 \<noteq> None"
    using example_state [OF ls run] by auto
  show ?thesis
    using job_release_idempotent [OF s(2) _ _ _ s(4), of 5 example_red] s by (auto simp: in_s32_def)
qed

section \<open>JOB_REQUEST\<close>

lemma job_request_loop_result:
  "job_request_loop red j c reqs job s = Some (Some job', s') \<Longrightarrow>
   tabla s' = tabla s \<and> j_conn job' = j_conn job \<and> sent_to_planner (tx s') = sent_to_planner (tx s)
   \<and> length (confirmadas job') + length (pendientes job') = length (confirmadas job) + length (pendientes job) + length reqs"
proof (induction reqs arbitrary: job s)
  case (Cons q reqs)
  obtain r1 s1 where r1: "reserve_resource (rq_type q) (rq_amount q) j c ORIGIN_LOCAL s = (r1, s1)" by fastforce
  obtain r2 s2 where r2: "connect_remote_node red (rq_ip q) (tabla_nodos_get_puerto (tabla_nodos s) (rq_ip q)) s = (r2, s2)"
    by fastforce
  have same: "tabla s1 = tabla s" "tx s1 = tx s" "tabla s2 = tabla s" "tx s2 = tx s"
    using r1 r2 by (auto simp: reserve_resource_def connect_remote_node_def Let_def split: if_splits prod.splits connect_result.splits)
  show ?case
    using Cons.prems r1 r2 same Cons.IH
    by (fastforce simp: Let_def bind_eq_Some_conv dest: send_message_frame(2,8) split: if_splits option.splits)
qed auto

lemma abort_job_result:
  assumes ok: "agent_ok s" and c: "conn \<in> dom (heap s)" and run: "abort_job j conn job s = Some s'" and j: "in_s32 j"
  shows "j \<notin> queued_ids s'" "jobs_le (jobs_map (tabla s')) (jobs_map (tabla s))"
    "\<exists>l. tx s' = l @ [(DEST_ERLANG_LOCAL, conn, msg_job_denied \<lparr>gm_job_id = j\<rparr> @ [NL])]"
proof -
  let ?s = "limpiar_colas_por_id j s"
  obtain s1 where s1: "release_allocs j (confirmadas job) ?s = Some s1" "settles ?s s1"
    using release_allocs_runs [OF limpiar_safe [OF ok]] unfolding runs_def by blast
  then have send: "send_message conn DEST_ERLANG_LOCAL (msg_job_denied \<lparr>gm_job_id = j\<rparr> @ [NL]) s1 = Some s'"
    using run by (simp add: abort_job_def)
  show "j \<notin> queued_ids s'"
    using settles_queued [OF s1(2)] limpiar_queued [of j s] send_message_queued [OF send] by blast
  show "jobs_le (jobs_map (tabla s')) (jobs_map (tabla s))"
    using s1(2) by (simp add: settles_def send_message_frame(2) [OF send])
  have "snprintf BUFF_SIZE (msg_job_denied \<lparr>gm_job_id = j\<rparr> @ [NL]) = msg_job_denied \<lparr>gm_job_id = j\<rparr> @ [NL]"
    using snprintf_msg_job [OF j] by (simp add: msg_job_denied_def)
  then show "\<exists>l. tx s' = l @ [(DEST_ERLANG_LOCAL, conn, msg_job_denied \<lparr>gm_job_id = j\<rparr> @ [NL])]"
    using send_message_frame(8) [OF send] by simp
qed



section \<open>GRANTED\<close>

lemma find_first:
  "\<forall>x\<in>set xs. \<not> P x \<Longrightarrow> P y \<Longrightarrow> find P (xs @ y # ys) = Some y \<and> remove_first P (xs @ y # ys) = xs @ ys"
  by (induction xs) auto

lemma job_confirmar_first:
  assumes "pendientes job = xs @ req # ys" "o_ip req = ip" "\<forall>x\<in>set xs. o_ip x \<noteq> ip"
  shows "job_confirmar job ip j = (True, job\<lparr>pendientes := xs @ ys, confirmadas :=
     crear_allocation (o_tipo req) (o_amount req) REMOTE ip j RM_GRANTED (o_conn req) # confirmadas job\<rparr>)"
  using find_first [of xs "\<lambda>sal. o_ip sal = ip" req ys] assms by (simp add: job_confirmar_def)

lemma on_granted_result:
  assumes "agent_ok s" "job_valid j" "in_s32 j" "tabla_conns_get_ip_by_conn (conns s) conn = Some ip"
    and "jobs_map (tabla s) j = Some job" "job_confirmar job ip j = (True, job')"
  shows "\<exists>s'. on_granted conn (msg_granted \<lparr>gm_job_id = j\<rparr>) s = Some s' \<and> recursos s' = recursos s
    \<and> jobs_map (tabla s') = (jobs_map (tabla s))(j \<mapsto> job')
    \<and> tx s' = tx s @ (if job_complete job' then [(DEST_ERLANG_LOCAL, j_conn job, msg_job_granted j @ [NL])] else [])"
proof -
  let ?t = "update_job (tabla s) (job_bucket j) j (\<lambda>job. snd (job_confirmar job ip j))"
  let ?s = "s\<lparr>tabla := ?t\<rparr>"
  have t: "jobs_map ?t = (jobs_map (tabla s))(j \<mapsto> job')"
    using update_job_map [OF agent_okD(1) [OF assms(1)] assms(2), of "\<lambda>job. snd (job_confirmar job ip j)"]
      job_confirmar_le(1) [OF prod.collapse [symmetric]] assms(5,6) by auto
  have c: "j_conn job' = j_conn job" using job_confirmar_le(2) [OF assms(6)] .
  have live: "j_conn job \<in> dom (heap ?s)" using live_refs(2) [OF assms(1,5)] by simp
  have len: "length (msg_job_granted j @ [NL]) < BUFF_SIZE"
    using length_show_int [OF assms(3)] by (simp add: msg_job_granted_def msg_job_def)
  have "parse_granted (msg_granted \<lparr>gm_job_id = j\<rparr>) = Valido \<lparr>gm_job_id = j\<rparr>"
    using assms(3) by (intro granted_codec.parse_render) simp
  then have run: "on_granted conn (msg_granted \<lparr>gm_job_id = j\<rparr>) s =
      (if job_complete job' then send_message (j_conn job) DEST_ERLANG_LOCAL (msg_job_granted j @ [NL]) ?s else Some ?s)"
    using assms(4-6) c t by (simp add: on_granted_def buscar_map [OF assms(2)] job_idx_bucket [OF assms(2)]
        verificar_map [OF assms(2)] Let_def)
  show ?thesis using send_message_exact [OF live len, of DEST_ERLANG_LOCAL] t unfolding run by auto
qed

text \<open>
  \<open>C20\<close>. A GRANTED from a connection known under an address confirms the first pending
  request of the job to that address: it becomes an allocation, the other requests and the
  other jobs are untouched, and the planner is told JOB_GRANTED in this step exactly when no
  pending request and no queued local allocation is left.
\<close>

theorem granted_completes_job:
  assumes "agent_ok s" "heap s conn \<noteq> None" "0 \<le> j" "in_s32 j" "tabla_conns_get_ip_by_conn (conns s) conn = Some ip"
    and "jobs_map (tabla s) j = Some job" "pendientes job = xs @ req # ys" "o_ip req = ip" "\<forall>x\<in>set xs. o_ip x \<noteq> ip"
  shows "\<exists>s' job'. process_message red conn (msg_granted \<lparr>gm_job_id = j\<rparr>) s = Some s'
    \<and> jobs_map (tabla s') = (jobs_map (tabla s))(j \<mapsto> job') \<and> recursos s' = recursos s
    \<and> pendientes job' = xs @ ys \<and> length (confirmadas job') = Suc (length (confirmadas job))
    \<and> tx s' = tx s @ (if xs @ ys = [] \<and> \<not> list_ex (\<lambda>a. a_type a = LOCAL \<and> a_result a = RM_QUEUED) (confirmadas job)
        then [(DEST_ERLANG_LOCAL, j_conn job, msg_job_granted j @ [NL])] else [])"
proof -
  obtain job' where job': "job_confirmar job ip j = (True, job')" "pendientes job' = xs @ ys"
    "length (confirmadas job') = Suc (length (confirmadas job))"
    "job_complete job' \<longleftrightarrow> xs @ ys = [] \<and> \<not> list_ex (\<lambda>a. a_type a = LOCAL \<and> a_result a = RM_QUEUED) (confirmadas job)"
    using job_confirmar_first [OF assms(7-9)] by (auto simp: job_complete_def crear_allocation_def)
  show ?thesis
    using on_granted_result [OF assms(1) job_valid_nonneg [OF assms(3)] assms(4-6) job'(1)] assms(2) job'
    by (intro exI [of _ "the (on_granted conn (msg_granted \<lparr>gm_job_id = j\<rparr>) s)"] exI [of _ job']) auto
qed

theorem granted_completes_job_witness:
  "\<exists>s s'. example_remote = Some s \<and> process_message example_red 6 (msg_granted \<lparr>gm_job_id = 7\<rparr>) s = Some s'
     \<and> tx s' = tx s @ [(DEST_ERLANG_LOCAL, 5, msg_job_granted 7 @ [NL])]"
proof -
  let ?req = "crear_outrequest ''10.0.0.2'' 6 RESOURCE_CPU 2 (Some (''RESERVE 7 cpu 2'' @ [NL]))"
  let ?job = "\<lparr>j_job_id = 7, j_conn = 5, confirmadas = [], pendientes = [] @ [?req]\<rparr>"
  have run: "map_option (\<lambda>s. (tabla_conns_get_ip_by_conn (conns s) 6, jobs_map (tabla s) 7)) example_remote
      = Some (Some ''10.0.0.2'', Some ?job)" by code_simp
  obtain s where s: "example_remote = Some s" "agent_ok s" "6 \<in> dom (heap s)"
    and st: "tabla_conns_get_ip_by_conn (conns s) 6 = Some ''10.0.0.2''" "jobs_map (tabla s) 7 = Some ?job"
    using example_remote_state [OF run] by auto
  have req: "o_ip ?req = ''10.0.0.2''" by code_simp
  have "\<exists>s'. process_message example_red 6 (msg_granted \<lparr>gm_job_id = 7\<rparr>) s = Some s'
      \<and> tx s' = tx s @ [(DEST_ERLANG_LOCAL, 5, msg_job_granted 7 @ [NL])]"
    using granted_completes_job [OF s(2) _ _ _ st, of "[]" ?req "[]" example_red] s(3) req
    by (auto simp: in_s32_def simp del: job_message)
  with s(1) show ?thesis by blast
qed

section \<open>A GRANTED that arrives too late\<close>

lemma release_nothing:
  assumes "0 \<le> j" "in_s32 j" "jobs_map (tabla s) j = None"
  shows "on_release (msg_release \<lparr>rm_job_id = j, rm_type = r, rm_amount = 0\<rparr>) s = Some (limpiar_colas_por_id j s)"
proof -
  have "parse_release (msg_release \<lparr>rm_job_id = j, rm_type = r, rm_amount = 0\<rparr>) = Valido \<lparr>rm_job_id = j, rm_type = r, rm_amount = 0\<rparr>"
    using assms(2) by (intro release_codec.parse_render) (simp add: in_s32_def)
  then show ?thesis
    using extract_absent [OF job_valid_nonneg [OF assms(1)] assms(3)]
    by (simp add: on_release_def tabla_jobs_remove_def Let_def)
qed

lemma send_release_exact:
  assumes "conn \<in> dom (heap s)" "in_s32 j"
  shows "\<exists>s'. send_release conn j r 0 s = Some s' \<and> dom (heap s') = dom (heap s) \<and> recursos s' = recursos s \<and> tabla s' = tabla s
    \<and> tx s' = tx s @ [(DEST_AGENTE_REMOTO, conn, msg_release \<lparr>rm_job_id = j, rm_type = r, rm_amount = 0\<rparr> @ [NL])]"
proof -
  have "length (show_int 0) \<le> 11" by (rule length_show_int) (simp add: in_s32_def)
  then have len: "length (msg_release \<lparr>rm_job_id = j, rm_type = r, rm_amount = 0\<rparr> @ [NL]) < BUFF_SIZE"
    using length_show_int [OF assms(2)] by (simp add: msg_release_def msg_resource_def)
  show ?thesis unfolding send_release_def
    using send_message_exact [OF assms(1) len, of DEST_AGENTE_REMOTO] send_message_frame(7) by blast
qed

text \<open>
  \<open>C33\<close>. The answer to a GRANTED for a job that no longer exists does not give the resources
  back: the agent \<open>a\<close> that asked sends RELEASE with the amount 0 for each resource, and the
  agent \<open>b\<close> that granted, which keeps no record of what it granted to others, handles these
  three lines without changing what it has available; it only purges its queues.
\<close>

theorem late_grant_not_returned:
  assumes "heap a ca \<noteq> None" "heap b cb \<noteq> None" "0 \<le> j" "in_s32 j"
    and "tabla_conns_get_ip_by_conn (conns a) ca = Some ip" "jobs_map (tabla a) j = None" "jobs_map (tabla b) j = None"
  shows "\<exists>a' b'. process_message red ca (msg_granted \<lparr>gm_job_id = j\<rparr>) a = Some a'
    \<and> tx a' = tx a @ map (\<lambda>r. (DEST_AGENTE_REMOTO, ca, msg_release \<lparr>rm_job_id = j, rm_type = r, rm_amount = 0\<rparr> @ [NL]))
        [RESOURCE_CPU, RESOURCE_MEM, RESOURCE_GPU]
    \<and> run_messages red cb (map (\<lambda>r. msg_release \<lparr>rm_job_id = j, rm_type = r, rm_amount = 0\<rparr>) [RESOURCE_CPU, RESOURCE_MEM, RESOURCE_GPU]) b = Some b'
    \<and> tx b' = tx b \<and> available_amount (recursos b' r) = available_amount (recursos b r)"
proof -
  have v: "job_valid j" using assms(3) by (rule job_valid_nonneg)
  have "parse_granted (msg_granted \<lparr>gm_job_id = j\<rparr>) = Valido \<lparr>gm_job_id = j\<rparr>"
    using assms(4) by (intro granted_codec.parse_render) simp
  then have run: "process_message red ca (msg_granted \<lparr>gm_job_id = j\<rparr>) a = do {
      s \<leftarrow> send_release ca j RESOURCE_CPU 0 a; s \<leftarrow> send_release ca j RESOURCE_MEM 0 s; send_release ca j RESOURCE_GPU 0 s }"
    using assms(1,5,6) by (simp add: on_granted_def buscar_map [OF v])
  obtain s1 where s1: "send_release ca j RESOURCE_CPU 0 a = Some s1" "ca \<in> dom (heap s1)"
    "tx s1 = tx a @ [(DEST_AGENTE_REMOTO, ca, msg_release \<lparr>rm_job_id = j, rm_type = RESOURCE_CPU, rm_amount = 0\<rparr> @ [NL])]"
    using send_release_exact [of ca a j RESOURCE_CPU] assms(1,4) by auto
  obtain s2 where s2: "send_release ca j RESOURCE_MEM 0 s1 = Some s2" "ca \<in> dom (heap s2)"
    "tx s2 = tx s1 @ [(DEST_AGENTE_REMOTO, ca, msg_release \<lparr>rm_job_id = j, rm_type = RESOURCE_MEM, rm_amount = 0\<rparr> @ [NL])]"
    using send_release_exact [OF s1(2) assms(4), of RESOURCE_MEM] s1(2) by auto
  show ?thesis
    using send_release_exact [OF s2(2) assms(4), of RESOURCE_GPU] s1 s2 assms(2-4,7)
    unfolding run by (auto simp: release_nothing)
qed

theorem late_grant_not_returned_witness:
  "\<exists>s b'. example_remote = Some s \<and> process_message example_red 6 (msg_granted \<lparr>gm_job_id = 9\<rparr>) s \<noteq> None
     \<and> run_messages example_red 4 (map (\<lambda>r. msg_release \<lparr>rm_job_id = 9, rm_type = r, rm_amount = 0\<rparr>)
         [RESOURCE_CPU, RESOURCE_MEM, RESOURCE_GPU]) example_start = Some b'
     \<and> available_amount (recursos b' RESOURCE_CPU) = available_amount (recursos example_start RESOURCE_CPU)"
proof -
  have run: "map_option (\<lambda>s. (tabla_conns_get_ip_by_conn (conns s) 6, jobs_map (tabla s) 9 = None)) example_remote
      = Some (Some ''10.0.0.2'', True)" by code_simp
  obtain s where s: "example_remote = Some s" "6 \<in> dom (heap s)" "tabla_conns_get_ip_by_conn (conns s) 6 = Some ''10.0.0.2''"
    "jobs_map (tabla s) 9 = None" using example_remote_state [OF run] by auto
  have "jobs_map (tabla example_start) 9 = None" by code_simp
  moreover have "heap example_start 4 \<noteq> None" using example_main by blast
  ultimately obtain a' b' where "process_message example_red 6 (msg_granted \<lparr>gm_job_id = 9\<rparr>) s = Some a'"
    "run_messages example_red 4 (map (\<lambda>r. msg_release \<lparr>rm_job_id = 9, rm_type = r, rm_amount = 0\<rparr>)
         [RESOURCE_CPU, RESOURCE_MEM, RESOURCE_GPU]) example_start = Some b'"
    "available_amount (recursos b' RESOURCE_CPU) = available_amount (recursos example_start RESOURCE_CPU)"
    using late_grant_not_returned [of s 6 example_start 4 9 "''10.0.0.2''" example_red RESOURCE_CPU] s(2-4)
    by (auto simp: in_s32_def simp del: run_messages.simps list.map job_message)
  with s(1) show ?thesis by blast
qed

section \<open>Malformed lines\<close>

definition malformed :: "string \<Rightarrow> bool" where
  "malformed msg \<longleftrightarrow> parse_reserve msg = Invalido \<and> parse_release msg = Invalido \<and> parse_granted msg = Invalido
     \<and> parse_denied msg = Invalido \<and> parse_job_request msg = Some Invalido \<and> \<not> strncmp_eq msg ''GET_NODES''
     \<and> parse_job_release msg = Invalido \<and> parse_job_status msg = Invalido \<and> parse_job_timeout msg = Invalido"

text \<open>
  \<open>C27\<close>. A line that no parser accepts is ignored: whatever its first word, the state of the
  agent, its tables, its queues and what it sends stay as they are.
\<close>

theorem malformed_ignored:
  assumes "malformed msg" "heap s conn \<noteq> None"
  shows "process_message red conn msg s = Some s"
  using assms
  by (auto simp: malformed_def process_message_def on_reserve_def on_release_def on_granted_def on_denied_def
      on_job_request_def on_job_release_def on_job_status_def on_job_timeout_def)

theorem malformed_ignored_witness:
  "process_message example_red 4 ''RESERVE 5 disk 1'' example_start = Some example_start
   \<and> process_message example_red 4 ''GRANTED five'' example_start = Some example_start"
proof -
  have "malformed ''RESERVE 5 disk 1''" "malformed ''GRANTED five''" by code_simp+
  moreover have "heap example_start 4 \<noteq> None" using example_main by blast
  ultimately show ?thesis using malformed_ignored by blast
qed

end
