(* ===== verification/Remote_Protocol.thy ===== *)
theory Remote_Protocol
  imports Handler_Behaviour
begin

text \<open>
  Two agents together: \<open>a\<close> runs a job that needs a resource of \<open>b\<close>. The lines one writes are
  the lines the other reads.
\<close>

lemma send_release_line:
  assumes "conn \<in> dom (heap s)" "in_s32 j" "in_s32 n"
  shows "\<exists>s'. send_release conn j r n s = Some s' \<and> recursos s' = recursos s \<and> tabla s' = tabla s
    \<and> tx s' = tx s @ [(DEST_AGENTE_REMOTO, conn, msg_release \<lparr>rm_job_id = j, rm_type = r, rm_amount = n\<rparr> @ [NL])]"
proof -
  have len: "length (msg_release \<lparr>rm_job_id = j, rm_type = r, rm_amount = n\<rparr> @ [NL]) < BUFF_SIZE"
    using length_show_int [OF assms(2)] length_show_int [OF assms(3)] by (simp add: msg_release_def msg_resource_def)
  show ?thesis unfolding send_release_def using send_message_exact [OF assms(1) len, of DEST_AGENTE_REMOTO] by blast
qed

lemma job_release_one_remote:
  assumes ok: "agent_ok s" and j: "0 \<le> j" "in_s32 j" "in_s32 n"
    and job: "jobs_map (tabla s) j = Some job" "confirmadas job = [crear_allocation r n REMOTE ip j RM_GRANTED c]"
  shows "\<exists>s'. on_job_release (msg_job ''JOB_RELEASE'' j) s = Some s' \<and> jobs_map (tabla s') j = None
    \<and> tx s' = tx s @ [(DEST_AGENTE_REMOTO, c, msg_release \<lparr>rm_job_id = j, rm_type = r, rm_amount = n\<rparr> @ [NL])]"
proof -
  have v: "job_valid j" using j(1) by (rule job_valid_nonneg)
  obtain t where t: "tabla_jobs_extract_by_id (tabla s) j = Some (Some job, t)" "jobs_map t = (jobs_map (tabla s))(j := None)"
    using extract_map [OF agent_okD(1) [OF ok] v] job(1) by auto
  have "c \<in> dom (heap s)" using live_refs(3) [OF ok job(1), of "crear_allocation r n REMOTE ip j RM_GRANTED c"] job(2)
    by (simp add: crear_allocation_def)
  then have live: "c \<in> dom (heap (limpiar_colas_por_id j (s\<lparr>tabla := t\<rparr>)))" by simp
  obtain s1 where "send_release c j r n (limpiar_colas_por_id j (s\<lparr>tabla := t\<rparr>)) = Some s1" "tabla s1 = t"
    "tx s1 = tx s @ [(DEST_AGENTE_REMOTO, c, msg_release \<lparr>rm_job_id = j, rm_type = r, rm_amount = n\<rparr> @ [NL])]"
    using send_release_line [OF live j(2,3), of r] by auto
  then show ?thesis using t j(2) job(2) by (auto simp: on_job_release_def crear_allocation_def Let_def)
qed

lemma release_returns_amount:
  assumes r: "recurso_ok (recursos s r)" "queue s r = []" "available_amount (recursos s r) + n \<le> total_amount (recursos s r)"
    and n: "0 < n" "in_s32 n" and j: "0 \<le> j" "in_s32 j" "jobs_map (tabla s) j = None"
  shows "\<exists>s'. on_release (msg_release \<lparr>rm_job_id = j, rm_type = r, rm_amount = n\<rparr>) s = Some s'
    \<and> available_amount (recursos s' r) = available_amount (recursos s r) + n"
proof -
  let ?s = "upd_recurso r (\<lambda>x. x\<lparr>available_amount := available_amount x + n\<rparr>) s"
  have e: "s32 (available_amount (recursos s r) + n) = available_amount (recursos s r) + n"
    using r n(1) by (intro s32_id) (auto simp: recurso_ok_def in_s32_def)
  have "release_loop r s' = Some s'" if "queue s' r = []" for s'
    using that by (subst release_loop.simps) (simp add: queue_dequeue_def Let_def)
  then have "release_resource r n s = Some ?s" using r n(1) e by (simp add: release_resource_def Let_def upd_recurso_def)
  moreover have "parse_release (msg_release \<lparr>rm_job_id = j, rm_type = r, rm_amount = n\<rparr>)
      = Valido \<lparr>rm_job_id = j, rm_type = r, rm_amount = n\<rparr>"
    using j(2) n(2) by (intro release_codec.parse_render) simp
  ultimately show ?thesis
    using n(1) extract_absent [OF job_valid_nonneg [OF j(1)], of "tabla ?s"] j(3)
    by (simp add: on_release_def tabla_jobs_remove_def Let_def)
qed

text \<open>
  \<open>C4\<close>. A remote reservation and its release cancel out. Agent \<open>a\<close> has a job that waits for
  \<open>n\<close> of a resource of agent \<open>b\<close>, which has that much and nobody waiting. The RESERVE line
  makes \<open>b\<close> take the amount and answer GRANTED; that line makes \<open>a\<close> tell its planner
  JOB_GRANTED; the planner's JOB_RELEASE makes \<open>a\<close> forget the job and send one RELEASE line,
  with the resource and the amount of the reservation; and that line makes \<open>b\<close> have
  exactly what it had before.
\<close>

theorem remote_reservation_roundtrip:
  assumes a: "agent_ok a" "heap a ca \<noteq> None" "heap a cp \<noteq> None" "tabla_conns_get_ip_by_conn (conns a) ca = Some ip"
    and job: "jobs_map (tabla a) j = Some job" "confirmadas job = []" "pendientes job = [req]"
      "o_ip req = ip" "o_tipo req = r" "o_amount req = n" "o_conn req = ca"
    and b: "heap b cb \<noteq> None" "recurso_ok (recursos b r)" "queue b r = []" "jobs_map (tabla b) j = None"
    and n: "0 < n" "n \<le> available_amount (recursos b r)" and j: "0 \<le> j" "in_s32 j"
  shows "\<exists>b1 a1 a2 b2. process_message red cb (msg_reserve \<lparr>rm_job_id = j, rm_type = r, rm_amount = n\<rparr>) b = Some b1
    \<and> available_amount (recursos b1 r) = available_amount (recursos b r) - n
    \<and> tx b1 = tx b @ [(DEST_AGENTE_REMOTO, cb, msg_granted \<lparr>gm_job_id = j\<rparr> @ [NL])]
    \<and> process_message red ca (msg_granted \<lparr>gm_job_id = j\<rparr>) a = Some a1
    \<and> tx a1 = tx a @ [(DEST_ERLANG_LOCAL, j_conn job, msg_job_granted j @ [NL])]
    \<and> process_message red cp (msg_job ''JOB_RELEASE'' j) a1 = Some a2 \<and> jobs_map (tabla a2) j = None
    \<and> tx a2 = tx a1 @ [(DEST_AGENTE_REMOTO, ca, msg_release \<lparr>rm_job_id = j, rm_type = r, rm_amount = n\<rparr> @ [NL])]
    \<and> process_message red cb (msg_release \<lparr>rm_job_id = j, rm_type = r, rm_amount = n\<rparr>) b1 = Some b2
    \<and> available_amount (recursos b2 r) = available_amount (recursos b r)"
proof -
  have n32: "in_s32 n" using b(2) n by (auto simp: recurso_ok_def in_s32_def)
  have e: "s32 (available_amount (recursos b r) - n) = available_amount (recursos b r) - n"
    using b(2) n by (intro s32_id) (auto simp: recurso_ok_def in_s32_def)
  obtain b1 where b1: "process_message red cb (msg_reserve \<lparr>rm_job_id = j, rm_type = r, rm_amount = n\<rparr>) b = Some b1"
    "heap b1 cb \<noteq> None" "tabla b1 = tabla b" "tx b1 = tx b @ [(DEST_AGENTE_REMOTO, cb, msg_granted \<lparr>gm_job_id = j\<rparr> @ [NL])]"
    "recursos b1 = (recursos b)(r := (recursos b r)\<lparr>available_amount := available_amount (recursos b r) - n\<rparr>)"
    using reserve_line [OF b(1) j(2) n32, of red r] n(2) e b(1) by (metis domIff)
  have "recurso_ok (recursos b1 r)" "queue b1 r = []" "available_amount (recursos b1 r) + n \<le> total_amount (recursos b1 r)"
    using b(2,3) n b1(5) by (auto simp: recurso_ok_def)
  then obtain b2 where b2: "process_message red cb (msg_release \<lparr>rm_job_id = j, rm_type = r, rm_amount = n\<rparr>) b1 = Some b2"
    "available_amount (recursos b2 r) = available_amount (recursos b r)"
    using release_returns_amount [of b1 r n j] n(1) n32 j b(4) b1(2,3,5) by auto
  let ?job = "job\<lparr>pendientes := [], confirmadas := [crear_allocation r n REMOTE ip j RM_GRANTED ca]\<rparr>"
  have conf: "job_confirmar job ip j = (True, ?job)" "job_complete ?job"
    using job_confirmar_first [of job "[]" req "[]" ip j] job by (auto simp: job_complete_def crear_allocation_def)
  have v: "job_valid j" using j(1) by (rule job_valid_nonneg)
  obtain a1 where a1: "on_granted ca (msg_granted \<lparr>gm_job_id = j\<rparr>) a = Some a1"
    "jobs_map (tabla a1) = (jobs_map (tabla a))(j \<mapsto> ?job)" "tx a1 = tx a @ [(DEST_ERLANG_LOCAL, j_conn job, msg_job_granted j @ [NL])]"
    using on_granted_result [OF a(1) v j(2) a(4) job(1) conf(1)] conf(2) by auto
  have "parsed_ok (\<lambda>m. job_valid (gm_job_id m)) (parse_granted (msg_granted \<lparr>gm_job_id = j\<rparr>))"
    using granted_codec.parse_render [of "\<lparr>gm_job_id = j\<rparr>"] j(2) v by (simp add: parsed_ok_def)
  then have ok1: "agent_ok a1" "keeps_conns a a1"
    using on_granted_safe [OF a(1), of ca "msg_granted \<lparr>gm_job_id = j\<rparr>"] a(2) a1(1) by (auto simp: safe_def)
  obtain a2 where a2: "on_job_release (msg_job ''JOB_RELEASE'' j) a1 = Some a2" "jobs_map (tabla a2) j = None"
    "tx a2 = tx a1 @ [(DEST_AGENTE_REMOTO, ca, msg_release \<lparr>rm_job_id = j, rm_type = r, rm_amount = n\<rparr> @ [NL])]"
    using job_release_one_remote [OF ok1(1) j n32, of ?job r ip ca] a1(2) by auto
  have "heap a1 cp \<noteq> None" using keeps_dom [OF ok1(2), of cp] a(3) by auto
  with a1 a2 b1 b2 a(2) show ?thesis
    by (intro exI [of _ b1] exI [of _ a1] exI [of _ a2] exI [of _ b2]) simp
qed

theorem remote_reservation_roundtrip_witness:
  "\<exists>a b1 b2. example_remote = Some a
     \<and> process_message example_red 4 (msg_reserve \<lparr>rm_job_id = 7, rm_type = RESOURCE_CPU, rm_amount = 2\<rparr>) example_start = Some b1
     \<and> available_amount (recursos b1 RESOURCE_CPU) = 2
     \<and> process_message example_red 4 (msg_release \<lparr>rm_job_id = 7, rm_type = RESOURCE_CPU, rm_amount = 2\<rparr>) b1 = Some b2
     \<and> available_amount (recursos b2 RESOURCE_CPU) = 4"
proof -
  let ?req = "crear_outrequest ''10.0.0.2'' 6 RESOURCE_CPU 2 (Some (''RESERVE 7 cpu 2'' @ [NL]))"
  let ?job = "\<lparr>j_job_id = 7, j_conn = 5, confirmadas = [], pendientes = [?req]\<rparr>"
  have run: "map_option (\<lambda>s. (tabla_conns_get_ip_by_conn (conns s) 6, jobs_map (tabla s) 7)) example_remote
      = Some (Some ''10.0.0.2'', Some ?job)" by code_simp
  obtain a where a: "example_remote = Some a" "agent_ok a" "6 \<in> dom (heap a)"
    "tabla_conns_get_ip_by_conn (conns a) 6 = Some ''10.0.0.2''" "jobs_map (tabla a) 7 = Some ?job"
    using example_remote_state [OF run] by auto
  have req: "o_ip ?req = ''10.0.0.2''" "o_tipo ?req = RESOURCE_CPU" "o_amount ?req = 2" "o_conn ?req = 6" by code_simp+
  have b: "available_amount (recursos example_start RESOURCE_CPU) = 4" "queue example_start RESOURCE_CPU = []"
    "jobs_map (tabla example_start) 7 = None" by code_simp+
  have live: "heap a 6 \<noteq> None" "heap example_start 4 \<noteq> None" using a(3) example_main by auto
  have rec: "recurso_ok (recursos example_start RESOURCE_CPU)" using example_start_ok(2) by (simp add: books_ok_def)
  obtain b1 b2 where "process_message example_red 4 (msg_reserve \<lparr>rm_job_id = 7, rm_type = RESOURCE_CPU, rm_amount = 2\<rparr>) example_start = Some b1"
     "available_amount (recursos b1 RESOURCE_CPU) = 2"
     "process_message example_red 4 (msg_release \<lparr>rm_job_id = 7, rm_type = RESOURCE_CPU, rm_amount = 2\<rparr>) b1 = Some b2"
     "available_amount (recursos b2 RESOURCE_CPU) = 4"
    using remote_reservation_roundtrip [OF a(2) live(1) live(1) a(4,5) _ _ req live(2) rec b(2,3), of example_red] b(1)
    by (auto simp: in_s32_def simp del: job_message)
  with a(1) show ?thesis by blast
qed

end
