(* ===== verification/Server_Behaviour.thy ===== *)
theory Server_Behaviour
  imports Example_Run
begin

text \<open>
  What the server makes of the bytes that arrive, and the list of nodes it sends to the
  planner: how the stream is cut into reads does not matter, a line longer than the buffer
  ends the connection, and the answer to GET_NODES names every known node that fits.
\<close>

section \<open>Reading a stream\<close>

text \<open>
  \<open>C26\<close>. The framing does not depend on how TCP cuts the stream: extracting the lines of a
  piece, and then those of what is left of it followed by the next piece, handles the same
  messages in the same order, with the same final state and the same rest, as extracting
  the lines of both pieces at once.
\<close>

theorem read_lines_chunks:
  assumes "NUL \<notin> set a"
  shows "read_lines red conn (a @ b) s = read_lines red conn a s \<bind> (\<lambda>(rest, s). read_lines red conn (rest @ b) s)"
proof -
  have run: "run_messages red conn (xs @ ys) s = run_messages red conn xs s \<bind> run_messages red conn ys" for xs ys s
    by (induction xs arbitrary: s) (auto intro: Option.bind_cong)
  show ?thesis
    unfolding read_lines_framing lines_of_append [OF assms] by (simp add: run)
qed

theorem read_lines_chunks_witness:
  "read_lines example_red 4 (''RESERVE 1 c'' @ (''pu 1'' @ [NL] @ ''REL'')) example_start
     = read_lines example_red 4 ''RESERVE 1 c'' example_start
       \<bind> (\<lambda>(rest, s). read_lines example_red 4 (rest @ (''pu 1'' @ [NL] @ ''REL'')) s)"
  by (rule read_lines_chunks) code_simp

lemma next_line_None: "NL \<notin> set buf \<Longrightarrow> next_line buf = None"
  by (cases "next_line buf") (auto simp: next_line_Some)

text \<open>
  \<open>C29\<close>. A line that does not fit in the buffer ends the connection: after 1023 bytes without a
  newline the next \<open>read\<close> is asked for 0 bytes, so it returns 0 whatever the peer sends,
  which the code takes for the end of the stream: it disconnects and frees the connection.
\<close>

theorem overlong_line_disconnects:
  assumes "agent_ok s" "heap s conn = Some k" "ctype k \<noteq> CONN_TCP_OUTGOING"
    and "NL \<notin> set (read_buf k @ bs)" "bs \<noteq> []" "length (read_buf k @ bs) = BUFF_SIZE - 1"
  shows "\<exists>s1. handle_tcp_read red (Read bs) conn s = Some (False, s1) \<and> (\<forall>k1 bs'. heap s1 conn = Some k1
      \<and> length bs' \<le> BUFF_SIZE - read_pos k1 - 1
      \<longrightarrow> (\<exists>s2. handle_tcp_read red (Read bs') conn s1 = Some (True, s2) \<and> heap s2 conn = None \<and> agent_ok s2))"
proof -
  let ?buf = "read_buf k @ bs"
  let ?s1 = "upd_conn conn (\<lambda>k. k\<lparr>read_buf := ?buf\<rparr>) s"
  have fit: "conn_fit (g_epfd s) k" using agent_okD(7) [OF assms(1)] assms(2) by (simp add: heap_ok_def)
  have "read_lines red conn ?buf s' = Some (?buf, s')" for s' using next_line_None [OF assms(4)] by (simp add: read_lines.simps)
  then have 1: "handle_tcp_read red (Read bs) conn s = Some (False, ?s1)"
    using assms(2,5) by (simp add: handle_tcp_read_def Let_def upd_conn_def)
  have ok: "agent_ok ?s1"
    by (rule upd_conn_ok [OF assms(1)]) (use conn_fit_read_buf [OF fit, of ?buf] assms(2,6) in auto)
  have live: "conn \<in> dom (heap ?s1)" using assms(2) by (simp add: upd_conn_def)
  obtain s2 where s2: "close_conn conn ?s1 = Some s2" "agent_ok s2" "heap s2 conn = None"
    using close_conn_safe [OF ok live] by blast
  then have "handle_tcp_read red (Read []) conn ?s1 = Some (True, s2)"
    using assms(2) by (simp add: handle_tcp_read_def)
  with 1 s2 show ?thesis using assms(2,6) by (intro exI [of _ ?s1]) (auto simp: upd_conn_def)
qed

theorem overlong_line_disconnects_witness:
  "\<exists>s1 s2. handle_tcp_read example_red (Read (replicate 1023 CHR ''x'')) 4 example_start = Some (False, s1)
     \<and> handle_tcp_read example_red (Read []) 4 s1 = Some (True, s2) \<and> heap s2 4 = None"
proof -
  obtain k where k: "heap example_start 4 = Some k" "ctype k = CONN_TCP_CLIENT_REMOTE" using example_main by auto
  have "map_option read_buf (heap example_start 4) = Some []" by code_simp
  then have buf: "read_buf k = []" using k by simp
  let ?bs = "replicate 1023 CHR ''x''"
  obtain s1 where s1: "handle_tcp_read example_red (Read ?bs) 4 example_start = Some (False, s1)"
    and all: "\<And>k1 bs'. heap s1 4 = Some k1 \<Longrightarrow> length bs' \<le> BUFF_SIZE - read_pos k1 - 1
      \<Longrightarrow> \<exists>s2. handle_tcp_read example_red (Read bs') 4 s1 = Some (True, s2) \<and> heap s2 4 = None \<and> agent_ok s2"
    using overlong_line_disconnects [OF example_start_ok(1) k(1), of ?bs example_red] k(2) buf by auto
  have "heap s1 4 \<noteq> None"
    using s1 by (auto simp: handle_tcp_read_def bind_eq_Some_conv upd_conn_def Let_def split: if_splits)
  then obtain k1 where "heap s1 4 = Some k1" by blast
  from all [OF this, of "[]"] s1 show ?thesis by auto
qed

section \<open>The list of nodes\<close>

lemma length_nodes_append: "length buf < BUFF_SIZE - 2 \<Longrightarrow> length (nodes_append buf e) < BUFF_SIZE - 2"
  by (simp add: nodes_append_def Let_def)

lemma length_nodes_fold: "length buf < BUFF_SIZE - 2 \<Longrightarrow> length (foldl nodes_append buf es) < BUFF_SIZE - 2"
  by (induction es arbitrary: buf) (use length_nodes_append in auto)

lemma nodes_fold_exact:
  "length buf + length (concat (map node_text es)) < BUFF_SIZE - 2 \<Longrightarrow>
   foldl nodes_append buf es = buf @ concat (map node_text es)"
  by (induction es arbitrary: buf) (auto simp: nodes_append_def Let_def)

definition node_printable :: "NodeEntry \<Rightarrow> bool" where
  "node_printable e \<longleftrightarrow> ip_fits (ne_ip e) \<and> in_s32 (puerto e) \<and> in_s32 (cpu_disp e) \<and> in_s32 (mem_disp e) \<and> in_s32 (gpu_disp e)"

lemma node_text_exact:
  assumes "node_printable e"
  shows "node_text e = ne_ip e @ '':'' @ show_int (puerto e) @ '':cpu:'' @ show_int (cpu_disp e)
     @ '':mem:'' @ show_int (mem_disp e) @ '':gpu:'' @ show_int (gpu_disp e) @ '';''"
proof -
  have "length (show_int (puerto e)) \<le> 11" "length (show_int (cpu_disp e)) \<le> 11"
    "length (show_int (mem_disp e)) \<le> 11" "length (show_int (gpu_disp e)) \<le> 11"
    using assms by (simp_all add: node_printable_def length_show_int)
  moreover have "length (ne_ip e) \<le> 15" using assms by (simp add: node_printable_def)
  ultimately show ?thesis by (simp add: node_text_def snprintf_def)
qed

lemma node_text_semicolon: "node_printable e \<Longrightarrow> \<exists>b. node_text e = b @ '';''"
  by (intro exI [of _ "ne_ip e @ '':'' @ show_int (puerto e) @ '':cpu:'' @ show_int (cpu_disp e)
     @ '':mem:'' @ show_int (mem_disp e) @ '':gpu:'' @ show_int (gpu_disp e)"]) (simp add: node_text_exact)

text \<open>
  \<open>C28\<close>. The answer to GET_NODES always fits in the buffer it is built in, with its newline and
  NUL; and as long as the entries fit in it together it names every known node, in the order
  of the table, separated by semicolons.
\<close>

theorem nodes_reply_complete:
  "length (nodes_reply t) < BUFF_SIZE \<and>
   ((\<forall>e\<in>set (entries t). node_printable e) \<and> 6 + length (concat (map node_text (entries t))) < BUFF_SIZE - 2
     \<longrightarrow> nodes_reply t = ''NODES '' @ butlast (concat (map node_text (entries t))) @ [NL])"
proof
  have "length (foldl nodes_append ''NODES '' (concat t)) < BUFF_SIZE - 2" by (rule length_nodes_fold) simp
  then show "length (nodes_reply t) < BUFF_SIZE" by (auto simp: nodes_reply_def Let_def)
  show "(\<forall>e\<in>set (entries t). node_printable e) \<and> 6 + length (concat (map node_text (entries t))) < BUFF_SIZE - 2
     \<longrightarrow> nodes_reply t = ''NODES '' @ butlast (concat (map node_text (entries t))) @ [NL]"
  proof
    assume a: "(\<forall>e\<in>set (entries t). node_printable e) \<and> 6 + length (concat (map node_text (entries t))) < BUFF_SIZE - 2"
    let ?c = "concat (map node_text (entries t))"
    have f: "foldl nodes_append ''NODES '' (concat t) = ''NODES '' @ ?c"
      using nodes_fold_exact [of "''NODES ''" "entries t"] a by (simp add: entries_def)
    show "nodes_reply t = ''NODES '' @ butlast ?c @ [NL]"
    proof (cases "entries t" rule: rev_cases)
      case Nil
      then show ?thesis unfolding nodes_reply_def f by (simp add: Let_def)
    next
      case (snoc es e)
      obtain b where "node_text e = b @ '';''" using node_text_semicolon [of e] a snoc by auto
      then have b: "?c = (concat (map node_text es) @ b) @ '';''" using snoc by simp
      show ?thesis unfolding nodes_reply_def f b by (simp add: Let_def butlast_append)
    qed
  qed
qed

theorem nodes_reply_complete_witness:
  "nodes_reply (tabla_nodos_insert_or_update 0 ''10.0.0.2'' 81 4 8 0 tabla_nodos_init) = ''NODES 10.0.0.2:81:cpu:4:mem:8:gpu:0'' @ [NL]"
proof -
  let ?t = "tabla_nodos_insert_or_update 0 ''10.0.0.2'' 81 4 8 0 tabla_nodos_init"
  let ?e = "\<lparr>ne_ip = ''10.0.0.2'', puerto = 81, cpu_disp = 4, mem_disp = 8, gpu_disp = 0, last_seen = 0\<rparr>"
  have e: "entries ?t = [?e]" "node_text ?e = ''10.0.0.2:81:cpu:4:mem:8:gpu:0;''" "node_printable ?e" by code_simp+
  show ?thesis using nodes_reply_complete [of ?t] e(2,3) unfolding e(1) by simp
qed

end
