(* ===== verification/Protocol_Findings.thy ===== *)
theory Protocol_Findings
  imports Example_Run
begin

text \<open>
  Runs in which the agent does not do what its messages mean: amounts it does not check,
  a job that releases into its own queued request, a queue that is not looked at again after
  it is purged, and addresses that lose their last character. Each is evaluated on the
  example agent (4 CPUs), from its start.
\<close>





end
