(* ===== verification/Thread_Types.thy ===== *)
theory Thread_Types
  imports Thread_Bounds
begin

text \<open>
  Every number the agent keeps is a C \<open>int\<close>, whatever arrives and however the threads are
  interleaved: the amounts and counters of the resources, the ids and amounts of the
  pending requests and of the jobs, the ports and amounts of the node table. So the
  unbounded integers of the model never hold a value the program's variables cannot.
\<close>

section \<open>The types\<close>

definition pending_ints :: "PendingRequest \<Rightarrow> bool" where
  "pending_ints p \<longleftrightarrow> in_s32 (pr_job_id p) \<and> in_s32 (pr_amount p)"

definition recurso_ints :: "Recurso \<Rightarrow> bool" where
  "recurso_ints r \<longleftrightarrow> in_s32 (available_amount r) \<and> in_s32 (total_amount r) \<and> in_s32 (q_amount (cola r))
     \<and> list_all pending_ints (items (cola r))"

definition job_ints :: "Job \<Rightarrow> bool" where
  "job_ints job \<longleftrightarrow> in_s32 (j_job_id job) \<and> list_all (\<lambda>a. in_s32 (a_amount a) \<and> in_s32 (a_job_id a)) (confirmadas job)
     \<and> list_all (\<lambda>req. in_s32 (o_amount req)) (pendientes job)"

definition node_ints :: "NodeEntry \<Rightarrow> bool" where
  "node_ints e \<longleftrightarrow> in_s32 (puerto e) \<and> in_s32 (cpu_disp e) \<and> in_s32 (mem_disp e) \<and> in_s32 (gpu_disp e)"

definition ints_ok :: "agent \<Rightarrow> bool" where
  "ints_ok s \<longleftrightarrow> (\<forall>r. recurso_ints (recursos s r)) \<and> tabla_all job_ints (tabla s)
     \<and> length (tabla_nodos s) = TAM_TABLA \<and> list_all node_ints (entries (tabla_nodos s))"

definition requests_ints :: "resource_request_t list \<Rightarrow> bool" where
  "requests_ints = list_all (\<lambda>q. in_s32 (rq_amount q))"

definition task_ints :: "task \<Rightarrow> bool" where
  "task_ints t = (case t of
      TReserve _ n j _ \<Rightarrow> in_s32 n \<and> in_s32 j
    | TGranted _ j \<Rightarrow> in_s32 j
    | TConfirm _ j _ \<Rightarrow> in_s32 j
    | TJob_begin _ _ m \<Rightarrow> in_s32 (jr_job_id m) \<and> requests_ints (request_list m)
    | TJob_next _ j _ reqs job \<Rightarrow> in_s32 j \<and> requests_ints reqs \<and> job_ints job
    | TJob_reserve _ j _ q reqs job \<Rightarrow> in_s32 j \<and> requests_ints (q # reqs) \<and> job_ints job
    | TJob_port _ j _ q reqs job \<Rightarrow> in_s32 j \<and> requests_ints (q # reqs) \<and> job_ints job
    | TJob_connect _ j _ q reqs job _ \<Rightarrow> in_s32 j \<and> requests_ints (q # reqs) \<and> job_ints job
    | _ \<Rightarrow> True)"

section \<open>What the parsers read\<close>

lemma sscanf_in_s32: "sscanf s ds = vs \<Longrightarrow> VInt v \<in> set vs \<Longrightarrow> in_s32 v"
  using scan_VInt_in_s32 by (auto simp: sscanf_def)

lemma parse_reserve_ints: "parse_reserve msg = Valido m \<Longrightarrow> in_s32 (rm_job_id m) \<and> in_s32 (rm_amount m)"
  by (auto simp: parse_reserve_def dest: sscanf_in_s32 split: list.splits sval.splits option.splits)

lemma parse_job_id_ints: "parse_job_id w msg = Valido m \<Longrightarrow> in_s32 (gm_job_id m)"
  by (auto simp: parse_job_id_def scan_job_id_def dest: sscanf_in_s32 split: list.splits sval.splits option.splits)

lemma parse_job_request_ints:
  assumes "parse_job_request msg = Some (Valido m)"
  shows "in_s32 (jr_job_id m) \<and> requests_ints (request_list m)"
proof -
  have "in_s32 (jr_job_id m)"
    using assms by (auto simp: parse_job_request_def scan_job_id_def dest: sscanf_in_s32
        split: list.splits sval.splits option.splits parsed.splits)
  then show ?thesis using parse_job_request_list [OF assms] by (auto simp: requests_ints_def list_all_iff request_ok_def)
qed

lemma scan_field_ints: "scan_field w s = Some v \<Longrightarrow> in_s32 v"
  by (auto simp: scan_field_def dest: sscanf_in_s32 split: list.splits sval.splits)

lemma announce_loop_ints:
  "announce_loop ts i cpu mem gpu = Valido (c, m, g) \<Longrightarrow> in_s32 cpu \<Longrightarrow> in_s32 mem \<Longrightarrow> in_s32 gpu \<Longrightarrow> in_s32 c \<and> in_s32 m \<and> in_s32 g"
  by (induction ts i cpu mem gpu rule: announce_loop.induct) (auto dest: scan_field_ints split: if_splits option.splits)

lemma parse_announce_ints:
  assumes "parse_announce msg = Valido m"
  shows "in_s32 (an_puerto m) \<and> in_s32 (an_cpu m) \<and> in_s32 (an_mem m) \<and> in_s32 (an_gpu m)"
proof -
  obtain t2 ts p c g k where p: "sscanf t2 [D] = [VInt p]" "announce_loop ts 0 (-1) (-1) (-1) = Valido (c, g, k)"
    "m = \<lparr>an_puerto = p, an_cpu = c, an_mem = g, an_gpu = k\<rparr>"
    using assms by (auto simp: parse_announce_def Let_def split: list.splits if_splits sval.splits parsed.splits)
  have "in_s32 (-1)" by (simp add: in_s32_def)
  with announce_loop_ints [OF p(2)] sscanf_in_s32 [OF p(1), of p] p(3) show ?thesis by simp
qed

lemma no_carry_ints [simp]: "no_carry ts \<Longrightarrow> list_all task_ints ts"
  by (auto simp: no_carry_def list_all_iff carries_def task_ints_def split: task.splits)

lemma message_ints: "message_tasks red c msg = Some ts \<Longrightarrow> list_all task_ints ts"
  using parse_reserve_ints [of msg] parse_job_id_ints [of "''GRANTED''" msg] parse_job_request_ints [of msg]
  by (auto simp: message_tasks_def map_option_case parse_granted_def task_ints_def carries_def
      split: if_splits parsed.splits option.splits)

section \<open>Tasks keep them\<close>

lemma ints_okD: "ints_ok s \<Longrightarrow> recurso_ints (recursos s r)" "ints_ok s \<Longrightarrow> tabla_all job_ints (tabla s)"
  by (simp_all add: ints_ok_def)

lemma upd_recurso_ints: "ints_ok s \<Longrightarrow> recurso_ints (f (recursos s r)) \<Longrightarrow> ints_ok (upd_recurso r f s)"
  by (simp add: ints_ok_def)

lemma tabla_ints: "ints_ok s \<Longrightarrow> tabla_all job_ints t \<Longrightarrow> ints_ok (s\<lparr>tabla := t\<rparr>)"
  by (simp add: ints_ok_def)

lemma queue_delete_ints: "in_s32 (q_amount c) \<Longrightarrow> in_s32 (q_amount (queue_delete P c))"
proof -
  have "in_s32 a \<Longrightarrow> in_s32 (snd (delete_loop P xs a))" for xs a
    by (induction xs arbitrary: a) (simp_all add: split_beta)
  then show "in_s32 (q_amount c) \<Longrightarrow> ?thesis" by (simp add: queue_delete_def split_beta)
qed

lemma reserve_ints:
  assumes "ints_ok s" "in_s32 n" "in_s32 j" "reserve_resource r n j c orig s = (res, s')"
  shows "ints_ok s'"
proof -
  note rec = ints_okD(1) [OF assms(1), of r]
  have "recurso_ints ((recursos s r)\<lparr>available_amount := s32 (available_amount (recursos s r) - n)\<rparr>)"
    "recurso_ints ((recursos s r)\<lparr>cola := snd (queue_enqueue (cola (recursos s r)) j n c m orig)\<rparr>)" for m
    using rec assms(2,3) by (simp_all add: recurso_ints_def queue_enqueue_def pending_ints_def)
  then show ?thesis using assms(1,4) upd_recurso_ints [OF assms(1)]
    by (auto simp: reserve_resource_def Let_def split_beta split: if_splits)
qed

lemma cambio_alloc_ints:
  assumes "ints_ok s" "tabla_jobs_cambio_alloc (tabla s) j c r = Some t"
  shows "tabla_all job_ints t"
  by (rule tabla_all_cambio_alloc [OF ints_okD(2) [OF assms(1)] assms(2)])
    (auto simp: job_ints_def intro!: list_all_update_first)

lemma confirm_ints:
  assumes "ints_ok s" "in_s32 j" "job_idx j = Some i"
  shows "ints_ok (s\<lparr>tabla := update_job (tabla s) i j (\<lambda>job. snd (job_confirmar job ip j))\<rparr>)"
proof (rule tabla_ints [OF assms(1) tabla_all_update [OF ints_okD(2) [OF assms(1)] assms(3)]])
  fix job
  assume job: "job_ints job"
  show "job_ints (snd (job_confirmar job ip j))"
  proof (cases "find (\<lambda>sal. o_ip sal = ip) (pendientes job)")
    case (Some sal)
    then have "in_s32 (o_amount sal)" using job by (auto simp: job_ints_def list_all_iff dest: find_SomeD)
    then show ?thesis using job Some assms(2)
      by (auto simp: job_confirmar_def job_ints_def crear_allocation_def list_all_iff dest: in_remove_firstD)
  qed (use job in \<open>simp add: job_confirmar_def\<close>)
qed

lemma exec_task_ints:
  assumes "task_ints t" "exec t s = Some (s', us)"
  shows "list_all task_ints us"
proof (cases t)
  case (TConfirm c j ip)
  then have "confirm_section c j ip s = Some (s', us)" using assms(2) by simp
  then show ?thesis by (rule confirm_section_list_all) (simp_all add: task_ints_def)
next
  case (TReserve r n j c)
  then show ?thesis using assms(2) by (auto simp: task_ints_def split: prod.splits result_t.splits)
next
  case (TGranted c j)
  then show ?thesis using assms by (auto simp: task_ints_def split: option.splits)
next
  case (TJob_begin red c m)
  then show ?thesis using assms by (auto simp: task_ints_def job_ints_def bind_eq_Some_conv split: if_splits)
next
  case (TJob_next red j c reqs job)
  then show ?thesis using assms
    by (auto simp: task_ints_def job_insert_section_def job_turn_tasks_def ask_remote_tasks_def job_ints_def requests_ints_def
        crear_outrequest_def bind_eq_Some_conv Let_def split: list.splits option.splits if_splits)
next
  case (TJob_reserve red j c q reqs job)
  then show ?thesis using assms
    by (auto simp: task_ints_def job_reserve_section_def job_ints_def requests_ints_def crear_allocation_def carries_def
        split: prod.splits if_splits)
next
  case (TJob_port red j c q reqs job)
  then show ?thesis using assms by (auto simp: task_ints_def)
next
  case (TJob_connect red j c q reqs job port)
  then show ?thesis using assms
    by (auto simp: task_ints_def job_connect_section_def job_ints_def requests_ints_def crear_outrequest_def
        split: prod.splits option.splits)
next
  case (TMessage red c msg)
  then show ?thesis using assms message_ints by (auto split: if_splits)
qed (rule no_carry_ints, rule exec_no_carry [OF assms(2)], simp_all add: carries_def)+

lemma reserve_nodos: "reserve_resource r n j c orig s = (res, s') \<Longrightarrow> tabla_nodos s' = tabla_nodos s"
  by (auto simp: reserve_resource_def Let_def split: if_splits prod.splits)

lemma upd_conn_nodos [simp]: "tabla_nodos (upd_conn c f s) = tabla_nodos s" "tabla_nodos (free_conn c s) = tabla_nodos s"
  by (simp_all add: upd_conn_def free_conn_def)

lemma exec_nodos:
  assumes "exec t s = Some (s', us)" "\<And>now ip msg. t \<noteq> TAnnounce now ip msg"
  shows "tabla_nodos s' = tabla_nodos s"
proof (cases t)
  case (TServe r)
  then have "serve_section r s = Some (s', us)" using assms(1) by simp
  then show ?thesis by (cases rule: serve_section_cases) auto
next
  case (TConfirm c j ip)
  then have "confirm_section c j ip s = Some (s', us)" using assms(1) by simp
  then show ?thesis by (cases rule: confirm_section_cases) auto
next
  case (TSend c d x)
  then show ?thesis using assms(1) send_message_frame(4) by auto
next
  case (TReady_send c msg)
  then show ?thesis using assms(1) send_message_frame(4) by (auto simp: bind_eq_Some_conv)
next
  case (TReserve r n j c)
  then show ?thesis using assms(1) reserve_nodos by (auto split: prod.splits)
next
  case (TJob_reserve red j c q reqs job)
  then show ?thesis using assms(1) reserve_nodos by (auto simp: job_reserve_section_def split: prod.splits)
next
  case (TJob_connect red j c q reqs job port)
  then show ?thesis using assms(1)
    by (auto simp: job_connect_section_def connect_remote_node_def split: prod.splits option.splits connect_result.splits if_splits)
next
  case (TReadable red ev b)
  then show ?thesis using assms(1)
    by (cases "heap s (ev_conn ev)"; cases "ctype (the (heap s (ev_conn ev)))") (auto simp: readable_section_def)
next
  case (TRead red ev b)
  then show ?thesis using assms(1)
    by (cases "ev_read ev") (auto simp: read_section_def bind_eq_Some_conv Let_def split: if_splits)
next
  case (TWritable ev b)
  then show ?thesis using assms(1)
    by (auto simp: writable_section_def bind_eq_Some_conv Let_def split: if_splits option.splits)
next
  case (TRearm c)
  then show ?thesis using assms(1) by (cases "heap s c") (auto simp: split_beta simp del: prod.collapse)
next
  case (TJob_next red j c reqs job)
  then show ?thesis using assms(1) by (auto simp: job_insert_section_def bind_eq_Some_conv Let_def split: list.splits)
next
  case (TAccept ty as)
  then show ?thesis using assms(1) by (auto split: list.splits option.splits)
next
  case (TExtract_conn c)
  then show ?thesis using assms(1) by (auto split: prod.splits)
qed (use assms in \<open>auto simp: bind_eq_Some_conv event_section_def Let_def split: option.splits if_splits\<close>)

lemma announce_ints:
  assumes "ints_ok s"
  shows "ints_ok (process_announce now ip msg s)"
proof (cases "parse_announce msg")
  case (Valido m)
  note p = parse_announce_ints [OF Valido]
  let ?t = "tabla_nodos s" and ?i = "hash_ip ip"
  have i: "?i < length ?t" using assms by (simp add: ints_ok_def)
  have nodes: "\<forall>e\<in>set (entries ?t). node_ints e" "\<forall>e\<in>set (?t ! ?i). node_ints e"
    using assms entries_Un_bucket [OF i] by (auto simp: ints_ok_def list_all_iff)
  have bucket: "\<forall>e\<in>set (entries (?t[?i := b])). node_ints e" if "\<forall>e\<in>set b. node_ints e" for b
    using set_entries_update [OF i, of b] nodes(1) that by auto
  let ?upd = "\<lambda>e. e\<lparr>puerto := an_puerto m, cpu_disp := an_cpu m, mem_disp := an_mem m, gpu_disp := an_gpu m, last_seen := now\<rparr>"
  have "list_all node_ints (update_first P ?upd (?t ! ?i))" for P
    by (rule list_all_update_first) (use nodes(2) p in \<open>simp_all add: list_all_iff node_ints_def\<close>)
  then have "\<forall>e\<in>set (update_first P ?upd (?t ! ?i)). node_ints e" for P by (simp only: list_all_iff)
  moreover have "node_ints \<lparr>ne_ip = strncpy_field 16 ip, puerto = an_puerto m, cpu_disp = an_cpu m, mem_disp = an_mem m,
      gpu_disp = an_gpu m, last_seen = now\<rparr>" using p by (simp add: node_ints_def)
  ultimately have "\<forall>e\<in>set (entries (tabla_nodos_insert_or_update now ip (an_puerto m) (an_cpu m) (an_mem m) (an_gpu m) ?t)). node_ints e"
    unfolding tabla_nodos_insert_or_update_def Let_def using nodes(2) by (split if_split, intro conjI impI bucket) simp_all
  then show ?thesis using assms Valido
    by (simp add: process_announce_def ints_ok_def list_all_iff tabla_nodos_insert_or_update_def Let_def)
qed (use assms in \<open>simp add: process_announce_def\<close>)

lemma exec_ints:
  assumes "ints_ok s" "task_ints t" "exec t s = Some (s', us)"
  shows "ints_ok s'"
proof (cases "\<exists>now ip msg. t = TAnnounce now ip msg")
  case True
  then show ?thesis using announce_ints [OF assms(1)] assms(3) by auto
next
  case no: False
  then have nodos: "tabla_nodos s' = tabla_nodos s" using exec_nodos [OF assms(3)] by blast
  show ?thesis
  proof (cases "neutral t")
    case True
    then show ?thesis using neutral_same [OF True assms(3)] nodos assms(1) by (simp add: ints_ok_def)
  next
    case False
    show ?thesis
    proof (cases t)
      case (TServe r)
      then have "serve_section r s = Some (s', us)" using assms(3) by simp
      then show ?thesis
      proof (cases rule: serve_section_cases)
        case (grant p resto t')
        let ?s = "upd_recurso r (\<lambda>x. x\<lparr>cola := resto, available_amount := s32 (available_amount x - pr_amount p)\<rparr>) s"
        have "ints_ok ?s" using ints_okD(1) [OF assms(1), of r] grant(1,2)
          by (intro upd_recurso_ints [OF assms(1)]) (simp add: recurso_ints_def)
        then show ?thesis using tabla_ints [OF _ cambio_alloc_ints [OF assms(1) grant(4)]] grant(5) by simp
      qed (use assms(1) in simp)
    next
      case (TConfirm c j ip)
      then have "confirm_section c j ip s = Some (s', us)" using assms(3) by simp
      then show ?thesis
        by (cases rule: confirm_section_cases) (use TConfirm assms confirm_ints in \<open>auto simp: task_ints_def\<close>)
    next
      case (TReserve r n j c)
      then show ?thesis using assms reserve_ints [OF assms(1)] by (auto simp: task_ints_def split: prod.splits)
    next
      case (TJob_reserve red j c q reqs job)
      then show ?thesis using assms reserve_ints [OF assms(1)]
        by (auto simp: task_ints_def requests_ints_def job_reserve_section_def split: prod.splits)
    next
      case (TRelease r n)
      have "recurso_ints ((recursos s r)\<lparr>available_amount := s32 (available_amount (recursos s r) + n)\<rparr>)"
        using ints_okD(1) [OF assms(1), of r] by (simp add: recurso_ints_def)
      then show ?thesis using TRelease assms(1,3) upd_recurso_ints [OF assms(1)] by (auto simp: Let_def split: if_splits)
    next
      case (TPurge_id r j)
      have "recurso_ints ((recursos s r)\<lparr>cola := queue_delete_by_job_id (cola (recursos s r)) j\<rparr>)"
        using ints_okD(1) [OF assms(1), of r] by (auto simp: recurso_ints_def queue_delete_by_job_id_def queue_delete_ints list_all_iff)
      then show ?thesis using TPurge_id assms(3) upd_recurso_ints [OF assms(1)] by auto
    next
      case (TPurge_conn r c)
      have "recurso_ints ((recursos s r)\<lparr>cola := queue_delete_by_conn (cola (recursos s r)) c\<rparr>)"
        using ints_okD(1) [OF assms(1), of r] by (auto simp: recurso_ints_def queue_delete_by_conn_def queue_delete_ints list_all_iff)
      then show ?thesis using TPurge_conn assms(3) upd_recurso_ints [OF assms(1)] by auto
    next
      case (TJob_next red j c reqs job)
      then show ?thesis using assms tabla_ints [OF assms(1)] tabla_all_insert [OF ints_okD(2) [OF assms(1)]]
        by (auto simp: task_ints_def job_insert_section_def bind_eq_Some_conv Let_def split: list.splits)
    next
      case (TExtract_conn c)
      have "job_ints job \<Longrightarrow> job_ints (drop_remote_allocs c job)" for job
        by (auto simp: job_ints_def drop_remote_allocs_def list_all_iff)
      then show ?thesis using TExtract_conn assms(3) tabla_ints [OF assms(1)] tabla_all_extract_conn(1) [OF ints_okD(2) [OF assms(1)]]
        by (auto split: prod.splits)
    next
      case (TRemove j b b')
      then show ?thesis using assms(3) tabla_ints [OF assms(1)] tabla_all_extract(1) [OF ints_okD(2) [OF assms(1)]]
        by (auto simp: bind_eq_Some_conv)
    next
      case (TJob_release j)
      then show ?thesis using assms(3) tabla_ints [OF assms(1)] tabla_all_extract(1) [OF ints_okD(2) [OF assms(1)]]
        by (auto simp: bind_eq_Some_conv)
    qed (use assms False in \<open>auto simp: neutral_def bind_eq_Some_conv\<close>)
  qed
qed

interpretation ints: task_invariant ok ints_ok task_ints for ok
proof unfold_locales
  show "ints_ok s' \<and> list_all task_ints us" if "ints_ok s" "task_ints t" "exec t s = Some (s', us)" for s t s' us
    using exec_ints [OF that] exec_task_ints [OF that(2,3)] by blast
  show "task_ints (TEvent red ev)" for red ev by (simp add: task_ints_def)
  show "ints_ok (broadcast_step now s)" if "ints_ok s" for now s
    using that by (auto simp: broadcast_step_def ints_ok_def tabla_nodos_purge_def list_all_iff entries_def)
qed

end
