(* ===== verification/Thread_Safety.thy ===== *)
theory Thread_Safety
  imports Thread_Types
begin

text \<open>
  What stays safe however the threads are interleaved. No task reads or writes beyond an
  array: the job ids in queues and tasks have a bucket, the buffers of every connection are
  within their arrays, the texts that are used as formats have no directive. A task can
  fault only because another thread freed the connection it uses or the entry of the table
  of connections whose address it compares, or because the pending request it found for a
  new connection has no message.
\<close>

section \<open>The invariant\<close>

text \<open>What is assumed of a read at the moment it is done.\<close>

definition reads_ok :: "event \<Rightarrow> agent \<Rightarrow> bool" where
  "reads_ok ev s = (case heap s (ev_conn ev) of None \<Rightarrow> True | Some k \<Rightarrow> read_result_ok k (ev_read ev))"

lemma unmarked_reads_ok [simp]: "unmarked reads_ok"
  by (auto simp: unmarked_def reads_ok_def read_result_ok_def split: option.splits read_result.splits)

definition msg_plain :: "string option \<Rightarrow> bool" where
  "msg_plain m = (case m of None \<Rightarrow> True | Some x \<Rightarrow> plain x)"

definition job_msgs :: "Job \<Rightarrow> bool" where
  "job_msgs job \<longleftrightarrow> list_all (\<lambda>req. msg_plain (o_msg req)) (pendientes job)"

definition arrays_ok :: "agent \<Rightarrow> bool" where
  "arrays_ok s \<longleftrightarrow> heap_ok s \<and> queues_ok s \<and> tabla_all job_msgs (tabla s)
     \<and> length (tabla_nodos s) = TAM_TABLA \<and> nodos_text_ok (tabla_nodos s)"

definition kernel_ok :: "event \<Rightarrow> bool" where
  "kernel_ok ev \<longleftrightarrow> (\<forall>k. write_result_ok k (ev_write ev k)) \<and> list_all (\<lambda>d. plain (fst d)) (ev_datagrams ev)"

definition job_safe :: "int \<Rightarrow> Job \<Rightarrow> bool" where
  "job_safe j job \<longleftrightarrow> job_valid j \<and> job_valid (j_job_id job) \<and> job_msgs job"

definition task_safe :: "task \<Rightarrow> bool" where
  "task_safe t = (case t of
      TReserve _ _ j _ \<Rightarrow> job_valid j
    | TRemove j _ _ \<Rightarrow> job_valid j
    | TGranted _ j \<Rightarrow> job_valid j
    | TConfirm _ j _ \<Rightarrow> job_valid j
    | TDenied j \<Rightarrow> job_valid j
    | TJob_begin _ _ m \<Rightarrow> job_valid (jr_job_id m)
    | TJob_next _ j _ _ job \<Rightarrow> job_safe j job
    | TJob_reserve _ j _ _ _ job \<Rightarrow> job_safe j job
    | TJob_port _ j _ _ _ job \<Rightarrow> job_safe j job
    | TJob_connect _ j _ _ _ job _ \<Rightarrow> job_safe j job
    | TJob_release j \<Rightarrow> job_valid j
    | TStatus _ j \<Rightarrow> job_valid j
    | TMessage _ _ msg \<Rightarrow> message_ok msg
    | TAnnounce _ ip _ \<Rightarrow> plain ip
    | TReady_send _ m \<Rightarrow> msg_plain m
    | TReadable _ ev _ \<Rightarrow> kernel_ok ev
    | TRead _ ev _ \<Rightarrow> kernel_ok ev
    | TLines _ _ buf \<Rightarrow> length buf < BUFF_SIZE \<and> list_all message_ok (fst (lines_of buf))
    | TWritable ev _ \<Rightarrow> kernel_ok ev
    | TEvent _ ev \<Rightarrow> kernel_ok ev
    | _ \<Rightarrow> True)"

text \<open>The connection a task uses through a pointer.\<close>

definition uses_conn :: "task \<Rightarrow> conn_ptr option" where
  "uses_conn t = (case t of TSend c _ _ \<Rightarrow> Some c | TMessage _ c _ \<Rightarrow> Some c | TReady_send c _ \<Rightarrow> Some c | TFree c \<Rightarrow> Some c
     | TReadable _ ev _ \<Rightarrow> Some (ev_conn ev) | TRead _ ev _ \<Rightarrow> Some (ev_conn ev) | TLines _ c _ \<Rightarrow> Some c
     | TWritable ev _ \<Rightarrow> Some (ev_conn ev) | TRearm c \<Rightarrow> Some c | TEvent _ ev \<Rightarrow> Some (ev_conn ev) | _ \<Rightarrow> None)"

section \<open>What makes a task fault\<close>

lemma arrays_okD:
  assumes "arrays_ok s"
  shows "heap_ok s" "queues_ok s" "tabla_all job_msgs (tabla s)" "length (tabla_nodos s) = TAM_TABLA" "nodos_text_ok (tabla_nodos s)"
  using assms by (simp_all add: arrays_ok_def)

lemma job_ops_valid:
  assumes "job_valid j"
  shows "tabla_jobs_cambio_alloc t j c r \<noteq> None" "tabla_jobs_extract_by_id t j \<noteq> None"
    "j_job_id job = j \<Longrightarrow> tabla_jobs_insertar_job t job \<noteq> None"
  using assms by (auto simp: job_valid_def tabla_jobs_cambio_alloc_def tabla_jobs_extract_by_id_def tabla_jobs_insertar_job_def
      split: option.splits)

lemmas job_lookups = buscar_map get_conn_map verificar_map

lemma message_tasks_Some: "message_ok msg \<Longrightarrow> message_tasks red c msg \<noteq> None"
  by (auto simp: message_tasks_def message_ok_def split: option.splits)

lemma serve_total:
  assumes "queues_ok s"
  shows "serve_section r s \<noteq> None"
proof (cases "queue_dequeue (cola (recursos s r))")
  case (Pair p resto)
  show ?thesis
  proof (cases p)
    case (Some q)
    then have "q \<in> set (queue s r)" using Pair by (cases "queue s r") (auto simp: queue_dequeue_def)
    then have "job_valid (pr_job_id q)" using assms by (auto simp: queues_ok_def)
    then obtain t where "tabla_jobs_cambio_alloc (tabla s) (pr_job_id q) (owner_conn q) r = Some t" "job_valid (pr_job_id q)"
      using job_ops_valid(1) by blast
    then show ?thesis using Pair Some by (auto simp: serve_section_def Let_def job_lookups)
  qed (use Pair in \<open>simp add: serve_section_def Let_def\<close>)
qed

lemma exec_faults:
  assumes "arrays_ok s" "task_safe t" "exec t s = None"
  shows "(\<exists>c. uses_conn t = Some c \<and> heap s c = None) \<or> (\<exists>c. t = TReady_send c None)
    \<or> (\<exists>c j ip. t = TConfirm c j ip \<and> \<lparr>ce_ip = ip, ce_conn = c\<rparr> \<notin> set (entries (conns s)))"
proof -
  note d = arrays_okD [OF assms(1)]
  show ?thesis
  proof (cases t)
    case (TServe r)
    then show ?thesis using assms(3) serve_total [OF d(2)] by simp
  next
    case (TConfirm c j ip)
    then show ?thesis using assms(2,3)
      by (auto simp: task_safe_def confirm_section_def job_lookups job_idx_bucket Let_def split: option.splits prod.splits if_splits)
  next
    case (TNodes c)
    then show ?thesis using assms(3) nodes_reply_plain [OF d(5)] by (simp add: plain_def format_no_args_id)
  next
    case (TMessage red c msg)
    then show ?thesis using assms(2,3) message_tasks_Some [of msg red c] by (auto simp: task_safe_def uses_conn_def split: if_splits)
  next
    case (TReady_send c m)
    then show ?thesis using assms(2,3)
      by (cases m) (auto simp: task_safe_def msg_plain_def uses_conn_def plain_def format_no_args_id send_message_def Let_def split: option.splits)
  next
    case (TSend c d x)
    then show ?thesis using assms(3) by (auto simp: uses_conn_def send_message_def Let_def split: option.splits)
  next
    case (TJob_next red j c reqs job)
    then show ?thesis using assms(2,3) job_ops_valid(3) [of "j_job_id job" job "tabla s"]
      by (auto simp: task_safe_def job_safe_def job_insert_section_def job_lookups Let_def split: list.splits option.splits)
  next
    case (TReadable red ev b)
    then show ?thesis using assms(3)
      by (cases "heap s (ev_conn ev)"; cases "ctype (the (heap s (ev_conn ev)))") (auto simp: uses_conn_def readable_section_def)
  next
    case (TRead red ev b)
    then show ?thesis using assms(3)
      by (cases "heap s (ev_conn ev)") (auto simp: uses_conn_def read_section_def Let_def split: read_result.splits if_splits)
  next
    case (TWritable ev b)
    then show ?thesis using assms(3)
      by (cases "heap s (ev_conn ev)") (auto simp: uses_conn_def writable_section_def Let_def split: if_splits)
  next
    case (TRemove j b b')
    then show ?thesis using assms(2,3) job_ops_valid(2) [of j "tabla s"] by (auto simp: task_safe_def)
  next
    case (TJob_release j)
    then show ?thesis using assms(2,3) job_ops_valid(2) [of j "tabla s"] by (auto simp: task_safe_def)
  next
    case (TRearm c)
    then show ?thesis using assms(3) by (cases "heap s c") (auto simp: uses_conn_def split: prod.splits)
  next
    case (TEvent red ev)
    then show ?thesis using assms(3) by (cases "heap s (ev_conn ev)") (auto simp: uses_conn_def event_section_def Let_def)
  qed (use assms(2,3) in \<open>auto simp: task_safe_def uses_conn_def job_lookups event_section_def Let_def
      split: option.splits prod.splits if_splits\<close>)
qed

section \<open>What a task leads to\<close>

lemma job_safe_new [simp]: "job_safe j \<lparr>j_job_id = i, j_conn = c, confirmadas = [], pendientes = []\<rparr> = (job_valid j \<and> job_valid i)"
  by (auto simp: job_safe_def job_msgs_def)

lemma job_safe_upd [simp]:
  "job_safe j (job\<lparr>confirmadas := as\<rparr>) = job_safe j job"
  "job_safe j (job\<lparr>pendientes := req # reqs\<rparr>) = (msg_plain (o_msg req) \<and> job_safe j (job\<lparr>pendientes := reqs\<rparr>))"
  by (auto simp: job_safe_def job_msgs_def)

lemma plain_snprintf: "plain m \<Longrightarrow> plain (snprintf n m)"
  by (auto simp: plain_def snprintf_def dest: in_set_takeD)

lemma reserve_text_plain: "plain (snprintf BUFF_SIZE (reserve_text j q))"
  unfolding reserve_text_def by (rule plain_reserve)

lemma safe_tasks [simp]:
  "list_all task_safe (limpiar_colas_por_id_tasks j)" "list_all task_safe (limpiar_colas_por_conn_tasks c)"
  "list_all task_safe (release_resource_tasks b r n)" "list_all task_safe (tabla_jobs_remove_tasks j b b') = job_valid j"
  "list_all task_safe (close_tasks c)"
  by (simp_all add: limpiar_colas_por_id_tasks_def limpiar_colas_por_conn_tasks_def with_recurso_def
      release_resource_tasks_def tabla_jobs_remove_tasks_def close_tasks_def process_disconnect_tasks_def task_safe_def)

lemma safe_allocs [simp]: "list_all task_safe (release_allocs_tasks b j as)" "list_all task_safe (job_release_tasks as)"
  by (induction as) (simp_all add: task_safe_def)

lemma safe_loops [simp]: "list_all task_safe (release_jobs_tasks js)" "list_all task_safe (abort_tasks j c job)"
  by (induction js) (simp_all add: abort_tasks_def task_safe_def)

lemma safe_ready:
  "list_all (\<lambda>req. msg_plain (o_msg req)) reqs \<Longrightarrow> list_all task_safe (ready_tasks c reqs)"
  by (induction reqs) (simp_all add: task_safe_def)

lemma copy_plain: "msg_plain (o_msg req) \<Longrightarrow> msg_plain (o_msg (copy_outrequest req))"
  by (cases "o_msg req") (simp_all add: msg_plain_def copy_outrequest_def crear_outrequest_def plain_snprintf)

lemma pendientes_plain:
  assumes "tabla_all job_msgs t"
  shows "list_all (\<lambda>req. msg_plain (o_msg req)) (tabla_jobs_get_pendientes_by_conn t c)"
proof -
  have "msg_plain (o_msg req)" if "job \<in> set (concat t)" "req \<in> set (pendientes job)" for job req
    using assms that by (auto simp: tabla_all_def list_all_iff job_msgs_def entries_def)
  then show ?thesis by (auto simp: tabla_jobs_get_pendientes_by_conn_def list_all_iff intro!: copy_plain)
qed

lemma read_fits:
  assumes "heap_ok s" "reads_ok ev s" "heap s (ev_conn ev) = Some k" "ev_read ev = Read bs"
  shows "length (read_buf k) + length bs < BUFF_SIZE" "list_all message_ok (fst (lines_of (read_buf k @ bs)))"
proof -
  have "conn_fit (g_epfd s) k" using assms(1,3) by (simp add: heap_ok_def)
  then show "length (read_buf k) + length bs < BUFF_SIZE" "list_all message_ok (fst (lines_of (read_buf k @ bs)))"
    using assms(2-4) by (auto simp: reads_ok_def read_result_ok_def conn_fit_def conn_ok_def)
qed

lemma safe_announces: "list_all (\<lambda>d. plain (fst d)) ds \<Longrightarrow> list_all task_safe (map (\<lambda>(ip, bs). TAnnounce now ip (f bs)) ds)"
  by (induction ds) (auto simp: task_safe_def)

lemma message_okD:
  assumes "message_ok msg"
  shows "parse_reserve msg = Valido m \<Longrightarrow> job_valid (rm_job_id m)" "parse_release msg = Valido m \<Longrightarrow> job_valid (rm_job_id m)"
    "parse_granted msg = Valido g \<Longrightarrow> job_valid (gm_job_id g)" "parse_denied msg = Valido g \<Longrightarrow> job_valid (gm_job_id g)"
    "parse_job_release msg = Valido g \<Longrightarrow> job_valid (gm_job_id g)" "parse_job_status msg = Valido g \<Longrightarrow> job_valid (gm_job_id g)"
    "parse_job_timeout msg = Valido g \<Longrightarrow> job_valid (gm_job_id g)"
    "parse_job_request msg = Some (Valido q) \<Longrightarrow> job_valid (jr_job_id q)"
  using assms by (simp_all add: message_ok_def parsed_ok_def)

lemma safe_message:
  assumes "message_ok msg" "message_tasks red c msg = Some ts"
  shows "list_all task_safe ts"
  using assms(2) message_okD [OF assms(1)]
  by (auto simp: message_tasks_def task_safe_def map_option_case split: if_splits parsed.splits option.splits)

lemma exec_task_safe:
  assumes "arrays_ok s" "task_safe t" "permits reads_ok t s" "exec t s = Some (s', us)"
  shows "list_all task_safe us"
proof -
  note d = arrays_okD [OF assms(1)]
  show ?thesis
  proof (cases t)
    case (TServe r)
    then have "serve_section r s = Some (s', us)" using assms(4) by simp
    then show ?thesis by (cases rule: serve_section_cases) (auto simp: task_safe_def)
  next
    case (TConfirm c j ip)
    then have "confirm_section c j ip s = Some (s', us)" using assms(4) by simp
    then show ?thesis by (rule confirm_section_list_all) (simp_all add: task_safe_def)
  next
    case (TReserve r n j c)
    then show ?thesis using assms(4) by (auto simp: task_safe_def split: prod.splits result_t.splits)
  next
    case (TJob_next red j c reqs job)
    then show ?thesis using assms(2,4)
      by (auto simp: task_safe_def job_insert_section_def job_turn_tasks_def ask_remote_tasks_def crear_outrequest_def msg_plain_def
          bind_eq_Some_conv Let_def split: list.splits option.splits if_splits)
  next
    case (TJob_reserve red j c q reqs job)
    then show ?thesis using assms(2,4) by (auto simp: task_safe_def job_reserve_section_def split: prod.splits if_splits)
  next
    case (TJob_connect red j c q reqs job port)
    then show ?thesis using assms(2,4) plain_snprintf [OF reserve_text_plain]
      by (auto simp: task_safe_def job_connect_section_def crear_outrequest_def msg_plain_def split: prod.splits option.splits)
  next
    case (TMessage red c msg)
    then show ?thesis using assms(2,4) safe_message by (auto simp: task_safe_def split: if_splits)
  next
    case (TReady c)
    have "list_all (\<lambda>req. msg_plain (o_msg req)) (tabla_jobs_get_pendientes_by_conn (tabla s) c)" by (rule pendientes_plain [OF d(3)])
    then show ?thesis using TReady assms(4) safe_ready by (auto simp: task_safe_def)
  next
    case (TReadable red ev b)
    then show ?thesis using assms(2,4) safe_announces
      by (cases "heap s (ev_conn ev)"; cases "ctype (the (heap s (ev_conn ev)))")
        (auto simp: task_safe_def kernel_ok_def readable_section_def)
  next
    case (TRead red ev b)
    then show ?thesis using assms(2,3,4) read_fits [OF d(1), of ev]
      by (cases "ev_read ev") (auto simp: task_safe_def permits_def read_section_def bind_eq_Some_conv Let_def split: if_splits)
  next
    case (TLines red c buf)
    then show ?thesis using assms(2,4) lines_of_Some [of buf]
      by (auto simp: task_safe_def split: option.splits if_splits dest: next_line_shorter)
  next
    case (TWritable ev b)
    then show ?thesis using assms(2,4)
      by (auto simp: task_safe_def writable_section_def bind_eq_Some_conv Let_def split: if_splits option.splits)
  next
    case (TEvent red ev)
    then show ?thesis using assms(2,4) by (auto simp: task_safe_def event_section_def bind_eq_Some_conv Let_def split: if_splits)
  next
    case (TRearm c)
    then show ?thesis using assms(4) by (cases "heap s c") (auto simp: task_safe_def split: prod.splits if_splits)
  next
    case (TExtract_conn c)
    then show ?thesis using assms(4) by (auto simp: task_safe_def split: prod.splits)
  qed (use assms(2,4) in \<open>auto simp: task_safe_def bind_eq_Some_conv Let_def split: option.splits if_splits list.splits\<close>)
qed

section \<open>Tasks keep the invariant\<close>

lemma upd_conn_heap_ok:
  "heap_ok s \<Longrightarrow> (\<And>k. heap s c = Some k \<Longrightarrow> conn_fit (g_epfd s) (f k)) \<Longrightarrow> heap_ok (upd_conn c f s)"
  by (auto simp: heap_ok_def upd_conn_def split: option.splits)

lemma heap_okD: "heap_ok s \<Longrightarrow> heap s c = Some k \<Longrightarrow> conn_fit (g_epfd s) k"
  by (simp add: heap_ok_def)

lemma tcp_write_fit: "conn_fit ep k \<Longrightarrow> write_result_ok k res \<Longrightarrow> tcp_write res k = Some k' \<Longrightarrow> conn_fit ep k'"
  using tcp_write_ok [of k res k']
  by (auto simp: conn_fit_def wakeup_ok_def tcp_write_def Let_def split: write_result.splits if_splits)

lemma rearm_fit: "conn_fit ep k \<Longrightarrow> conn_fit ep (snd (rearm_conn ep k))"
  by (auto simp: conn_fit_def wakeup_ok_def conn_ok_def rearm_conn_def Let_def)

lemma mark_fit: "conn_fit ep k \<Longrightarrow> conn_fit ep (k\<lparr>in_handler := True\<rparr>)"
  by (simp add: conn_fit_def conn_ok_def wakeup_ok_def)

lemma send_heap_ok: "heap_ok s \<Longrightarrow> send_message c d x s = Some s' \<Longrightarrow> heap_ok s'"
  by (auto simp: heap_ok_def send_message_def Let_def enqueue_write_fit split: option.splits if_splits)

lemma exec_heap_ok:
  assumes "heap_ok s" "task_safe t" "permits reads_ok t s" "exec t s = Some (s', us)"
  shows "heap_ok s'"
proof (cases t)
  case (TSend c d x)
  then show ?thesis using assms(1,4) send_heap_ok by auto
next
  case (TReady_send c m)
  then show ?thesis using assms(1,4) send_heap_ok by (auto simp: bind_eq_Some_conv)
next
  case (TRead red ev b)
  then show ?thesis using assms read_fits(1) [OF assms(1), of ev]
    by (cases "ev_read ev") (auto simp: permits_def read_section_def bind_eq_Some_conv Let_def
        intro!: upd_conn_heap_ok conn_fit_read_buf dest: heap_okD split: if_splits)
next
  case (TLines red c buf)
  then show ?thesis using assms
    by (auto simp: task_safe_def intro!: upd_conn_heap_ok conn_fit_read_buf dest: heap_okD split: option.splits if_splits)
next
  case (TWritable ev b)
  then show ?thesis using assms
    by (auto simp: task_safe_def kernel_ok_def writable_section_def bind_eq_Some_conv Let_def
        intro!: upd_conn_heap_ok dest: heap_okD tcp_write_fit split: if_splits option.splits)
next
  case (TRearm c)
  then obtain k where k: "heap s c = Some k" "s' = upd_conn c (\<lambda>_. snd (rearm_conn (g_epfd s) k)) s"
    using assms(4) by (cases "heap s c") (simp_all add: split_beta)
  have "conn_fit (g_epfd s) (snd (rearm_conn (g_epfd s) k))" by (rule rearm_fit [OF heap_okD [OF assms(1) k(1)]])
  then show ?thesis unfolding k(2) by (intro upd_conn_heap_ok [OF assms(1)])
next
  case (TEvent red ev)
  then show ?thesis using assms(1,4)
    by (auto simp: event_section_def bind_eq_Some_conv Let_def intro!: upd_conn_heap_ok mark_fit dest: heap_okD)
next
  case (TServe r)
  then have "serve_section r s = Some (s', us)" using assms(4) by simp
  then show ?thesis by (cases rule: serve_section_cases) (use assms(1) in \<open>auto simp: heap_ok_def\<close>)
next
  case (TConfirm c j ip)
  then have "confirm_section c j ip s = Some (s', us)" using assms(4) by simp
  then show ?thesis by (cases rule: confirm_section_cases) (use assms(1) in \<open>auto simp: heap_ok_def\<close>)
next
  case (TReadable red ev b)
  then show ?thesis using assms(1,4)
    by (cases "heap s (ev_conn ev)"; cases "ctype (the (heap s (ev_conn ev)))") (auto simp: readable_section_def)
next
  case (TReserve r n j c)
  then show ?thesis using assms(1,4) by (auto simp: heap_ok_def reserve_resource_def Let_def split: prod.splits if_splits)
next
  case (TJob_reserve red j c q reqs job)
  then show ?thesis using assms(1,4)
    by (auto simp: heap_ok_def job_reserve_section_def reserve_resource_def Let_def split: prod.splits if_splits)
next
  case (TJob_connect red j c q reqs job port)
  then show ?thesis using assms(1,4)
    by (auto simp: heap_ok_def job_connect_section_def connect_remote_node_def
        split: prod.splits option.splits connect_result.splits if_splits)
next
  case (TAccept ty as)
  then show ?thesis using assms(1,4) by (auto simp: heap_ok_def split: list.splits option.splits if_splits)
next
  case (TJob_next red j c reqs job)
  then show ?thesis using assms(1,4)
    by (auto simp: heap_ok_def job_insert_section_def bind_eq_Some_conv Let_def split: list.splits)
next
  case (TAnnounce now ip msg)
  then show ?thesis using assms(1,4) by (auto simp: heap_ok_def process_announce_def split: parsed.splits)
qed (use assms(1,4) in \<open>auto simp: heap_ok_def free_conn_def bind_eq_Some_conv Let_def split: prod.splits if_splits\<close>)

text \<open>Queues: only reserving adds a request.\<close>

definition queues_within :: "int set \<Rightarrow> agent \<Rightarrow> agent \<Rightarrow> bool" where
  "queues_within js s s' \<longleftrightarrow> (\<forall>r. \<forall>p\<in>set (queue s' r). pr_job_id p \<in> js \<or> p \<in> set (queue s r))"

lemma queues_within_ok: "queues_ok s \<Longrightarrow> queues_within js s s' \<Longrightarrow> \<forall>j\<in>js. job_valid j \<Longrightarrow> queues_ok s'"
  unfolding queues_ok_def queues_within_def by blast

lemma reserve_within: "reserve_resource r n j c orig s = (res, s') \<Longrightarrow> queues_within {j} s s'"
  by (auto simp: queues_within_def reserve_resource_def queue_enqueue_def Let_def split: if_splits prod.splits)

lemma exec_queues_ok:
  assumes "queues_ok s" "task_safe t" "exec t s = Some (s', us)"
  shows "queues_ok s'"
proof (cases "neutral t")
  case True
  then show ?thesis using neutral_same(2) [OF True assms(3)] assms(1) by (simp add: queues_ok_def)
next
  case False
  show ?thesis
  proof (cases t)
    case (TServe r)
    then have "serve_section r s = Some (s', us)" using assms(3) by simp
    then have "queues_within {} s s'" by (cases rule: serve_section_cases) (auto simp: queues_within_def)
    then show ?thesis using queues_within_ok [OF assms(1)] by blast
  next
    case (TConfirm c j ip)
    then have "confirm_section c j ip s = Some (s', us)" using assms(3) by simp
    then show ?thesis by (cases rule: confirm_section_cases) (use assms(1) in \<open>auto simp: queues_ok_def\<close>)
  next
    case (TReserve r n j c)
    then show ?thesis using assms queues_within_ok [OF assms(1) reserve_within]
      by (auto simp: task_safe_def split: prod.splits)
  next
    case (TJob_reserve red j c q reqs job)
    then show ?thesis using assms queues_within_ok [OF assms(1) reserve_within]
      by (auto simp: task_safe_def job_safe_def job_reserve_section_def split: prod.splits)
  next
    case (TPurge_id r j)
    then show ?thesis using assms(1,3) by (auto simp: queues_ok_def queue_delete_by_job_id_def split: if_splits)
  next
    case (TPurge_conn r c)
    then show ?thesis using assms(1,3) by (auto simp: queues_ok_def queue_delete_by_conn_def split: if_splits)
  next
    case (TJob_next red j c reqs job)
    then show ?thesis using assms(1,3)
      by (auto simp: queues_ok_def job_insert_section_def bind_eq_Some_conv Let_def split: list.splits)
  qed (use assms(1,3) False in \<open>auto simp: queues_ok_def neutral_def bind_eq_Some_conv Let_def split: prod.splits if_splits\<close>)
qed

text \<open>The job table.\<close>

lemma job_msgs_keep:
  "job_msgs job \<Longrightarrow> job_msgs (snd (job_confirmar job ip j))" "job_msgs job \<Longrightarrow> job_msgs (drop_remote_allocs c job)"
  "job_msgs (job\<lparr>confirmadas := as\<rparr>) = job_msgs job"
  by (auto simp: job_msgs_def job_confirmar_def drop_remote_allocs_def list_all_iff dest: in_remove_firstD split: option.splits)

lemma exec_msgs:
  assumes "tabla_all job_msgs (tabla s)" "task_safe t" "exec t s = Some (s', us)"
  shows "tabla_all job_msgs (tabla s')"
proof (cases "neutral t")
  case True
  then show ?thesis using neutral_same(1) [OF True assms(3)] assms(1) by simp
next
  case False
  have res: "tabla s1 = tabla s" if "reserve_resource r n j c orig s = (x, s1)" for r n j c orig x s1
    using that by (auto simp: reserve_resource_def Let_def split: if_splits prod.splits)
  show ?thesis
  proof (cases t)
    case (TServe r)
    then have "serve_section r s = Some (s', us)" using assms(3) by simp
    then show ?thesis
    proof (cases rule: serve_section_cases)
      case (grant p resto t')
      then show ?thesis using tabla_all_cambio_alloc [OF assms(1) grant(4)] by (simp add: job_msgs_keep(3))
    qed (use assms(1) in simp)
  next
    case (TConfirm c j ip)
    then have "confirm_section c j ip s = Some (s', us)" using assms(3) by simp
    then show ?thesis
      by (cases rule: confirm_section_cases) (use tabla_all_update [OF assms(1)] job_msgs_keep(1) assms(1) in auto)
  next
    case (TJob_next red j c reqs job)
    then show ?thesis using assms tabla_all_insert [OF assms(1)]
      by (auto simp: task_safe_def job_safe_def job_insert_section_def bind_eq_Some_conv Let_def split: list.splits)
  next
    case (TExtract_conn c)
    then show ?thesis using assms(3) tabla_all_extract_conn(1) [OF assms(1)] job_msgs_keep(2) by (auto split: prod.splits)
  next
    case (TRemove j b b')
    then show ?thesis using assms(3) tabla_all_extract(1) [OF assms(1)] by (auto simp: bind_eq_Some_conv)
  next
    case (TJob_release j)
    then show ?thesis using assms(3) tabla_all_extract(1) [OF assms(1)] by (auto simp: bind_eq_Some_conv)
  qed (use assms(1,3) False res in \<open>auto simp: neutral_def bind_eq_Some_conv Let_def job_reserve_section_def
      split: prod.splits if_splits\<close>)
qed

text \<open>The node table.\<close>

lemma announce_plain:
  assumes "length (tabla_nodos s) = TAM_TABLA" "nodos_text_ok (tabla_nodos s)" "plain ip"
  shows "length (tabla_nodos (process_announce now ip msg s)) = TAM_TABLA \<and> nodos_text_ok (tabla_nodos (process_announce now ip msg s))"
proof (cases "parse_announce msg")
  case (Valido m)
  let ?t = "tabla_nodos s" and ?i = "hash_ip ip"
  have i: "?i < length ?t" using assms(1) by simp
  have nodes: "\<forall>e\<in>set (?t ! ?i). plain (ne_ip e)" "\<forall>e\<in>set (entries ?t). plain (ne_ip e)"
    using assms(2) entries_Un_bucket [OF i] by (auto simp: nodos_text_ok_def)
  have bucket: "nodos_text_ok (?t[?i := b])" if "\<forall>e\<in>set b. plain (ne_ip e)" for b
    unfolding nodos_text_ok_def using set_entries_update [OF i, of b] nodes(2) that by auto
  have "plain (strncpy_field 16 ip)" using assms(3) by (auto simp: plain_def strncpy_field_def dest: in_set_takeD)
  then have "nodos_text_ok (tabla_nodos_insert_or_update now ip (an_puerto m) (an_cpu m) (an_mem m) (an_gpu m) ?t)"
    unfolding tabla_nodos_insert_or_update_def Let_def using nodes(1)
    by (split if_split, intro conjI impI bucket) (auto dest!: set_update_first)
  then show ?thesis using assms(1) Valido by (simp add: process_announce_def tabla_nodos_insert_or_update_def Let_def)
qed (use assms in \<open>simp add: process_announce_def\<close>)

lemma exec_nodos_text:
  assumes "length (tabla_nodos s) = TAM_TABLA" "nodos_text_ok (tabla_nodos s)" "task_safe t" "exec t s = Some (s', us)"
  shows "length (tabla_nodos s') = TAM_TABLA \<and> nodos_text_ok (tabla_nodos s')"
proof (cases "\<exists>now ip msg. t = TAnnounce now ip msg")
  case True
  then show ?thesis using announce_plain [OF assms(1,2)] assms(3,4) by (auto simp: task_safe_def)
next
  case False
  then show ?thesis using exec_nodos [OF assms(4)] assms(1,2) by auto
qed

interpretation arrays: task_invariant reads_ok arrays_ok task_safe
proof unfold_locales
  show "arrays_ok s' \<and> list_all task_safe us"
    if "arrays_ok s" "task_safe t" "permits reads_ok t s" "exec t s = Some (s', us)" for s t s' us
  proof -
    note d = arrays_okD [OF that(1)]
    show ?thesis
      using exec_heap_ok [OF d(1) that(2-4)] exec_queues_ok [OF d(2) that(2,4)] exec_msgs [OF d(3) that(2,4)]
        exec_nodos_text [OF d(4,5) that(2,4)] exec_task_safe [OF that] by (simp add: arrays_ok_def)
  qed
  show "task_safe (TEvent red ev)" if "event_ok ev s" for red ev s
    using that by (auto simp: task_safe_def kernel_ok_def event_ok_def list_all_iff)
  show "arrays_ok (broadcast_step now s)" if "arrays_ok s" for now s
    using arrays_okD [OF that] by (auto simp: broadcast_step_def arrays_ok_def heap_ok_def queues_ok_def nodos_text_ok_def
        tabla_nodos_purge_def set_entries_map) (auto simp: entries_def)
qed

end
