(* ===== verification/Thread_Jobs.thy ===== *)
theory Thread_Jobs
  imports Thread_Bounds
begin

text \<open>
  The job table under every interleaving: JOB_REQUEST looks the id up and enters the job at
  its end, many tasks later, but holds \<open>tabla.lock\<close> in between, so that no other thread
  enters the same id. The invariant says of every thread that is about to enter a job that
  the id is free; it is kept because only a thread that holds the lock changes the table.
\<close>

section \<open>Threads that are about to enter a job\<close>

definition job_of :: "task \<Rightarrow> int option" where
  "job_of t = (case t of TJob_next _ j _ _ _ \<Rightarrow> Some j | TJob_reserve _ j _ _ _ _ \<Rightarrow> Some j | TJob_port _ j _ _ _ _ \<Rightarrow> Some j
     | TJob_connect _ j _ _ _ _ _ \<Rightarrow> Some j | _ \<Rightarrow> None)"

definition job_named :: "task \<Rightarrow> bool" where
  "job_named t = (case t of TJob_next _ j _ _ job \<Rightarrow> j_job_id job = j | TJob_reserve _ j _ _ _ job \<Rightarrow> j_job_id job = j
     | TJob_port _ j _ _ _ job \<Rightarrow> j_job_id job = j | TJob_connect _ j _ _ _ job _ \<Rightarrow> j_job_id job = j | _ \<Rightarrow> True)"

definition no_jobs :: "task list \<Rightarrow> bool" where
  "no_jobs ts \<longleftrightarrow> list_all (\<lambda>t. job_of t = None) ts"

text \<open>What the code does between two tasks of the loop over the requests.\<close>

definition skips :: "task \<Rightarrow> bool" where
  "skips t \<longleftrightarrow> (\<exists>c d x. t = TSend c d x) \<or> (\<exists>r. t = TLock (RecursoMutex r) \<or> t = TUnlock (RecursoMutex r))"

fun owed :: "task list \<Rightarrow> int option" where
  "owed [] = None"
| "owed (t # ts) = (if skips t then owed ts else job_of t)"

fun placed :: "task list \<Rightarrow> bool" where
  "placed [] = True"
| "placed (t # ts) = (if skips t then placed ts else no_jobs ts)"

lemma no_jobs_simps [simp]: "no_jobs []" "no_jobs (t # ts) = (job_of t = None \<and> no_jobs ts)" "no_jobs (ts @ us) = (no_jobs ts \<and> no_jobs us)"
  by (simp_all add: no_jobs_def)

lemma no_jobs_placed: "no_jobs ts \<Longrightarrow> placed ts \<and> owed ts = None"
  by (induction ts) auto

lemma placed_append: "list_all skips pre \<Longrightarrow> \<not> skips u \<Longrightarrow> no_jobs ts \<Longrightarrow> placed (pre @ u # ts) \<and> owed (pre @ u # ts) = job_of u"
  by (induction pre) auto

lemma job_of_skips: "job_of t = Some j \<Longrightarrow> \<not> skips t"
  by (auto simp: job_of_def skips_def)

lemma skips_named: "skips t \<Longrightarrow> job_named t"
  by (auto simp: job_named_def skips_def)

lemma owed_held: "stack_after ts h = Some [] \<Longrightarrow> owed ts = Some j \<Longrightarrow> TablaLock \<in> set h"
proof (induction ts arbitrary: h)
  case (Cons t ts)
  obtain h' where h': "locks_after t h = Some h'" "stack_after ts h' = Some []"
    using bind_SomeD [OF Cons.prems(1) [unfolded stack_after.simps]] by blast
  show ?case
  proof (cases "skips t")
    case True
    then have "TablaLock \<in> set h'" using Cons.IH [OF h'(2)] Cons.prems(2) by simp
    then show ?thesis using True h'(1) by (auto simp: skips_def split: if_splits list.splits)
  next
    case False
    then have "job_of t = Some j" using Cons.prems(2) by simp
    then show ?thesis using h'(1) by (auto simp: job_of_def split: task.splits)
  qed
qed simp

section \<open>What a task does to the jobs about to be entered\<close>

lemma no_carry_jobs [simp]: "no_carry ts \<Longrightarrow> no_jobs ts"
  by (auto simp: no_carry_def no_jobs_def list_all_iff carries_def job_of_def split: task.splits)

lemma no_jobs_message: "message_tasks red c msg = Some ts \<Longrightarrow> no_jobs ts"
  by (auto simp: message_tasks_def map_option_case job_of_def split: if_splits parsed.splits option.splits)

text \<open>A task leads to one that is to enter a job only for the job it is to enter itself, or when it has found the id free.\<close>

definition leads :: "task \<Rightarrow> agent \<Rightarrow> task list \<Rightarrow> bool" where
  "leads t s us \<longleftrightarrow> (\<exists>pre u j. us = pre @ [u] \<and> list_all skips pre \<and> job_of u = Some j \<and> job_named u
     \<and> (job_of t = Some j \<or> tabla_jobs_buscar_por_id (tabla s) j = Some None))"

lemma leadsI:
  assumes "job_of u = Some j" "job_named u" "job_of t = Some j \<or> tabla_jobs_buscar_por_id (tabla s) j = Some None"
  shows "leads t s [u]" "skips v \<Longrightarrow> leads t s [v, u]"
proof -
  have "leads t s ([] @ [u])" unfolding leads_def using assms by (intro exI [of _ "[]"] exI [of _ u] exI [of _ j]) simp
  then show "leads t s [u]" by simp
  show "leads t s [v, u]" if "skips v"
    unfolding leads_def using assms that by (intro exI [of _ "[v]"] exI [of _ u] exI [of _ j]) simp
qed

lemma exec_leads:
  assumes "exec t s = Some (s', us)" "job_named t"
  shows "no_jobs us \<or> leads t s us \<and> tabla s' = tabla s"
proof -
  note defs = job_of_def job_named_def skips_def
  show ?thesis
  proof (cases t)
    case (TJob_begin red c m)
    then show ?thesis using assms(1)
      by (auto simp: bind_eq_Some_conv defs split: if_splits intro!: leadsI(1))
  next
    case (TJob_next red j c reqs job)
    show ?thesis
    proof (cases reqs)
      case Nil
      then show ?thesis using TJob_next assms(1) by (auto simp: job_insert_section_def bind_eq_Some_conv Let_def defs split: if_splits)
    next
      case (Cons q reqs')
      then have "us = job_turn_tasks red j c q reqs' job s" "s' = s" using TJob_next assms(1) by auto
      then show ?thesis using TJob_next assms(2)
        by (auto simp: job_turn_tasks_def ask_remote_tasks_def defs intro!: leadsI split: option.split)
    qed
  next
    case (TJob_reserve red j c q reqs job)
    obtain r s1 where r: "reserve_resource (rq_type q) (rq_amount q) j c ORIGIN_LOCAL s = (r, s1)" by fastforce
    then have "tabla s1 = tabla s" by (auto simp: reserve_resource_def Let_def split: if_splits prod.splits)
    then show ?thesis using TJob_reserve assms r
      by (auto simp: job_reserve_section_def defs intro!: leadsI split: if_splits)
  next
    case (TJob_port red j c q reqs job)
    then show ?thesis using assms by (auto simp: defs intro!: leadsI)
  next
    case (TJob_connect red j c q reqs job port)
    have "neutral t" using TJob_connect by (simp add: neutral_def)
    from neutral_same(1) [OF this assms(1)] show ?thesis using TJob_connect assms
      by (auto simp: job_connect_section_def defs intro!: leadsI split: prod.splits option.splits)
  next
    case (TConfirm c j ip)
    then have "confirm_section c j ip s = Some (s', us)" using assms(1) by simp
    then have "no_jobs us" unfolding no_jobs_def by (rule confirm_section_list_all) (simp_all add: job_of_def)
    then show ?thesis by simp
  next
    case (TMessage red c msg)
    then show ?thesis using assms(1) no_jobs_message by (auto split: if_splits)
  next
    case (TReserve r n j c)
    then show ?thesis using assms(1) by (auto simp: defs split: prod.splits result_t.splits)
  next
    case (TGranted c j)
    then show ?thesis using assms(1) by (auto simp: defs split: option.splits)
  qed (rule disjI1, rule no_carry_jobs, rule exec_no_carry [OF assms(1)], simp_all add: carries_def)+
qed

lemma exec_jobs_ok:
  assumes "jobs_ok (tabla s)" "job_named t" "\<And>j. job_of t = Some j \<Longrightarrow> jobs_map (tabla s) j = None" "exec t s = Some (s', us)"
  shows "jobs_ok (tabla s')"
proof (cases "neutral t")
  case True
  then show ?thesis using neutral_same(1) [OF True assms(4)] assms(1) by simp
next
  case False
  note valid = job_valid_def
  have res: "tabla s1 = tabla s" if "reserve_resource r n j c orig s = (x, s1)" for r n j c orig x s1
    using that by (auto simp: reserve_resource_def Let_def split: if_splits prod.splits)
  have ext: "jobs_ok t'" if "tabla_jobs_extract_by_id (tabla s) j = Some (res, t')" for j res t'
    using that extract_map [OF assms(1), of j]
    by (cases "job_valid j") (auto simp: valid tabla_jobs_extract_by_id_def)
  show ?thesis
  proof (cases t)
    case (TServe r)
    then have "serve_section r s = Some (s', us)" using assms(4) by simp
    then show ?thesis
    proof (cases rule: serve_section_cases)
      case (grant p resto t')
      have "job_valid (pr_job_id p)" using grant(4) by (auto simp: valid tabla_jobs_cambio_alloc_def split: option.splits)
      then show ?thesis using cambio_alloc_map [OF assms(1), of "pr_job_id p" "owner_conn p" r] grant(4,5) by auto
    qed (use assms(1) in simp)
  next
    case (TConfirm c j ip)
    then have "confirm_section c j ip s = Some (s', us)" using assms(4) by simp
    then show ?thesis
    proof (cases rule: confirm_section_cases)
      case (1 i)
      then have v: "job_valid j" by (simp add: valid)
      have "jobs_ok (update_job (tabla s) (job_bucket j) j (\<lambda>job. snd (job_confirmar job ip j)))"
        using update_job_map [OF assms(1) v, of "\<lambda>job. snd (job_confirmar job ip j)"]
          job_confirmar_le(1) [OF prod.collapse [symmetric]] by blast
      then show ?thesis using 1(4,5) job_idx_bucket [OF v] assms(1) by auto
    qed
  next
    case (TJob_next red j c reqs job)
    then have "jobs_map (tabla s) (j_job_id job) = None" using assms(2,3) by (simp add: job_of_def job_named_def)
    moreover have "job_valid (j_job_id job)" if "tabla_jobs_insertar_job (tabla s) job = Some t'" for t'
      using that by (auto simp: valid tabla_jobs_insertar_job_def split: option.splits)
    ultimately have "jobs_ok t'" if "tabla_jobs_insertar_job (tabla s) job = Some t'" for t'
      using that insertar_map [OF assms(1), of job] by auto
    then show ?thesis using TJob_next assms(1,4)
      by (auto simp: job_insert_section_def bind_eq_Some_conv Let_def split: list.splits)
  next
    case (TExtract_conn c)
    then show ?thesis using assms(4) extract_by_conn_ok [OF assms(1)] by (auto split: prod.splits)
  qed (use assms(1,4) False res ext in \<open>auto simp: neutral_def bind_eq_Some_conv Let_def job_reserve_section_def
      split: prod.splits if_splits\<close>)
qed

section \<open>The invariant\<close>

definition thread_jobs :: "TablaJobs \<Rightarrow> task list \<Rightarrow> bool" where
  "thread_jobs tb ts \<longleftrightarrow> list_all job_named ts \<and> placed ts \<and> (\<forall>j. owed ts = Some j \<longrightarrow> jobs_map tb j = None)"

definition jobs_inv :: "agent \<times> pool \<Rightarrow> bool" where
  "jobs_inv c \<longleftrightarrow> pool_ok (snd c) \<and> jobs_ok (tabla (fst c)) \<and> (\<forall>t\<in>set (snd c). thread_jobs (tabla (fst c)) (snd t))"

lemma no_jobs_named: "no_jobs ts \<Longrightarrow> list_all job_named ts"
  by (auto simp: no_jobs_def list_all_iff job_of_def job_named_def split: task.splits)

lemma thread_jobs_tl: "thread_jobs tb (t # ts) \<Longrightarrow> job_of t = None \<Longrightarrow> thread_jobs tb ts"
  using no_jobs_placed [of ts] by (auto simp: thread_jobs_def split: if_splits)

lemma exec_thread_jobs:
  assumes "thread_jobs (tabla s) (t # ts)" "exec t s = Some (s', us)" "\<not> is_lock t"
  shows "thread_jobs (tabla s') (us @ ts)"
proof (cases "skips t")
  case True
  then obtain c d x where t: "t = TSend c d x" using assms(3) by (auto simp: skips_def is_lock_def)
  then have "tabla s' = tabla s" "us = []" "job_of t = None"
    using neutral_same(1) [OF _ assms(2)] assms(2) by (auto simp: neutral_def job_of_def)
  then show ?thesis using thread_jobs_tl [OF assms(1)] by simp
next
  case False
  have named: "job_named t" "list_all job_named ts" and rest: "no_jobs ts"
    and free: "\<And>j. job_of t = Some j \<Longrightarrow> jobs_map (tabla s) j = None"
    using assms(1) False by (auto simp: thread_jobs_def)
  from exec_leads [OF assms(2) named(1)] show ?thesis
  proof
    assume "no_jobs us"
    then show ?thesis using rest no_jobs_placed [of "us @ ts"] no_jobs_named [of "us @ ts"] by (simp add: thread_jobs_def)
  next
    assume "leads t s us \<and> tabla s' = tabla s"
    then obtain pre u j where u: "us = pre @ [u]" "list_all skips pre" "job_of u = Some j" "job_named u"
      and j: "job_of t = Some j \<or> tabla_jobs_buscar_por_id (tabla s) j = Some None" and tb: "tabla s' = tabla s"
      by (auto simp only: leads_def)
    have "jobs_map (tabla s) j = None"
      using j free buscar_map [of j "tabla s"] by (metis jobs_map_def option.inject)
    moreover have "list_all job_named pre" using u(2) skips_named by (simp add: list_all_iff)
    ultimately show ?thesis
      using placed_append [OF u(2) job_of_skips [OF u(3)] rest] u tb named by (auto simp: thread_jobs_def)
  qed
qed

lemma distinct_concat_disjoint:
  "distinct (concat xs) \<Longrightarrow> i < length xs \<Longrightarrow> k < length xs \<Longrightarrow> i \<noteq> k \<Longrightarrow> set (xs ! i) \<inter> set (xs ! k) = {}"
proof (induction xs arbitrary: i k)
  case (Cons x xs)
  have "set x \<inter> set (xs ! m) = {}" if "m < length xs" for m
    using Cons.prems(1) nth_mem [OF that] by fastforce
  then show ?case using Cons by (cases i; cases k) auto
qed simp

lemma one_holder: "pool_ok ts \<Longrightarrow> i < length ts \<Longrightarrow> k < length ts \<Longrightarrow> i \<noteq> k \<Longrightarrow> set (fst (ts ! i)) \<inter> set (fst (ts ! k)) = {}"
  using distinct_concat_disjoint [of "map fst ts" i k] by (simp add: pool_ok_def)

lemma tabla_needs_lock:
  assumes "locks_after t h = Some h'" "TablaLock \<notin> set h" "exec t s = Some (s', us)"
  shows "tabla s' = tabla s"
proof -
  have "exec t s = framed (tabla_update (\<lambda>_. tabla s)) (exec t s)" using exec_tabla [OF assms(1,2), where s = s and x = "tabla s"] by simp
  from framed_same [OF this assms(3)] have "tabla (s'\<lparr>tabla := tabla s\<rparr>) = tabla s'" by simp
  then show ?thesis by simp
qed

lemma jobs_inv_update:
  assumes "jobs_inv (s, ts)" "i < length ts" "pool_ok (ts[i := (h, us)])" "jobs_ok (tabla s')" "thread_jobs (tabla s') us"
    and "\<And>k. k < length ts \<Longrightarrow> k \<noteq> i \<Longrightarrow> thread_jobs (tabla s') (snd (ts ! k))"
  shows "jobs_inv (s', ts[i := (h, us)])"
proof -
  have "thread_jobs (tabla s') (snd t)" if t: "t \<in> set (ts[i := (h, us)])" for t
  proof -
    obtain k where k: "k < length ts" "ts[i := (h, us)] ! k = t" using t unfolding in_set_conv_nth by auto
    show ?thesis using k assms(2,5) assms(6) [OF k(1)] by (cases "k = i") auto
  qed
  then show ?thesis using assms(3,4) by (simp add: jobs_inv_def)
qed

interpretation jobs_threads: step_invariant "cstep ok" jobs_inv for ok
proof
  fix c c' :: "agent \<times> pool"
  assume inv: "jobs_inv c" and step: "cstep ok c c'"
  obtain s ts where c: "c = (s, ts)" by fastforce
  note inv = inv [unfolded c]
  have pool: "pool_ok ts" and jobs: "jobs_ok (tabla s)" and threads: "\<And>k. k < length ts \<Longrightarrow> thread_jobs (tabla s) (snd (ts ! k))"
    using inv by (auto simp: jobs_inv_def)
  have pool': "pool_ok (snd c')" using locking.step_keeps [OF _ step] pool c by simp
  from step [unfolded c] show "jobs_inv c'"
  proof cases
    case (c_lock i h l us)
    have "thread_jobs (tabla s) us"
      using threads [OF c_lock(2)] c_lock(3) by (auto intro: thread_jobs_tl simp: job_of_def)
    with jobs_inv_update [OF inv c_lock(2) _ jobs this threads] show ?thesis using c_lock(1) pool' by simp
  next
    case (c_unlock i h l us)
    have "thread_jobs (tabla s) us"
      using threads [OF c_unlock(2)] c_unlock(3) by (auto intro: thread_jobs_tl simp: job_of_def)
    with jobs_inv_update [OF inv c_unlock(2) _ jobs this threads] show ?thesis using c_unlock(1) pool' by simp
  next
    case (c_task i h t us s' vs)
    have th: "thread_jobs (tabla s) (t # us)" using threads [OF c_task(2)] c_task(3) by simp
    obtain h' where h': "locks_after t h = Some h'"
      using bind_SomeD [OF pool_nth(1) [OF pool c_task(2,3), unfolded stack_after.simps]] by blast
    have "job_of t = Some j \<Longrightarrow> jobs_map (tabla s) j = None" for j
      using th job_of_skips [of t j] by (simp add: thread_jobs_def)
    then have ok: "jobs_ok (tabla s')"
      using exec_jobs_ok [OF jobs _ _ c_task(6)] th by (simp add: thread_jobs_def)
    have others: "thread_jobs (tabla s') (snd (ts ! k))" if k: "k < length ts" "k \<noteq> i" for k
    proof (cases "owed (snd (ts ! k))")
      case None
      then show ?thesis using threads [OF k(1)] by (simp add: thread_jobs_def)
    next
      case (Some j)
      have "TablaLock \<in> set (fst (ts ! k))"
        using owed_held [OF _ Some] pool_nth(1) [OF pool k(1) prod.collapse [symmetric]] by blast
      then have "TablaLock \<notin> set h" using one_holder [OF pool k(1) c_task(2) k(2)] c_task(3) by auto
      then have "tabla s' = tabla s" using tabla_needs_lock [OF h' _ c_task(6)] by blast
      then show ?thesis using threads [OF k(1)] by simp
    qed
    from jobs_inv_update [OF inv c_task(2) _ ok exec_thread_jobs [OF th c_task(6,4)] others] show ?thesis
      using c_task(1) pool' by simp
  next
    case (c_event i h red ev)
    have "thread_jobs (tabla s) [TEvent red ev]" by (simp add: thread_jobs_def job_named_def skips_def job_of_def)
    from jobs_inv_update [OF inv c_event(2) _ jobs this threads] show ?thesis using c_event(1) pool' by simp
  next
    case (c_broadcast now)
    then show ?thesis using inv by (simp add: jobs_inv_def broadcast_step_def)
  qed
qed

lemma jobs_inv_idle: "jobs_ok (tabla s) \<Longrightarrow> jobs_inv (s, idle n)"
  by (auto simp: jobs_inv_def pool_ok_idle) (auto simp: idle_def thread_jobs_def)

end
