(* ===== verification/Thread_Findings.thy ===== *)
theory Thread_Findings
  imports Example_Run Thread_Safety Thread_Jobs
begin

text \<open>
  Runs of two workers, given as schedules (lists of the threads that do their next task) and
  evaluated: the states the concrete instances of the theorems on threads use, and a run in
  which one worker frees a connection the other is about to use.
\<close>

section \<open>Events one after the other\<close>

definition event_fits :: "event \<Rightarrow> agent \<Rightarrow> bool" where
  "event_fits ev s = (case heap s (ev_conn ev) of None \<Rightarrow> False
     | Some k \<Rightarrow> read_result_ok k (ev_read ev) \<and> (ctype k = CONN_TCP_OUTGOING \<longrightarrow> \<not> ev_in ev))"

fun event_run :: "event list \<Rightarrow> agent \<Rightarrow> agent option" where
  "event_run [] s = Some s"
| "event_run (ev # evs) s = (if event_fits ev s then worker_event example_red ev s \<bind> event_run evs else None)"

definition answers_ok :: "event \<Rightarrow> bool" where
  "answers_ok ev \<longleftrightarrow> (\<forall>k. write_result_ok k (ev_write ev k)) \<and> list_all malloc_conn_ok (ev_accepts ev)
     \<and> list_all (\<lambda>d. ip_fits (fst d) \<and> plain (fst d)) (ev_datagrams ev)"

lemma event_fits_ok: "event_fits ev s \<Longrightarrow> answers_ok ev \<Longrightarrow> event_ok ev s \<and> reads_ok ev s"
  by (auto simp: event_fits_def answers_ok_def event_ok_def reads_ok_def split: option.splits)

lemma event_run_steps: "event_run evs s = Some s' \<Longrightarrow> list_all answers_ok evs \<Longrightarrow> (agent_step reads_ok)\<^sup>*\<^sup>* s s'"
proof (induction evs arbitrary: s)
  case (Cons ev evs)
  then obtain s1 where s1: "event_fits ev s" "worker_event example_red ev s = Some s1" "event_run evs s1 = Some s'"
    by (auto simp: bind_eq_Some_conv split: if_splits)
  then have "agent_step reads_ok s s1"
    using event_fits_ok [OF s1(1)] Cons.prems(2) example_fresh(2) by (auto intro: step_event)
  with Cons.IH [OF s1(3)] Cons.prems(2) show ?case by (simp add: converse_rtranclp_into_rtranclp)
qed simp

section \<open>Schedules\<close>

definition sched_step :: "nat \<Rightarrow> agent \<times> pool \<Rightarrow> (agent \<times> pool) option" where
  "sched_step i c = (case c of (s, ts) \<Rightarrow> if i < length ts then (case ts ! i of
      (h, []) \<Rightarrow> None
    | (h, t # us) \<Rightarrow> (case t of
          TLock l \<Rightarrow> if list_ex (\<lambda>t. l \<in> set (fst t)) ts then None else Some (s, ts[i := (l # h, us)])
        | TUnlock l \<Rightarrow> Some (s, ts[i := (remove1 l h, us)])
        | TRead red ev b \<Rightarrow> if reads_ok ev s then map_option (\<lambda>(s', vs). (s', ts[i := (h, vs @ us)])) (exec t s) else None
        | _ \<Rightarrow> map_option (\<lambda>(s', vs). (s', ts[i := (h, vs @ us)])) (exec t s))) else None)"

fun sched :: "nat list \<Rightarrow> agent \<times> pool \<Rightarrow> (agent \<times> pool) option" where
  "sched [] c = Some c"
| "sched (i # is) c = sched_step i c \<bind> sched is"

lemma sched_step_cstep:
  assumes "sched_step i (s, ts) = Some c"
  shows "cstep reads_ok (s, ts) c"
proof -
  obtain h t us where i: "i < length ts" "ts ! i = (h, t # us)"
    using assms by (auto simp: sched_step_def split: if_splits prod.splits list.splits)
  consider l where "t = TLock l" | l where "t = TUnlock l" | "\<not> is_lock t" by (auto simp: is_lock_def)
  then show ?thesis
  proof cases
    case (1 l)
    then have "\<forall>t\<in>set ts. l \<notin> set (fst t)" "c = (s, ts[i := (l # h, us)])"
      using assms i by (auto simp: sched_step_def list_ex_iff split: if_splits)
    then show ?thesis using cstep.c_lock [OF i(1) i(2) [unfolded 1]] by blast
  next
    case (2 l)
    then have "c = (s, ts[i := (remove1 l h, us)])" using assms i by (simp add: sched_step_def)
    then show ?thesis using cstep.c_unlock [OF i(1) i(2) [unfolded 2]] by blast
  next
    case 3
    then have "map_option (\<lambda>(s', vs). (s', ts[i := (h, vs @ us)])) (exec t s) = Some c \<and> permits reads_ok t s"
      using assms i by (cases t) (simp_all add: sched_step_def is_lock_def permits_def del: exec.simps split: if_splits)
    then obtain s' vs where "exec t s = Some (s', vs)" "c = (s', ts[i := (h, vs @ us)])" "permits reads_ok t s" by auto
    then show ?thesis using cstep.c_task [OF i 3] by simp
  qed
qed

lemma sched_csteps: "sched is c = Some c' \<Longrightarrow> (cstep reads_ok)\<^sup>*\<^sup>* c c'"
proof (induction "is" arbitrary: c)
  case (Cons i "is")
  then obtain c1 where c1: "sched_step i c = Some c1" "sched is c1 = Some c'" by (auto simp: bind_eq_Some_conv)
  have "cstep reads_ok c c1" using sched_step_cstep [of i "fst c" "snd c"] c1(1) by simp
  then show ?case using Cons.IH [OF c1(2)] by (rule converse_rtranclp_into_rtranclp)
qed simp

section \<open>Two workers\<close>

text \<open>
  The planner connects (connection 5), 10.0.0.2 announces itself, the planner asks for 2 of
  its CPUs and the connection to it (6) is established. Then the planner asks for another
  one while connection 6 fails: one worker takes the first event, another the second.
\<close>

definition race_line :: string where
  "race_line = ''JOB_REQUEST 8 @10.0.0.2:cpu:1''"

definition race_history :: "event list" where
  "race_history = [(example_event 2 [])\<lparr>ev_accepts := [example_accept 5]\<rparr>,
     (example_event 3 [])\<lparr>ev_datagrams := [(''10.0.0.2'', ''ANNOUNCE 9001 cpu:4 mem:8 gpu:0'')]\<rparr>,
     example_event 5 (''JOB_REQUEST 7 @10.0.0.2:cpu:2'' @ [NL]),
     (example_event 6 [])\<lparr>ev_in := False, ev_out := True\<rparr>]"

definition race_start :: "agent option" where
  "race_start = event_run race_history example_boot"

definition race_request :: event where
  "race_request = example_event 5 (race_line @ [NL])"

definition race_error :: event where
  "race_error = (example_event 6 [])\<lparr>ev_err := True, ev_in := False\<rparr>"

definition race_threads :: pool where
  "race_threads = [([], [TEvent example_red race_request]), ([], [TEvent example_red race_error])]"

lemma race_answers: "list_all answers_ok race_history" "answers_ok race_request" "answers_ok race_error"
proof -
  have "ip_fits ''10.0.0.2''" "plain ''10.0.0.2''" by code_simp+
  then show "list_all answers_ok race_history" "answers_ok race_request" "answers_ok race_error"
    by (simp_all add: answers_ok_def race_history_def race_request_def race_error_def example_event_def write_result_ok_def
        example_fresh(3))
qed

text \<open>What is evaluated of the state these events lead to.\<close>

lemma race_start_facts:
  "map_option (\<lambda>s. (event_fits race_request s, event_fits race_error s,
       worker_event example_red race_request s \<bind> worker_event example_red race_error = None,
       worker_event example_red race_error s \<bind> worker_event example_red race_request = None)) race_start
     = Some (True, True, False, False)"
  by code_simp

lemma race_start_reach: "\<exists>s. race_start = Some s \<and> (agent_step reads_ok)\<^sup>*\<^sup>* example_boot s"
proof -
  obtain s where s: "race_start = Some s" using race_start_facts by auto
  then show ?thesis using event_run_steps [OF _ race_answers(1)] by (auto simp: race_start_def)
qed

lemma race_taken:
  assumes "race_start = Some s"
  shows "(cstep reads_ok)\<^sup>*\<^sup>* (example_boot, idle 2) (s, race_threads)"
proof -
  have fits: "event_ok race_request s" "event_ok race_error s"
    using race_start_facts event_fits_ok race_answers(2,3) unfolding assms by auto
  have "(agent_step reads_ok)\<^sup>*\<^sup>* example_boot s" using race_start_reach unfolding assms by simp
  from agent_run_csteps [OF this, of 1] have "(cstep reads_ok)\<^sup>*\<^sup>* (example_boot, idle 2) (s, idle 2)" by (simp add: numeral_2_eq_2)
  moreover have "cstep reads_ok (s, idle 2) (s, (idle 2)[0 := ([], [TEvent example_red race_request])])"
    by (rule cstep.c_event) (simp_all add: idle_def example_fresh(2) fits(1))
  moreover have "cstep reads_ok (s, (idle 2)[0 := ([], [TEvent example_red race_request])])
      (s, (idle 2)[0 := ([], [TEvent example_red race_request]), 1 := ([], [TEvent example_red race_error])])"
    by (rule cstep.c_event) (simp_all add: idle_def example_fresh(2) fits(2))
  ultimately show ?thesis by (simp add: idle_def race_threads_def numeral_2_eq_2)
qed

definition race_run :: "nat list \<Rightarrow> (agent \<times> pool) option" where
  "race_run is = race_start \<bind> (\<lambda>s. sched is (s, race_threads))"

lemma race_run_reach:
  assumes "race_run is = Some c"
  shows "(cstep reads_ok)\<^sup>*\<^sup>* (example_boot, idle 2) c"
proof -
  obtain s where s: "race_start = Some s" "sched is (s, race_threads) = Some c"
    using assms by (auto simp: race_run_def bind_eq_Some_conv)
  show ?thesis using race_taken [OF s(1)] sched_csteps [OF s(2)] by (rule rtranclp_trans)
qed

lemma race_run_state:
  assumes "map_option f (race_run is) = Some v"
  shows "\<exists>s ts. race_run is = Some (s, ts) \<and> (cstep reads_ok)\<^sup>*\<^sup>* (example_boot, idle 2) (s, ts) \<and> f (s, ts) = v"
  using assms race_run_reach by fastforce

section \<open>A connection is freed while another worker uses it\<close>

definition race_schedule :: "nat list" where
  "race_schedule = replicate 22 1 @ replicate 8 0 @ [1, 1]"

definition race_send :: task where
  "race_send = TSend 6 DEST_AGENTE_REMOTO (''RESERVE 8 cpu 1'' @ [NL])"

fun at_race_send :: "pool \<Rightarrow> bool" where
  "at_race_send ((h, TSend c d x # us) # rest) \<longleftrightarrow> c = 6 \<and> d = DEST_AGENTE_REMOTO \<and> x = ''RESERVE 8 cpu 1'' @ [NL]"
| "at_race_send _ \<longleftrightarrow> False"

lemma at_race_send: "at_race_send ts \<Longrightarrow> \<exists>h us rest. ts = (h, race_send # us) # rest"
  unfolding race_send_def by (cases ts rule: at_race_send.cases) auto

lemma race_fault:
  "\<exists>s h us rest. (cstep reads_ok)\<^sup>*\<^sup>* (example_boot, idle 2) (s, (h, race_send # us) # rest) \<and> exec race_send s = None"
proof -
  have "map_option (\<lambda>c. at_race_send (snd c) \<and> exec race_send (fst c) = None) (race_run race_schedule) = Some True" by code_simp
  from race_run_state [OF this] show ?thesis using at_race_send by fastforce
qed

text \<open>
  \<open>C11\<close>: two workers can free a connection and then write to it. JOB_REQUEST looks up the
  connection to the node it asks in the table of connections and sends to it after the
  mutex of that table is released; a worker to which epoll reports an error of that
  connection removes it from the table and frees it without the lock of the job table. In a
  run of two workers of an agent that has just started, the first worker comes to the
  sending with a pointer to a connection that is gone. The events are of two connections,
  so that EPOLLONESHOT does not prevent it. When either event is handled after
  the other, both are handled to the end.
\<close>

theorem connection_freed_in_use:
  "(\<exists>s h us rest. (cstep reads_ok)\<^sup>*\<^sup>* (example_boot, idle 2) (s, (h, race_send # us) # rest) \<and> exec race_send s = None)
   \<and> race_start \<bind> worker_event example_red race_request \<bind> worker_event example_red race_error \<noteq> None
   \<and> race_start \<bind> worker_event example_red race_error \<bind> worker_event example_red race_request \<noteq> None"
proof -
  obtain s where s: "race_start = Some s" using race_start_facts by auto
  have "race_start \<bind> worker_event example_red race_request \<bind> worker_event example_red race_error \<noteq> None"
    "race_start \<bind> worker_event example_red race_error \<bind> worker_event example_red race_request \<noteq> None"
    using race_start_facts unfolding s option.map Option.bind.simps option.inject prod.inject by blast+
  with race_fault show ?thesis by blast
qed

end
