(* ===== verification/Thread_Termination.thy ===== *)
theory Thread_Termination
  imports Thread_Bounds "HOL-Library.Multiset"
begin

text \<open>
  Every event is handled to the end, whatever the schedule. A task leads to tasks of a lower
  rank, as many as it likes, so the multiset of the ranks of all tasks gets smaller with
  every step of every thread; a request that waits in a queue counts as well, since a
  release serves as many as there are. The order on multisets is well-founded, so there is
  no infinite run of tasks, and a run that cannot go on is at the end of all events, or at a
  task that faults.
\<close>

section \<open>Steps of threads\<close>

text \<open>The steps of \<open>cstep\<close> that do a task: no new event is taken.\<close>

inductive tstep :: "(event \<Rightarrow> agent \<Rightarrow> bool) \<Rightarrow> agent \<times> pool \<Rightarrow> agent \<times> pool \<Rightarrow> bool" for ok where
  t_lock: "i < length ts \<Longrightarrow> ts ! i = (h, TLock l # us) \<Longrightarrow> \<forall>t\<in>set ts. l \<notin> set (fst t)
    \<Longrightarrow> tstep ok (s, ts) (s, ts[i := (l # h, us)])"
| t_unlock: "i < length ts \<Longrightarrow> ts ! i = (h, TUnlock l # us) \<Longrightarrow> tstep ok (s, ts) (s, ts[i := (remove1 l h, us)])"
| t_task: "i < length ts \<Longrightarrow> ts ! i = (h, t # us) \<Longrightarrow> \<not> is_lock t \<Longrightarrow> permits ok t s \<Longrightarrow> exec t s = Some (s', vs)
    \<Longrightarrow> tstep ok (s, ts) (s', ts[i := (h, vs @ us)])"

lemma tstep_cstep: "tstep ok c c' \<Longrightarrow> cstep ok c c'"
  by (induction rule: tstep.induct) (auto intro: cstep.intros)

section \<open>Ranks\<close>

definition rank :: "task \<Rightarrow> nat \<times> nat" where
  "rank t = (case t of
      TLookup_send _ _ \<Rightarrow> (1, 0) | TNodes _ \<Rightarrow> (1, 0) | TConfirm _ _ _ \<Rightarrow> (1, 0) | TStatus _ _ \<Rightarrow> (1, 0) | TReady _ \<Rightarrow> (1, 0)
    | TAccept _ as \<Rightarrow> (1, length as)
    | TServe _ \<Rightarrow> (2, 0) | TGranted _ _ \<Rightarrow> (2, 0)
    | TRelease _ _ \<Rightarrow> (3, 0) | TReserve _ _ _ _ \<Rightarrow> (3, 0)
    | TRemove _ _ _ \<Rightarrow> (4, 0) | TExtract_conn _ \<Rightarrow> (4, 0) | TJob_release _ \<Rightarrow> (4, 0)
    | TDenied _ \<Rightarrow> (5, 0) | TRearm _ \<Rightarrow> (5, 0)
    | TJob_next _ _ _ reqs _ \<Rightarrow> (5, 4 * length reqs)
    | TJob_reserve _ _ _ _ reqs _ \<Rightarrow> (5, 4 * length reqs + 2)
    | TJob_port _ _ _ _ reqs _ \<Rightarrow> (5, 4 * length reqs + 2)
    | TJob_connect _ _ _ _ reqs _ _ \<Rightarrow> (5, 4 * length reqs + 1)
    | TJob_begin _ _ _ \<Rightarrow> (6, 0) | TWritable _ _ \<Rightarrow> (6, 0)
    | TMessage _ _ _ \<Rightarrow> (7, 0)
    | TLines _ _ buf \<Rightarrow> (8, length buf)
    | TRead _ _ _ \<Rightarrow> (9, 0) | TReadable _ _ _ \<Rightarrow> (10, 0) | TEvent _ _ \<Rightarrow> (11, 0)
    | _ \<Rightarrow> (0, 0))"

abbreviation below :: "((nat \<times> nat) \<times> nat \<times> nat) set" where
  "below \<equiv> less_than <*lex*> less_than"

definition below_level :: "nat \<Rightarrow> task list \<Rightarrow> bool" where
  "below_level n us \<longleftrightarrow> list_all (\<lambda>u. fst (rank u) < n) us"

lemma below_level_simps [simp]:
  "below_level n []" "below_level n (u # us) = (fst (rank u) < n \<and> below_level n us)"
  "below_level n (us @ vs) = (below_level n us \<and> below_level n vs)"
  by (simp_all add: below_level_def)

lemma level_purge [simp]:
  "0 < n \<Longrightarrow> below_level n (limpiar_colas_por_id_tasks j)" "0 < n \<Longrightarrow> below_level n (limpiar_colas_por_conn_tasks c)"
  by (simp_all add: limpiar_colas_por_id_tasks_def limpiar_colas_por_conn_tasks_def with_recurso_def rank_def)

lemma level_release [simp]: "3 < n \<Longrightarrow> below_level n (release_resource_tasks b r m)"
  by (simp add: release_resource_tasks_def with_recurso_def rank_def)

lemma level_allocs [simp]: "3 < n \<Longrightarrow> below_level n (release_allocs_tasks b j as)" "3 < n \<Longrightarrow> below_level n (job_release_tasks as)"
  by (induction as) (simp_all add: rank_def)

lemma level_loops [simp]: "3 < n \<Longrightarrow> below_level n (release_jobs_tasks js)" "0 < n \<Longrightarrow> below_level n (ready_tasks c reqs)"
  by (induction js, simp_all, induction reqs, simp_all add: rank_def)

lemma level_tasks [simp]:
  "4 < n \<Longrightarrow> below_level n (tabla_jobs_remove_tasks j b b')" "4 < n \<Longrightarrow> below_level n (close_tasks c)"
  "3 < n \<Longrightarrow> below_level n (abort_tasks j c job)"
  by (simp_all add: tabla_jobs_remove_tasks_def close_tasks_def process_disconnect_tasks_def abort_tasks_def rank_def)

lemma level_announces [simp]: "0 < n \<Longrightarrow> below_level n (map (\<lambda>(ip, bs). TAnnounce now ip (f bs)) ds)"
  by (induction ds) (auto simp: rank_def)

lemma level_message: "message_tasks red c msg = Some ts \<Longrightarrow> below_level 7 ts"
  by (auto simp: message_tasks_def map_option_case rank_def split: if_splits parsed.splits option.splits)

lemma level_below: "below_level n us \<Longrightarrow> u \<in> set us \<Longrightarrow> (rank u, (n, k)) \<in> below"
  by (cases "rank u") (auto simp: below_level_def list_all_iff)

lemma abort_below: "u \<in> set (abort_tasks j c job) \<Longrightarrow> (rank u, (5, k)) \<in> below"
  by (rule level_below [of 5 "abort_tasks j c job"]) simp_all

text \<open>What a task leads to, apart from a turn of the service of a queue.\<close>

lemma exec_below:
  assumes "exec t s = Some (s', us)" "\<And>r. t \<noteq> TServe r" "u \<in> set us"
  shows "(rank u, rank t) \<in> below"
proof -
  have level: "(rank u, rank t) \<in> below" if "below_level (fst (rank t)) us" using level_below [OF that assms(3), of "snd (rank t)"] by simp
  show ?thesis
  proof (cases t)
    case (TConfirm c j ip)
    then have "confirm_section c j ip s = Some (s', us)" using assms(1) by simp
    then have "below_level 1 us" unfolding below_level_def by (rule confirm_section_list_all) (simp_all add: rank_def)
    then show ?thesis using level TConfirm by (simp add: rank_def)
  next
    case (TJob_next red j c reqs job)
    then show ?thesis using assms(1,3)
      by (auto simp: rank_def job_insert_section_def job_turn_tasks_def ask_remote_tasks_def bind_eq_Some_conv Let_def
          split: list.splits option.splits if_splits)
  next
    case (TJob_reserve red j c q reqs job)
    then have "u \<in> set (abort_tasks j c job) \<or> (\<exists>l. u = TUnlock l) \<or> (\<exists>job'. u = TJob_next red j c reqs job')"
      using assms(1,3) by (auto simp: job_reserve_section_def split: prod.splits if_splits)
    then show ?thesis using TJob_reserve abort_below by (auto simp: rank_def [of "TJob_reserve _ _ _ _ _ _"] rank_def [of "TUnlock _"] rank_def [of "TJob_next _ _ _ _ _"])
  next
    case (TJob_connect red j c q reqs job port)
    then have "u \<in> set (abort_tasks j c job) \<or> (\<exists>job'. u = TJob_next red j c reqs job')"
      using assms(1,3) by (auto simp: job_connect_section_def split: prod.splits option.splits)
    then show ?thesis using TJob_connect abort_below by (auto simp: rank_def [of "TJob_connect _ _ _ _ _ _ _"] rank_def [of "TJob_next _ _ _ _ _"])
  next
    case (TJob_port red j c q reqs job)
    then show ?thesis using assms(1,3) by (auto simp: rank_def)
  next
    case (TLines red c buf)
    have "length rest < length buf" if "next_line buf = Some (line, rest)" for line rest using next_line_shorter [OF that] .
    then show ?thesis using TLines assms(1,3) by (auto simp: rank_def split: option.splits if_splits)
  next
    case (TAccept ty as)
    then show ?thesis using assms(1,3) by (auto simp: rank_def split: list.splits)
  next
    case (TMessage red c msg)
    then show ?thesis using level assms(1) level_message by (auto simp: rank_def split: if_splits)
  next
    case (TReserve r n j c)
    then show ?thesis using level assms(1) by (auto simp: rank_def split: prod.splits result_t.splits)
  next
    case (TReadable red ev b)
    then show ?thesis using level assms(1)
      by (cases "heap s (ev_conn ev)"; cases "ctype (the (heap s (ev_conn ev)))") (auto simp: readable_section_def rank_def)
  next
    case (TRead red ev b)
    then show ?thesis using level assms(1)
      by (cases "ev_read ev") (auto simp: read_section_def rank_def bind_eq_Some_conv Let_def split: if_splits)
  next
    case (TWritable ev b)
    then show ?thesis using level assms(1)
      by (auto simp: writable_section_def rank_def bind_eq_Some_conv Let_def split: if_splits option.splits)
  next
    case (TEvent red ev)
    then show ?thesis using level assms(1) by (auto simp: event_section_def rank_def bind_eq_Some_conv Let_def split: if_splits)
  next
    case (TRearm c)
    then show ?thesis using level assms(1) by (cases "heap s c") (auto simp: rank_def split: prod.splits if_splits)
  next
    case (TExtract_conn c)
    then show ?thesis using level assms(1) by (auto simp: rank_def split: prod.splits)
  next
    case (TServe r)
    then show ?thesis using assms(2) by simp
  qed (use level assms(1) in \<open>auto simp: rank_def bind_eq_Some_conv Let_def split: option.splits if_splits\<close>)
qed

section \<open>Requests that wait\<close>

definition waiting :: "agent \<Rightarrow> nat" where
  "waiting s = length (queue s RESOURCE_CPU) + length (queue s RESOURCE_MEM) + length (queue s RESOURCE_GPU)"

lemma waiting_le: "(\<And>r. length (queue s' r) \<le> length (queue s r)) \<Longrightarrow> waiting s' \<le> waiting s"
  unfolding waiting_def by (meson add_mono)

lemma reserve_waiting: "reserve_resource r n j c orig s = (x, s') \<Longrightarrow> waiting s' \<le> Suc (waiting s)"
  by (cases r) (auto simp: waiting_def reserve_resource_def queue_enqueue_def Let_def split: if_splits prod.splits)

lemma exec_waiting:
  assumes "exec t s = Some (s', us)"
  shows "waiting s' \<le> waiting s \<or> waiting s' \<le> Suc (waiting s) \<and> ((1, 0), rank t) \<in> below"
proof (cases "neutral t")
  case True
  then show ?thesis using neutral_same(2) [OF True assms] by (simp add: waiting_def)
next
  case False
  show ?thesis
  proof (cases t)
    case (TServe r)
    then have "serve_section r s = Some (s', us)" using assms by simp
    then have "waiting s' \<le> waiting s" by (cases rule: serve_section_cases) (auto intro!: waiting_le)
    then show ?thesis by simp
  next
    case (TConfirm c j ip)
    then have "confirm_section c j ip s = Some (s', us)" using assms by simp
    then have "waiting s' \<le> waiting s" by (cases rule: confirm_section_cases) (auto intro!: waiting_le)
    then show ?thesis by simp
  next
    case (TReserve r n j c)
    then show ?thesis using assms reserve_waiting by (auto simp: rank_def split: prod.splits)
  next
    case (TJob_reserve red j c q reqs job)
    then show ?thesis using assms reserve_waiting by (auto simp: rank_def job_reserve_section_def split: prod.splits)
  next
    case (TPurge_id r j)
    then have "waiting s' \<le> waiting s" using assms
      by (auto intro!: waiting_le split: if_splits)
    then show ?thesis by simp
  next
    case (TPurge_conn r c)
    then have "waiting s' \<le> waiting s" using assms
      by (auto intro!: waiting_le split: if_splits)
    then show ?thesis by simp
  next
    case (TRelease r n)
    then have "waiting s' \<le> waiting s" using assms by (auto intro!: waiting_le simp: Let_def split: if_splits)
    then show ?thesis by simp
  qed (use assms False in \<open>auto simp: waiting_def neutral_def bind_eq_Some_conv Let_def job_insert_section_def
      split: prod.splits list.splits if_splits\<close>)
qed

section \<open>The measure\<close>

definition ranks :: "task list \<Rightarrow> (nat \<times> nat) multiset" where
  "ranks ts = image_mset rank (mset ts)"

definition work :: "agent \<Rightarrow> task list \<Rightarrow> (nat \<times> nat) multiset" where
  "work s ts = ranks ts + replicate_mset (waiting s) (1, 0)"

lemma ranks_simps [simp]: "ranks [] = {#}" "ranks (t # ts) = add_mset (rank t) (ranks ts)" "ranks (ts @ us) = ranks ts + ranks us"
  by (simp_all add: ranks_def)

lemma replicate_mset_add: "replicate_mset (m + n) x = replicate_mset m x + replicate_mset n x"
  by (induction m) auto

lemma exec_work:
  assumes "exec t s = Some (s', us)"
  shows "(work s' us, work s [t]) \<in> mult below"
proof (cases "\<exists>r. t = TServe r")
  case True
  then obtain r where t: "t = TServe r" by blast
  then have "serve_section r s = Some (s', us)" using assms by simp
  then show ?thesis
  proof (cases rule: serve_section_cases)
    case stop
    have "(replicate_mset (waiting s) (1, 0) + {#}, replicate_mset (waiting s) (1, 0) + {#rank t#}) \<in> mult below"
      by (rule one_step_implies_mult) simp_all
    then show ?thesis using stop by (simp add: work_def)
  next
    case (grant p resto tb)
    then have w: "waiting s = Suc (waiting s')" by (cases r) (simp_all add: waiting_def)
    have "(add_mset (2, 0) (replicate_mset (waiting s') (1, 0)) + K, add_mset (2, 0) (replicate_mset (waiting s') (1, 0)) + {#(1, 0)#})
        \<in> mult below" if "K = {#} \<or> K = {#(0, 0)#}" for K :: "(nat \<times> nat) multiset"
      by (rule one_step_implies_mult) (use that in auto)
    from this [of "{#}"] this [of "{#(0, 0)#}"] show ?thesis using grant(6) w t by (auto simp: work_def rank_def)
  qed
next
  case False
  let ?m = "min (waiting s) (waiting s')"
  let ?K = "ranks us + replicate_mset (waiting s' - ?m) (1, 0)" and ?J = "add_mset (rank t) (replicate_mset (waiting s - ?m) (1, 0))"
  have "\<exists>j\<in>#?J. (k, j) \<in> below" if k: "k \<in># ?K" for k
  proof -
    have "(k, rank t) \<in> below"
    proof (cases "k \<in># ranks us")
      case True
      then obtain u where "u \<in> set us" "k = rank u" by (auto simp: ranks_def)
      then show ?thesis using exec_below [OF assms] False by blast
    next
      case new: False
      then have "k = (1, 0)" "waiting s < waiting s'" using k by (auto split: if_splits)
      then show ?thesis using exec_waiting [OF assms] by auto
    qed
    then show ?thesis by auto
  qed
  then have "(replicate_mset ?m (1, 0) + ?K, replicate_mset ?m (1, 0) + ?J) \<in> mult below"
    by (intro one_step_implies_mult) auto
  moreover have "replicate_mset ?m (1, 0) + replicate_mset (n - ?m) (1::nat, 0::nat) = replicate_mset n (1, 0)" if "?m \<le> n" for n
    using that replicate_mset_add [of ?m "n - ?m" "(1::nat, 0::nat)"] by (simp only: le_add_diff_inverse)
  ultimately show ?thesis by (simp add: work_def add.left_commute [of "replicate_mset _ _"])
qed

definition tasks_of :: "pool \<Rightarrow> task list" where
  "tasks_of ts = concat (map snd ts)"

lemma tasks_of_update:
  assumes "i < length ts" "ts ! i = (h, t # us)"
  shows "ranks (tasks_of ts) = add_mset (rank t) (ranks (tasks_of (ts[i := (h', us)])))"
    and "ranks (tasks_of (ts[i := (h', vs @ us)])) = ranks vs + ranks (tasks_of (ts[i := (h', us)]))"
proof -
  have "ts = take i ts @ (h, t # us) # drop (Suc i) ts" using assms id_take_nth_drop [of i ts] by simp
  then have "tasks_of ts = tasks_of (take i ts) @ (t # us) @ tasks_of (drop (Suc i) ts)"
    by (metis (no_types, lifting) tasks_of_def concat.simps(2) concat_append list.simps(9) map_append snd_conv)
  moreover have "tasks_of (ts[i := (h', ws)]) = tasks_of (take i ts) @ ws @ tasks_of (drop (Suc i) ts)" for ws
    using assms(1) by (simp add: tasks_of_def upd_conv_take_nth_drop)
  ultimately show "ranks (tasks_of ts) = add_mset (rank t) (ranks (tasks_of (ts[i := (h', us)])))"
    "ranks (tasks_of (ts[i := (h', vs @ us)])) = ranks vs + ranks (tasks_of (ts[i := (h', us)]))"
    by (simp_all add: ac_simps)
qed

lemma mult_context:
  assumes "(A, B) \<in> mult below"
  shows "(A + C, B + C) \<in> mult below"
proof -
  have "trans below" by (rule trans_lex_prod) simp_all
  moreover have "irrefl_on (set_mset C) below" by (auto simp: irrefl_on_def)
  ultimately show ?thesis using assms mult_cancel by blast
qed

lemma tstep_work:
  assumes "tstep ok c c'"
  shows "(work (fst c') (tasks_of (snd c')), work (fst c) (tasks_of (snd c))) \<in> mult below"
proof -
  have task: "(work s' (tasks_of (ts[i := (h', vs @ us)])), work s (tasks_of ts)) \<in> mult below"
    if "exec t s = Some (s', vs)" "i < length ts" "ts ! i = (h, t # us)" for t s s' vs i h h' ts us
    using mult_context [OF exec_work [OF that(1)], of "ranks (tasks_of (ts[i := (h', us)]))"] tasks_of_update [OF that(2,3), of h']
    by (simp add: work_def ac_simps)
  from assms show ?thesis
  proof cases
    case (t_lock i ts h l us s)
    then show ?thesis using task [of "TLock l" s s "[]" i ts h us "l # h"] by simp
  next
    case (t_unlock i ts h l us s)
    then show ?thesis using task [of "TUnlock l" s s "[]" i ts h us "remove1 l h"] by simp
  next
    case (t_task i ts h t us s s' vs)
    then show ?thesis using task [of t s s' vs i ts h us h] by simp
  qed
qed

lemma tstep_wf: "wf {(c', c). tstep ok c c'}"
proof -
  have "wf (mult below)" by (intro wf_mult wf_lex_prod) simp_all
  then have "wf (inv_image (mult below) (\<lambda>c. work (fst c) (tasks_of (snd c))))" by (rule wf_inv_image)
  then show ?thesis by (rule wf_subset) (auto simp: inv_image_def dest: tstep_work)
qed

section \<open>Where a run can end\<close>

lemma tsteps_csteps: "(tstep ok)\<^sup>*\<^sup>* c c' \<Longrightarrow> (cstep ok)\<^sup>*\<^sup>* c c'"
  by (induction rule: rtranclp_induct) (auto dest: tstep_cstep)

lemma thread_can_go:
  assumes "pool_ok ts" "t \<in> set ts" "snd t \<noteq> []"
  shows "\<exists>h u us. (h, u # us) \<in> set ts \<and> (exec u s = None \<or> (\<exists>c. tstep (\<lambda>_ _. True) (s, ts) c))"
proof -
  obtain i where "i < length ts" "ts ! i = t" using assms(2) by (auto simp: in_set_conv_nth)
  then obtain k where k: "k < length ts" "snd (ts ! k) \<noteq> []" "\<not> waits ts k"
    using some_can_go [OF assms(1)] assms(3) by blast
  then obtain h u us where u: "ts ! k = (h, u # us)" by (metis list.exhaust prod.collapse)
  consider l where "u = TLock l" | l where "u = TUnlock l" | "\<not> is_lock u" by (auto simp: is_lock_def)
  then have "exec u s = None \<or> (\<exists>c. tstep (\<lambda>_ _. True) (s, ts) c)"
  proof cases
    case (1 l)
    then have "\<forall>t\<in>set ts. l \<notin> set (fst t)" using k(3) u by (auto simp: waits_def)
    from tstep.t_lock [OF k(1) u [unfolded 1] this] show ?thesis by blast
  next
    case (2 l)
    from tstep.t_unlock [OF k(1) u [unfolded 2]] show ?thesis by blast
  next
    case 3
    have "permits (\<lambda>_ _. True) u s" by (simp add: permits_def)
    then show ?thesis using tstep.t_task [OF k(1) u 3] by (cases "exec u s") fastforce+
  qed
  moreover have "(h, u # us) \<in> set ts" using nth_mem [OF k(1)] u by simp
  ultimately show ?thesis by blast
qed

lemma idle_unlocked: "pool_ok ts \<Longrightarrow> t \<in> set ts \<Longrightarrow> snd t = [] \<Longrightarrow> fst t = []"
  by (auto simp: pool_ok_def)

end
