(* ===== verification/Discovery.thy ===== *)
theory Discovery
  imports Main_Agent Resource_Bounds
begin

text \<open>
  How nodes find each other: \<open>send_udp_broadcast\<close> of \<^verbatim>\<open>server.c\<close> as the system calls it
  makes, \<open>broadcast_loop\<close> of \<^verbatim>\<open>main.c\<close>, and what the datagram of one agent does to the
  node table of another.
\<close>

section \<open>Sending\<close>

abbreviation UDP_DISCOVERY_PORT :: int where "UDP_DISCOVERY_PORT \<equiv> 12529"

text \<open>The answers of the kernel: a descriptor, or -1; whether \<open>setsockopt\<close> succeeds. The answer of \<open>sendto\<close> is only printed.\<close>

record udp_kernel =
  socket_result :: "int option"
  setsockopt_ok :: bool

datatype udp_call =
    Socket "int option"
  | Setsockopt_broadcast int
  | Sendto int int string
  | Close int

definition htons :: "int \<Rightarrow> int" where
  "htons port = port mod 65536"

definition send_udp_broadcast :: "udp_kernel \<Rightarrow> int \<Rightarrow> string \<Rightarrow> udp_call list" where
  "send_udp_broadcast k port message = Socket (socket_result k) # (case socket_result k of
      None \<Rightarrow> []
    | Some sock \<Rightarrow> Setsockopt_broadcast sock #
        (if \<not> setsockopt_ok k then [Close sock]
         else [Sendto sock (htons port) message, Close sock]))"

text \<open>As many turns of the loop as the list has; each has its kernel's answers and its time.\<close>

fun broadcast_loop :: "config_t \<Rightarrow> (udp_kernel \<times> int) list \<Rightarrow> agent \<Rightarrow> udp_call list \<times> agent" where
  "broadcast_loop cfg [] s = ([], s)"
| "broadcast_loop cfg ((k, now) # turns) s =
     (case broadcast_loop cfg turns (broadcast_step now s) of (calls, s') \<Rightarrow>
        (send_udp_broadcast k UDP_DISCOVERY_PORT (announce_msg cfg) @ calls, s'))"

section \<open>Descriptors\<close>

text \<open>The descriptors open after some calls; None when one is used that is not open, or handed out twice.\<close>

fun fds_after :: "udp_call list \<Rightarrow> int set \<Rightarrow> int set option" where
  "fds_after [] F = Some F"
| "fds_after (Socket None # cs) F = fds_after cs F"
| "fds_after (Socket (Some sock) # cs) F = (if sock \<in> F then None else fds_after cs (insert sock F))"
| "fds_after (Setsockopt_broadcast sock # cs) F = (if sock \<in> F then fds_after cs F else None)"
| "fds_after (Sendto sock port m # cs) F = (if sock \<in> F then fds_after cs F else None)"
| "fds_after (Close sock # cs) F = (if sock \<in> F then fds_after cs (F - {sock}) else None)"

lemma fds_after_append: "fds_after (cs @ ds) F = fds_after cs F \<bind> fds_after ds"
  by (induction cs F rule: fds_after.induct) simp_all

lemma send_udp_balanced:
  "(\<And>sock. socket_result k = Some sock \<Longrightarrow> sock \<notin> F) \<Longrightarrow> fds_after (send_udp_broadcast k port m) F = Some F"
  by (auto simp: send_udp_broadcast_def insert_Diff_if split: option.split)



section \<open>Receiving\<close>

text \<open>What the datagram leaves in the node table, and what the purge makes of it.\<close>

definition announced :: "int \<Rightarrow> string \<Rightarrow> config_t \<Rightarrow> NodeEntry" where
  "announced now ip cfg = \<lparr>ne_ip = ip, puerto = cfg_port cfg, cpu_disp = cfg_cpu cfg, mem_disp = cfg_mem cfg,
     gpu_disp = cfg_gpu cfg, last_seen = now\<rparr>"

lemma announce_msg_parsed:
  assumes "config_of_args argv = Some cfg" "config_ok cfg"
  shows "parse_announce (cstr (take (BUFF_SIZE - 1) (announce_msg cfg)))
    = Valido \<lparr>an_puerto = cfg_port cfg, an_cpu = cfg_cpu cfg, an_mem = cfg_mem cfg, an_gpu = cfg_gpu cfg\<rparr>"
proof -
  let ?m = "\<lparr>an_puerto = cfg_port cfg, an_cpu = cfg_cpu cfg, an_mem = cfg_mem cfg, an_gpu = cfg_gpu cfg\<rparr>"
  have "in_s32 (atoi x)" for x using scan_int_in_s32 by (auto simp: atoi_def in_s32_def split: option.splits)
  then have ok: "announce_ok ?m"
    using assms by (auto simp: config_of_args_def config_ok_def split: list.splits)
  have buf: "announce_msg cfg = msg_announce ?m" by (simp add: announce_msg_def)
  have "\<forall>c\<in>set (msg_announce ?m). c \<noteq> NUL"
    by (auto simp: msg_announce_def snprintf_def is_digit_def dest!: in_set_takeD show_int_chars)
  then have "cstr (take (BUFF_SIZE - 1) (announce_msg cfg)) = msg_announce ?m"
    using msg_announce_words(2) [OF ok] buf by (simp add: cstr_def takeWhile_eq_all_conv)
  then show ?thesis using parse_announce_roundtrip [OF ok] by simp
qed

lemma announced_entry:
  assumes "nodos_ok t" "ip_fits ip"
  shows "{e \<in> set (entries (tabla_nodos_insert_or_update now ip port cpu mem gpu t)). ne_ip e = ip}
    = {\<lparr>ne_ip = ip, puerto = port, cpu_disp = cpu, mem_disp = mem, gpu_disp = gpu, last_seen = now\<rparr>}" (is "?E = {?e}")
proof -
  let ?t = "tabla_nodos_insert_or_update now ip port cpu mem gpu t"
  let ?f = "\<lambda>e. e\<lparr>puerto := port, cpu_disp := cpu, mem_disp := mem, gpu_disp := gpu, last_seen := now\<rparr>"
  have ok': "nodos_ok ?t" by (rule nodos_ok_insert_or_update [OF assms])
  have i: "hash_ip ip < length t" using assms(1) by (simp add: nodos_ok_def buckets_ok_def)
  have "?e \<in> set (?t ! hash_ip ip)"
  proof (cases "find (\<lambda>e. ne_ip e = ip) (t ! hash_ip ip)")
    case None
    then show ?thesis using i assms(2) by (simp add: tabla_nodos_insert_or_update_def Let_def strncpy_field_fits)
  next
    case (Some e)
    have "find P xs = Some e \<Longrightarrow> ?f e \<in> set (update_first P ?f xs)" for P xs by (induction xs) auto
    from this [OF Some] have "?f e \<in> set (update_first (\<lambda>e. ne_ip e = ip) ?f (t ! hash_ip ip))" .
    moreover have "?f e = ?e" using find_SomeD [OF Some] by simp
    ultimately show ?thesis using Some i by (simp add: tabla_nodos_insert_or_update_def Let_def)
  qed
  then have "?e \<in> ?E" using ok' nodos.entry_bucket [of ?t ?e] assms(2) by (simp add: nodos_ok_def)
  then show ?thesis using nodos_unique [OF ok'] by auto
qed

lemma purged_entries: "set (entries (tabla_nodos_purge now d t)) = {e \<in> set (entries t). now - last_seen e \<le> d}"
  by (auto simp: tabla_nodos_purge_def entries_def)

lemma get_puerto_entries:
  assumes "nodos_ok t" "ip_fits ip"
  shows "{e \<in> set (entries t). ne_ip e = ip} = {} \<Longrightarrow> tabla_nodos_get_puerto t ip = -1"
    and "{e \<in> set (entries t). ne_ip e = ip} = {x} \<Longrightarrow> tabla_nodos_get_puerto t ip = puerto x"
proof -
  have b: "buckets_ok ip_fits hash_ip ne_ip t" using assms(1) by (simp add: nodos_ok_def)
  show "tabla_nodos_get_puerto t ip = -1" if E: "{e \<in> set (entries t). ne_ip e = ip} = {}"
  proof -
    have "find (\<lambda>e. ne_ip e = ip) (t ! hash_ip ip) = None" using nodos.find_None_entries [OF b assms(2)] E by blast
    then show ?thesis by (simp add: tabla_nodos_get_puerto_def)
  qed
  show "tabla_nodos_get_puerto t ip = puerto x" if E: "{e \<in> set (entries t). ne_ip e = ip} = {x}"
  proof -
    have "find (\<lambda>e. ne_ip e = ip) (t ! hash_ip ip) \<noteq> None" using nodos.find_None_entries [OF b assms(2)] E by blast
    then obtain e where e: "find (\<lambda>e. ne_ip e = ip) (t ! hash_ip ip) = Some e" by blast
    then have "e \<in> {e \<in> set (entries t). ne_ip e = ip}" using nodos.find_Some_entries [OF b assms(2)] by simp
    then have "e = x" unfolding E by simp
    then show ?thesis using e by (simp add: tabla_nodos_get_puerto_def)
  qed
qed

lemma filter_singleton: "{e \<in> {a}. P e} = (if P a then {a} else {})"
  by auto

text \<open>
  \<open>C17\<close>. Nodes find each other, and forget each other. The datagram an agent started with
  sensible amounts sends, received by another agent, makes the table of that agent hold
  exactly one entry for the sender's address, with the port and the amounts the sender was
  started with; a purge at a later time keeps it as long as it is at most 15 seconds old,
  and then GET_NODES and JOB_REQUEST know the sender's port, and drops it afterwards.
\<close>

theorem discovery:
  assumes "config_of_args argv = Some cfg" "config_ok cfg"
    and "Sendto sock port m \<in> set (send_udp_broadcast k UDP_DISCOVERY_PORT (announce_msg cfg))"
    and "nodos_ok (tabla_nodos s)" "ip_fits ip"
  shows "{e \<in> set (entries (tabla_nodos (broadcast_step later (handle_udp_read now [(ip, m)] s)))). ne_ip e = ip}
      = (if later - now \<le> 15 then {announced now ip cfg} else {})
    \<and> tabla_nodos_get_puerto (tabla_nodos (broadcast_step later (handle_udp_read now [(ip, m)] s))) ip
      = (if later - now \<le> 15 then cfg_port cfg else -1)"
proof -
  have m: "m = announce_msg cfg" using assms(3) by (auto simp: send_udp_broadcast_def split: option.splits if_splits)
  let ?t = "tabla_nodos_insert_or_update now ip (cfg_port cfg) (cfg_cpu cfg) (cfg_mem cfg) (cfg_gpu cfg) (tabla_nodos s)"
  let ?s = "broadcast_step later (handle_udp_read now [(ip, m)] s)"
  have s: "tabla_nodos ?s = tabla_nodos_purge later 15 ?t"
    using announce_msg_parsed [OF assms(1,2)] m by (simp add: broadcast_step_def process_announce_def)
  have ok: "nodos_ok (tabla_nodos ?s)" unfolding s by (rule nodos_ok_purge [OF nodos_ok_insert_or_update [OF assms(4,5)]])
  have last: "last_seen (announced now ip cfg) = now" by (simp add: announced_def)
  have A: "{e \<in> set (entries ?t). ne_ip e = ip} = {announced now ip cfg}"
    unfolding announced_def by (rule announced_entry [OF assms(4,5)])
  have "{e \<in> set (entries (tabla_nodos ?s)). ne_ip e = ip} = {e \<in> {e \<in> set (entries ?t). ne_ip e = ip}. later - last_seen e \<le> 15}"
    unfolding s purged_entries by blast
  then have E: "{e \<in> set (entries (tabla_nodos ?s)). ne_ip e = ip} = (if later - now \<le> 15 then {announced now ip cfg} else {})"
    unfolding A filter_singleton last .
  have "tabla_nodos_get_puerto (tabla_nodos ?s) ip = (if later - now \<le> 15 then cfg_port cfg else -1)"
  proof (cases "later - now \<le> 15")
    case True
    then show ?thesis using get_puerto_entries(2) [OF ok assms(5)] E by (simp add: announced_def)
  next
    case False
    then show ?thesis using get_puerto_entries(1) [OF ok assms(5)] E by simp
  qed
  with E show ?thesis by blast
qed

theorem discovery_witness:
  "tabla_nodos_get_puerto (tabla_nodos (broadcast_step 110 (handle_udp_read 100 [(''10.0.0.1'', ''ANNOUNCE 101 cpu:4 mem:8 gpu:1'' @ [NL])]
     (manager_init 2 2 2 (agent_start (\<lambda>_. True)))))) ''10.0.0.1'' = 101"
proof -
  let ?cfg = "\<lparr>cfg_ip = ''10.0.0.1'', cfg_port = 101, cfg_cpu = 4, cfg_mem = 8, cfg_gpu = 1\<rparr>"
  let ?k = "\<lparr>socket_result = Some 9, setsockopt_ok = True\<rparr>"
  have cfg: "config_of_args [''agente'', ''10.0.0.1'', ''101'', ''4'', ''8'', ''1''] = Some ?cfg" by code_simp
  have digits: "show_int 101 = ''101''" "show_int 4 = ''4''" "show_int 8 = ''8''" "show_int 1 = ''1''" by code_simp+
  have buf: "announce_msg ?cfg = ''ANNOUNCE 101 cpu:4 mem:8 gpu:1'' @ [NL]"
    using digits by (simp add: announce_msg_def msg_announce_def snprintf_def)
  have "nodos_ok (tabla_nodos (manager_init 2 2 2 (agent_start (\<lambda>_. True))))" by (simp add: manager_init_def nodos_ok_init)
  moreover have "Sendto 9 UDP_DISCOVERY_PORT (announce_msg ?cfg) \<in> set (send_udp_broadcast ?k UDP_DISCOVERY_PORT (announce_msg ?cfg))"
    by (simp add: send_udp_broadcast_def htons_def)
  ultimately show ?thesis using discovery [OF cfg, of 9 UDP_DISCOVERY_PORT "announce_msg ?cfg" ?k _ "''10.0.0.1''" 110 100]
    unfolding buf by (simp add: config_ok_def)
qed

end
