(* ===== verification/Spec2Isabelle.thy ===== *)
theory Spec2Isabelle
  imports Pending_Queue_Ptr Remote_Protocol Server_Behaviour Protocol_Findings Thread_Findings Thread_Termination Discovery
begin

text \<open>
  \<^bold>\<open>Verification of the C agent of the distributed resource scheduler.\<close>

  \<^bold>\<open>The program.\<close> Each node of the system runs an agent (\<^verbatim>\<open>agente_c\<close>) that owns the node's
  CPUs, memory and GPUs and a planner (\<^verbatim>\<open>planificador_erl\<close>) that asks it for jobs. The
  planner's JOB_REQUEST names resources of several nodes; the agent reserves its own,
  asks the agents of the others with RESERVE, collects GRANTED and DENIED, and answers
  JOB_GRANTED or JOB_DENIED. Reservations that do not fit now but may later wait in a queue
  per resource. Agents announce themselves by UDP broadcast. Worker threads take events of
  sockets from \<^verbatim>\<open>epoll\<close>, cut the bytes into lines and hand each to the manager.

  \<^bold>\<open>Theories, in the order of the code.\<close> The names of definitions are those of the functions.
  \<^item> \<open>Prelude\<close>, \<open>C_Lib\<close>: C integers with their wrap-around (\<open>s32\<close>), strings, the parts of
    \<open>sscanf\<close>, \<open>strtok\<close>, \<open>atoi\<close> and \<open>snprintf\<close> the code uses, and the locale
    \<open>step_invariant\<close> (a predicate that steps keep holds in reachable states).
  \<^item> \<open>Parsing\<close>, \<open>Messages\<close> (\<^verbatim>\<open>parsing.c\<close>): the parsers, the lines agents and planner write, and
    the locale \<open>message_codec\<close> between a writer and its parser, interpreted for each message.
  \<^item> \<open>Pending_Queue\<close>, \<open>Pending_Queue_Ptr\<close> (\<^verbatim>\<open>pending_request.c\<close>): the queue as its contents,
    and as linked nodes in a memory, which refines the first.
  \<^item> \<open>Buckets\<close>, \<open>Tabla_Nodos\<close>, \<open>Tabla_Conns\<close>, \<open>Tabla_Jobs\<close> (\<^verbatim>\<open>tabla_node_entry.c\<close>,
    \<^verbatim>\<open>tabla_conns.c\<close>, \<^verbatim>\<open>tabla_jobs.c\<close>): the hash tables; the locale \<open>chained_table\<close> has what
    they share and is interpreted for each.
  \<^item> \<open>Connection\<close> (\<^verbatim>\<open>server.c\<close>): the buffers of a connection, writing and rearming.
  \<^item> \<open>Agent_State\<close>, \<open>Recursos\<close>, \<open>Resource_Manager\<close> (\<^verbatim>\<open>resource_manager.c\<close>, and
    \<open>tabla_jobs_remove\<close>): the static variables of the process as the record \<open>agent\<close>,
    reserving and releasing, one definition for each branch of \<open>process_message\<close>, and the
    entry points for announcements and for connections that come, fail and go.
  \<^item> \<open>Server\<close> (\<^verbatim>\<open>server.c\<close>): one definition per event handler and \<open>worker_event\<close>, the body of
    the loop of a worker.
  \<^item> \<open>Main_Agent\<close> (\<^verbatim>\<open>main.c\<close>, \<open>init_server_sockets\<close>): start-up, the broadcast turn, and the
    transition system \<open>agent_step\<close>, in which every event is handled as a whole.
  \<^item> \<open>Discovery\<close> (\<open>send_udp_broadcast\<close>, \<open>broadcast_loop\<close>): the system calls of the broadcast
    thread, and its datagram from the sender to the node table of the receiver.
  \<^item> \<open>Tasks\<close> (\<^verbatim>\<open>resource_manager.c\<close>, \<^verbatim>\<open>server.c\<close>): the handlers once more, cut into the tasks
    between which another thread can run: a thread is a list of tasks, \<open>exec\<close> does one, and
    pointers that the code keeps across a task are arguments of the later one.
  \<^item> \<open>Threads\<close> (\<^verbatim>\<open>main.c\<close>): any number of workers and the broadcast thread, interleaved
    task by task, as the step relation \<open>cstep\<close>; the locales \<open>frame_update\<close>
    (a part of the state a task does not touch) and, in \<open>Thread_Bounds\<close>, \<open>task_invariant\<close>
    (what every task keeps holds under every interleaving).
  \<^item> \<open>Lock_Discipline\<close>, \<open>Agent_Locks\<close> (all files): in which order each function locks and
    unlocks its mutexes, as lock programs; the locale \<open>disciplined_programs\<close> has what
    threads rely on, and is interpreted for the threads of \<open>main\<close>.

  \<^bold>\<open>What is shown.\<close>
  \<^item> \<open>Agent_Invariant\<close>, \<open>Recursos_Safety\<close>, \<open>Manager_Safety\<close>, \<open>Request_Safety\<close>,
    \<open>Entry_Safety\<close>, \<open>Server_Safety\<close>: the invariant \<open>agent_ok\<close> (tables well formed, every kept
    pointer live, buffers within bounds, no lost wake-up) holds after every operation, and
    no operation faults. \<open>Main_Agent\<close> lifts it to reachable states.
  \<^item> \<open>Task_Refinement\<close>: the tasks of a handler, done by one thread alone, are the handler.
  \<^item> \<open>Threads\<close>: every list of tasks the code makes takes and gives back the mutexes it needs,
    so no two threads touch the job table or a resource at once and some thread can go on.
  \<^item> \<open>Thread_Termination\<close>: every schedule comes to the end of the events that were taken. The
    multiset of the ranks of all tasks gets smaller with every step.
  \<^item> \<open>Resource_Bounds\<close>, \<open>Thread_Bounds\<close>: the invariant \<open>books_ok\<close> of the amounts;
    \<open>Thread_Jobs\<close>: one job per id; \<open>Thread_Types\<close>: all numbers are C ints; \<open>Thread_Safety\<close>:
    buffers, buckets and formats are in bounds. All hold under every interleaving, and
    \<open>task_invariant\<close> is interpreted for each but the second, which is about the threads too.
  \<^item> \<open>Manager_Behaviour\<close>: a release refines the abstract queue service \<open>drain\<close>; the answers
    to RESERVE. \<open>Handler_Behaviour\<close>: JOB_REQUEST, JOB_RELEASE, GRANTED, malformed lines.
    \<open>Server_Behaviour\<close>: framing, overlong lines, the list of nodes.
  \<^item> \<open>Remote_Protocol\<close>: two agents, from a reservation to its release.
  \<^item> \<open>Agent_Locks\<close>: the threads do not deadlock on their mutexes.
  \<^item> \<open>Protocol_Findings\<close>, \<open>Thread_Findings\<close>: runs that lose resources or go wrong, the second
    with two workers. \<open>Example_Run\<close>: the runs and states the concrete instances use.

  \<^bold>\<open>Faults, bounds and termination.\<close> An operation that could touch memory outside an object or
  through a dangling pointer returns an \<open>option\<close>; \<open>None\<close> is that fault, never a lack of
  fuel. All loops are structural recursions or have a termination proof (the queue gets
  shorter in \<open>release_loop\<close>, the buffer in \<open>read_lines\<close>), and interleaved the tasks of all
  threads end too (\<open>Thread_Termination\<close>); the loops over linked nodes of
  \<open>Pending_Queue_Ptr\<close> may not end on a cyclic list and are shown to end on every list the
  operations build.

  \<^bold>\<open>What is assumed.\<close> The answers of the kernel and of \<open>malloc\<close> are arguments; \<open>event_ok\<close>,
  \<open>malloc_fresh\<close> and \<open>los_fresh\<close> say what is relied on: \<open>malloc\<close> returns memory not in use,
  \<open>read\<close> and \<open>write\<close> respect the length they are given, a socket that is still connecting is
  not readable, \<open>inet_ntop\<close> writes an address. Of the lines that arrive, \<open>message_ok\<close> asks
  for job ids with a bucket and for no resource word longer than \<open>rec\<close> holds, which the
  code does not check (the theorems on \<open>job_idx\<close> and \<open>rec_overflow\<close> show what happens
  otherwise), and \<open>amounts_ok\<close>, for the bounds only, asks for amounts in range.

  \<^bold>\<open>What interleaves.\<close> A task is a critical section of the code, or code that uses one
  connection, or code that only computes. A worker may take any event at any time, also one
  of a connection another worker is handling, which EPOLLONESHOT prevents; the theorems hold
  for these runs as well, and the run of \<open>Thread_Findings\<close> is not one of them. Memory
  safety (\<open>refs\<close>) is shown for \<open>agent_step\<close> only; with interleaved tasks it fails, as
  \<open>Thread_Findings\<close> shows, and \<open>Thread_Safety\<close> says which faults are left. The assumption
  \<open>reads_ok\<close>, on what a read returns, is made at the task that reads.

  \<^bold>\<open>Not modelled.\<close> Accesses to a connection that do not hold its mutex are one task and not
  single loads and stores; \<open>print_manager\<close>, which reads the amounts without their mutexes
  and prints them, and what else is printed to the console. Signals. The exits of the
  process in \<open>set_nonblocking\<close>, \<open>assert\<close> after \<open>malloc\<close> of small objects, and \<open>sleep\<close>. Lists
  other than the queue are values, so that the freeing of their nodes has no counterpart.
  The planner is in Erlang; the lines it writes are in \<open>Messages\<close>. Build files and test
  scripts.
\<close>

section \<open>Properties of the whole agent\<close>


lemma agent_step_any: "(agent_step ok)\<^sup>*\<^sup>* s s' \<Longrightarrow> (agent_step (\<lambda>_ _. True))\<^sup>*\<^sup>* s s'"
proof (induction rule: rtranclp_induct)
  case (step s' s'')
  from step(2) have "agent_step (\<lambda>_ _. True) s' s''"
    by (cases rule: agent_stepE [of ok s' s'']) (auto intro: agent_step.intros)
  with step(3) show ?case by simp
qed simp


text \<open>
  \<open>C2\<close>. The books balance. Started with amounts from 0 to \<open>MAX_AMOUNT\<close>, and as long as the
  amounts in the lines of other agents are in range, however the tasks of any number of
  workers and of the broadcast thread are interleaved, what is available of each resource
  is at least 0 and at most the total, and the total is the amount the agent was started
  with: the agent never hands out more than it has, nor does a race lose an update.
\<close>

theorem resource_bounds:
  assumes "main_agent argv epfd los = Started s0" "config_of_args argv = Some cfg" "config_ok cfg"
    and "(cstep amounts_event_ok)\<^sup>*\<^sup>* (s0, idle n) (s, ts)"
  shows "0 \<le> available_amount (recursos s r) \<and> available_amount (recursos s r) \<le> total_amount (recursos s r)
    \<and> total_amount (recursos s r) = (case r of RESOURCE_CPU \<Rightarrow> cfg_cpu cfg | RESOURCE_MEM \<Rightarrow> cfg_mem cfg | RESOURCE_GPU \<Rightarrow> cfg_gpu cfg)"
proof -
  have "books_ok s" by (rule books.threads_keep(1) [OF assms(4) main_agent_books [OF assms(1-3)]])
  moreover have "\<forall>r. total_amount (recursos s r)
      = (case r of RESOURCE_CPU \<Rightarrow> cfg_cpu cfg | RESOURCE_MEM \<Rightarrow> cfg_mem cfg | RESOURCE_GPU \<Rightarrow> cfg_gpu cfg)"
    by (rule totals.threads_keep(1) [OF assms(4)]) (simp add: main_agent_frame(2) [OF assms(1,2)] Let_def)
  ultimately show ?thesis by (simp add: books_ok_def recurso_ok_def)
qed

lemma example_config:
  "config_of_args example_args = Some \<lparr>cfg_ip = ''10.0.0.1'', cfg_port = 9000, cfg_cpu = 4, cfg_mem = 8, cfg_gpu = 1\<rparr>"
  by code_simp

theorem resource_bounds_witness:
  "\<exists>s. (cstep amounts_event_ok)\<^sup>*\<^sup>* (example_boot, idle 3) (s, idle 3) \<and> available_amount (recursos s RESOURCE_CPU) = 1
     \<and> total_amount (recursos s RESOURCE_CPU) = 4"
proof -
  have boot: "main_agent example_args (Some (\<lambda>_. True)) example_los = Started example_boot" using example_main by blast
  have run: "map_option (\<lambda>s. available_amount (recursos s RESOURCE_CPU)) example_served = Some 1" by code_simp
  obtain s where s: "(agent_step amounts_event_ok)\<^sup>*\<^sup>* example_boot s" "available_amount (recursos s RESOURCE_CPU) = 1"
    using example_served_state [OF run] by blast
  have reach: "(cstep amounts_event_ok)\<^sup>*\<^sup>* (example_boot, idle 3) (s, idle 3)"
    using agent_run_csteps [OF s(1), of 2] by (simp add: numeral_3_eq_3 numeral_2_eq_2)
  have "total_amount (recursos s RESOURCE_CPU) = 4"
    using resource_bounds [OF boot example_config _ reach, of RESOURCE_CPU] by (simp add: config_ok_def)
  with s reach show ?thesis by blast
qed

lemma main_agent_arrays:
  assumes "main_agent argv epfd los = Started s" "los_fresh los"
  shows "arrays_ok s"
proof -
  note d = agent_okD [OF main_agent_ok [OF assms]]
  obtain cfg where "config_of_args argv = Some cfg" using assms(1) by (auto simp: main_agent_def split: option.splits)
  from main_agent_frame [OF assms(1) this] show ?thesis
    using d(6-8) by (simp add: arrays_ok_def tabla_all_init tabla_nodos_init_def)
qed


text \<open>After a RESERVE was granted, the answer is in the buffer of its connection.\<close>

lemma event_ok_reads: "event_ok ev s \<Longrightarrow> reads_ok ev s"
  by (auto simp: reads_ok_def event_ok_def)

lemma agent_step_reads: "(agent_step ok)\<^sup>*\<^sup>* s s' \<Longrightarrow> (agent_step reads_ok)\<^sup>*\<^sup>* s s'"
proof (induction rule: rtranclp_induct)
  case (step s' s'')
  from step(2) have "agent_step reads_ok s' s''"
    by (cases rule: agent_stepE [of ok s' s'']) (auto intro: agent_step.intros event_ok_reads)
  with step(3) show ?case by simp
qed simp


section \<open>Properties of the threads\<close>


text \<open>A task touches the job table, or a resource, when what it does depends on it or changes it.\<close>

definition touches_tabla :: "task \<Rightarrow> bool" where
  "touches_tabla t \<longleftrightarrow> (\<exists>s x. exec t (s\<lparr>tabla := x\<rparr>) \<noteq> framed (tabla_update (\<lambda>_. x)) (exec t s))"

definition touches_recurso :: "resource_t \<Rightarrow> task \<Rightarrow> bool" where
  "touches_recurso r t \<longleftrightarrow> (\<exists>s x. exec t (upd_recurso r (\<lambda>_. x) s) \<noteq> framed (upd_recurso r (\<lambda>_. x)) (exec t s))"

lemma reached_pool: "(cstep ok)\<^sup>*\<^sup>* (s0, idle n) (s, ts) \<Longrightarrow> pool_ok ts"
  using locking.reach_keeps [of ok "(s0, idle n)" "(s, ts)"] pool_ok_idle by simp

lemma touches_held:
  assumes "pool_ok ts" "i < length ts" "ts ! i = (h, t # us)"
  shows "touches_tabla t \<Longrightarrow> TablaLock \<in> set h" "touches_recurso r t \<Longrightarrow> RecursoMutex r \<in> set h"
proof -
  obtain h' where h': "locks_after t h = Some h'"
    using bind_SomeD [OF pool_nth(1) [OF assms, unfolded stack_after.simps]] by blast
  show "touches_tabla t \<Longrightarrow> TablaLock \<in> set h" using exec_tabla [OF h'] by (auto simp: touches_tabla_def)
  show "touches_recurso r t \<Longrightarrow> RecursoMutex r \<in> set h" using exec_recurso [OF h'] by (auto simp: touches_recurso_def)
qed


text \<open>One worker is in JOB_REQUEST with the lock of the table, the other waits for it to remove the jobs of a connection.\<close>

fun at_race_lock :: "pool \<Rightarrow> bool" where
  "at_race_lock [(h, TJob_begin red c m # us), (h', TLock TablaLock # us')] \<longleftrightarrow> c = 5"
| "at_race_lock _ \<longleftrightarrow> False"

lemma race_lock:
  "\<exists>s h us red m h' us'. (cstep reads_ok)\<^sup>*\<^sup>* (example_boot, idle 2) (s, [(h, TJob_begin red 5 m # us), (h', TLock TablaLock # us')])"
proof -
  have "map_option (\<lambda>c. at_race_lock (snd c)) (race_run (replicate 6 0 @ replicate 10 1)) = Some True" by code_simp
  from race_run_state [OF this] obtain s ts where ts: "(cstep reads_ok)\<^sup>*\<^sup>* (example_boot, idle 2) (s, ts)" "at_race_lock ts" by auto
  then show ?thesis by (cases ts rule: at_race_lock.cases) (simp_all, blast)
qed


text \<open>
  \<open>C8\<close>. Every event is handled to the end. However the threads came to where they are, and
  whatever the scheduler does, if no further event is taken the threads cannot go on for
  ever; and where they cannot go on at all, either every thread is idle and holds no mutex,
  so that all events are handled, or the next task of some thread faults. So there is no
  deadlock, no livelock and no endless loop in the handlers.
\<close>

theorem threads_finish:
  assumes "(cstep (\<lambda>_ _. True))\<^sup>*\<^sup>* (s0, idle n) (s, ts)"
  shows "(\<nexists>f. f 0 = (s, ts) \<and> (\<forall>k. tstep (\<lambda>_ _. True) (f k) (f (Suc k))))
    \<and> (\<forall>s' ts'. (tstep (\<lambda>_ _. True))\<^sup>*\<^sup>* (s, ts) (s', ts') \<and> (\<nexists>c. tstep (\<lambda>_ _. True) (s', ts') c)
         \<longrightarrow> (\<forall>t\<in>set ts'. t = ([], [])) \<or> (\<exists>h t us. (h, t # us) \<in> set ts' \<and> exec t s' = None))"
proof (intro conjI allI impI)
  show "\<nexists>f. f 0 = (s, ts) \<and> (\<forall>k. tstep (\<lambda>_ _. True) (f k) (f (Suc k)))"
    using tstep_wf [of "\<lambda>_ _. True"] by (auto simp: wf_iff_no_infinite_down_chain)
next
  fix s' ts'
  assume end_of_run: "(tstep (\<lambda>_ _. True))\<^sup>*\<^sup>* (s, ts) (s', ts') \<and> (\<nexists>c. tstep (\<lambda>_ _. True) (s', ts') c)"
  then have "(cstep (\<lambda>_ _. True))\<^sup>*\<^sup>* (s0, idle n) (s', ts')"
    using assms tsteps_csteps by (meson rtranclp_trans)
  note pool = reached_pool [OF this]
  show "(\<forall>t\<in>set ts'. t = ([], [])) \<or> (\<exists>h t us. (h, t # us) \<in> set ts' \<and> exec t s' = None)"
  proof (cases "\<forall>t\<in>set ts'. snd t = []")
    case True
    then show ?thesis using idle_unlocked [OF pool] by (metis prod.collapse)
  next
    case False
    then show ?thesis using thread_can_go [OF pool] end_of_run by blast
  qed
qed

text \<open>The second worker waits for the lock of the table, which the first holds.\<close>

lemma cstep_any: "(cstep ok)\<^sup>*\<^sup>* c c' \<Longrightarrow> (cstep (\<lambda>_ _. True))\<^sup>*\<^sup>* c c'"
proof (induction rule: rtranclp_induct)
  case (step c' c'')
  from step(2) have "cstep (\<lambda>_ _. True) c' c''" by cases (auto intro: cstep.intros simp: permits_def)
  with step(3) show ?case by simp
qed simp

theorem threads_finish_witness:
  "\<exists>s ts. (cstep (\<lambda>_ _. True))\<^sup>*\<^sup>* (example_boot, idle 2) (s, ts) \<and> waits ts 1
     \<and> (\<nexists>f. f 0 = (s, ts) \<and> (\<forall>k. tstep (\<lambda>_ _. True) (f k) (f (Suc k))))"
proof -
  obtain s h us red m h' us' where
    run: "(cstep reads_ok)\<^sup>*\<^sup>* (example_boot, idle 2) (s, [(h, TJob_begin red 5 m # us), (h', TLock TablaLock # us')])"
      (is "(cstep reads_ok)\<^sup>*\<^sup>* _ (s, ?ts)") using race_lock by blast
  have "h = [TablaLock]" using pool_nth(1) [OF reached_pool [OF run], of 0] by (auto simp: expects_def split: if_splits)
  then have "waits ?ts 1" by (simp add: waits_def)
  moreover note cstep_any [OF run] and conjunct1 [OF threads_finish [OF cstep_any [OF run]]]
  ultimately show ?thesis by blast
qed

text \<open>
  \<open>C7\<close>. One job per id. However the threads are interleaved, the job table is well formed
  and no two jobs in it have the same id, although JOB_REQUEST looks the id up long before
  it enters the job, and asks for resources in between.
\<close>

theorem unique_jobs:
  assumes "main_agent argv epfd los = Started s0" "(cstep ok)\<^sup>*\<^sup>* (s0, idle n) (s, ts)"
  shows "jobs_ok (tabla s) \<and> distinct (map j_job_id (entries (tabla s)))"
proof -
  obtain cfg where "config_of_args argv = Some cfg" using assms(1) by (auto simp: main_agent_def split: option.splits)
  then have "jobs_ok (tabla s0)" using main_agent_frame(1) [OF assms(1)] jobs_ok_init by simp
  then have "jobs_ok (tabla s)" using jobs_threads.reach_keeps [OF assms(2) jobs_inv_idle] by (simp add: jobs_inv_def)
  then show ?thesis using jobs.entries_distinct by (auto simp: jobs_ok_def)
qed

theorem unique_jobs_witness:
  "\<exists>s ts. (cstep reads_ok)\<^sup>*\<^sup>* (example_boot, idle 2) (s, ts) \<and> map j_job_id (entries (tabla s)) = [7]
     \<and> distinct (map j_job_id (entries (tabla s)))"
proof -
  have boot: "main_agent example_args (Some (\<lambda>_. True)) example_los = Started example_boot" using example_main by blast
  have "map_option (\<lambda>c. map j_job_id (entries (tabla (fst c)))) (race_run []) = Some [7]" by code_simp
  from race_run_state [OF this] obtain s ts where
    run: "(cstep reads_ok)\<^sup>*\<^sup>* (example_boot, idle 2) (s, ts)" "map j_job_id (entries (tabla s)) = [7]" by auto
  from unique_jobs [OF boot run(1)] have "distinct (map j_job_id (entries (tabla s)))" by simp
  with run show ?thesis by (intro exI [of _ s] exI [of _ ts]) simp
qed



lemma atoi_int: "in_s32 (atoi s)"
  using scan_int_in_s32 by (auto simp: atoi_def in_s32_def split: option.splits)



end
